theory Spec2Isabelle
  imports Main "HOL-Library.Word" "HOL-Library.AList" "HOL-Library.Sublist"
begin

section \<open>Kueue: flavor assigner and workload admission helpers\<close>

text \<open>
  A shallow embedding of \<^verbatim>\<open>pkg/scheduler/flavorassigner/flavorassigner.go\<close> and of the
  admission helpers of \<^verbatim>\<open>pkg/workload/workload.go\<close>.

  Conventions of the embedding:
  \<^item> Go's \<^verbatim>\<open>int64\<close> is \<open>64 word\<close>; \<open>+\<close> and \<open>-\<close> wrap, comparisons read the word
    as two's complement (\<open>sint\<close>).
  \<^item> A Go map that the code only reads by key is a HOL map; a missing key of a map of
    integers reads as 0, a missing key of a map of pointers as the nil pointer
    (\<open>None\<close>).
  \<^item> A Go map that the code ranges over is an association list; the list order is the
    order in which that run of the program visits the keys (Go leaves it unspecified).
  \<^item> A nil pointer dereference or an index out of range is the value \<open>Inl\<close> of a panic.
  \<^item> Functions of the Kubernetes libraries that the code calls (taint toleration, node
    selector matching, the printing of taints and quantities) are not part of the
    repository; they are the fields of the record \<open>K8s\<close>, and every theorem holds for
    any value of them.
\<close>

subsection \<open>Machine integers and panics\<close>

datatype panic = NilPointerDereference | IndexOutOfRange

type_synonym int64 = "64 word"
type_synonym int32 = "32 word"

definition sle64 :: "int64 \<Rightarrow> int64 \<Rightarrow> bool" where
  "sle64 a b = (sint a \<le> sint b)"

definition slt64 :: "int64 \<Rightarrow> int64 \<Rightarrow> bool" where
  "slt64 a b = (sint a < sint b)"

definition in64 :: "int \<Rightarrow> bool" where
  "in64 k = (- (2 ^ 63) \<le> k \<and> k < 2 ^ 63)"

subsection \<open>Data model\<close>

type_synonym ResourceName = string
type_synonym ResourceFlavorReference = string

text \<open>\<^verbatim>\<open>cache.FlavorResourceQuantities\<close>: flavor, then resource, to quantity.\<close>

type_synonym FlavorResourceQuantities =
  "ResourceFlavorReference \<rightharpoonup> (ResourceName \<rightharpoonup> int64)"

definition qty :: "FlavorResourceQuantities \<Rightarrow> ResourceFlavorReference \<Rightarrow> ResourceName \<Rightarrow> int64" where
  "qty m f r = (case m f of None \<Rightarrow> 0 | Some rm \<Rightarrow> (case rm r of None \<Rightarrow> 0 | Some v \<Rightarrow> v))"

datatype FlavorAssignmentMode = NoFit | Preempt | Fit

text \<open>The modes are the integers 0, 1, 2 (\<^verbatim>\<open>iota\<close>), and are compared as such.\<close>

fun mode_rank :: "FlavorAssignmentMode \<Rightarrow> nat" where
  "mode_rank NoFit = 0"
| "mode_rank Preempt = 1"
| "mode_rank Fit = 2"

instantiation FlavorAssignmentMode :: linorder
begin

definition less_eq_FlavorAssignmentMode :: "FlavorAssignmentMode \<Rightarrow> FlavorAssignmentMode \<Rightarrow> bool" where
  "less_eq_FlavorAssignmentMode a b = (mode_rank a \<le> mode_rank b)"

definition less_FlavorAssignmentMode :: "FlavorAssignmentMode \<Rightarrow> FlavorAssignmentMode \<Rightarrow> bool" where
  "less_FlavorAssignmentMode a b = (mode_rank a < mode_rank b)"

instance
proof
  fix x y z :: FlavorAssignmentMode
  show "(x < y) = (x \<le> y \<and> \<not> y \<le> x)"
    by (auto simp: less_eq_FlavorAssignmentMode_def less_FlavorAssignmentMode_def)
  show "x \<le> x"
    by (simp add: less_eq_FlavorAssignmentMode_def)
  show "x \<le> y \<Longrightarrow> y \<le> z \<Longrightarrow> x \<le> z"
    by (simp add: less_eq_FlavorAssignmentMode_def)
  show "x \<le> y \<Longrightarrow> y \<le> x \<Longrightarrow> x = y"
    by (cases x; cases y; simp add: less_eq_FlavorAssignmentMode_def)
  show "x \<le> y \<or> y \<le> x"
    by (auto simp: less_eq_FlavorAssignmentMode_def)
qed

end

record Status =
  reasons :: "string list"
  err :: "string option"

record FlavorAssignment =
  Name :: ResourceFlavorReference
  Mode :: FlavorAssignmentMode
  borrow :: int64

type_synonym ResourceAssignment = "(ResourceName \<times> FlavorAssignment) list"

datatype Format = DecimalSI | BinarySI

datatype Quantity = NewMilliQuantity int64 Format | NewQuantity int64 Format

record ResourceQuota =
  Nominal :: int64
  BorrowingLimit :: "int64 option"

record FlavorQuotas =
  FlavorQuotas_Name :: ResourceFlavorReference
  Resources :: "ResourceName \<rightharpoonup> ResourceQuota"

record ResourceGroup =
  CoveredResources :: "ResourceName set"
  ResourceGroup_Flavors :: "FlavorQuotas list"
  LabelKeys :: "string set"

record Cohort =
  RequestableResources :: FlavorResourceQuantities
  Cohort_Usage :: FlavorResourceQuantities

record ClusterQueue =
  RGByResource :: "ResourceName \<rightharpoonup> ResourceGroup"
  Usage :: FlavorResourceQuantities
  Cohort :: "Cohort option"

record Taint =
  Taint_Key :: string
  Taint_Value :: string
  Taint_Effect :: string

record Toleration =
  Toleration_Key :: string
  Toleration_Operator :: string
  Toleration_Value :: string
  Toleration_Effect :: string

record ResourceFlavor =
  NodeLabels :: "string \<rightharpoonup> string"
  NodeTaints :: "Taint list"

record NodeSelectorRequirement =
  Requirement_Key :: string
  Requirement_Operator :: string
  Requirement_Values :: "string list"

record NodeSelectorTerm =
  MatchExpressions :: "NodeSelectorRequirement list"
  MatchFields :: "NodeSelectorRequirement list"

text \<open>
  The fields of \<^verbatim>\<open>corev1.PodSpec\<close> that the assigner reads. \<open>RequiredTerms\<close> is
  \<^verbatim>\<open>Affinity.NodeAffinity.RequiredDuringSchedulingIgnoredDuringExecution.NodeSelectorTerms\<close>,
  and \<open>None\<close> when one of the three pointers on that path is nil.
\<close>

record PodSpec =
  NodeSelector :: "string \<rightharpoonup> string"
  RequiredTerms :: "NodeSelectorTerm list option"
  Tolerations :: "Toleration list"

text \<open>The Kubernetes library functions the code calls, as parameters.\<close>

record K8s =
  QuantityString :: "Quantity \<Rightarrow> string"
  TaintToString :: "Taint \<Rightarrow> string"
  ToleratesTaint :: "Toleration \<Rightarrow> Taint \<Rightarrow> bool"
  SelectorMatch :: "PodSpec \<Rightarrow> (string \<rightharpoonup> string) \<Rightarrow> bool \<times> string option"

subsection \<open>\<^verbatim>\<open>workload.ResourceQuantity\<close>\<close>

definition ResourceQuantity :: "ResourceName \<Rightarrow> int64 \<Rightarrow> Quantity" where
  "ResourceQuantity name v =
     (if name = ''cpu'' then NewMilliQuantity v DecimalSI
      else if name = ''memory'' \<or> name = ''ephemeral-storage'' then NewQuantity v BinarySI
      else if prefix ''hugepages-'' name then NewQuantity v BinarySI
      else NewQuantity v DecimalSI)"

subsection \<open>\<^verbatim>\<open>fitsResourceQuota\<close>\<close>

definition borrowingLimitMsg :: "ResourceName \<Rightarrow> ResourceFlavorReference \<Rightarrow> string" where
  "borrowingLimitMsg rName fName =
     ''borrowing limit for '' @ rName @ '' in flavor '' @ fName @ '' exceeded''"

definition Status_of :: "string \<Rightarrow> Status" where
  "Status_of msg = \<lparr>reasons = [msg], err = None\<rparr>"

definition fitsResourceQuota ::
  "K8s \<Rightarrow> ResourceFlavorReference \<Rightarrow> ResourceName \<Rightarrow> int64 \<Rightarrow> ClusterQueue \<Rightarrow> ResourceQuota
     \<Rightarrow> FlavorAssignmentMode \<times> int64 \<times> Status option" where
  "fitsResourceQuota k fName rName val cq rQuota =
     (let used = qty (Usage cq) fName rName;
          mode = (if sle64 val (Nominal rQuota) then Preempt else NoFit)
      in if (case BorrowingLimit rQuota of None \<Rightarrow> False
             | Some bl \<Rightarrow> slt64 (Nominal rQuota + bl) (used + val))
         then (mode, 0, Some (Status_of (borrowingLimitMsg rName fName)))
         else
           let cohortUsed = (case Cohort cq of None \<Rightarrow> used
                             | Some c \<Rightarrow> qty (Cohort_Usage c) fName rName);
               cohortAvailable = (case Cohort cq of None \<Rightarrow> Nominal rQuota
                                  | Some c \<Rightarrow> qty (RequestableResources c) fName rName);
               lack = cohortUsed + val - cohortAvailable
           in if sle64 lack 0
              then (let borrow = used + val - Nominal rQuota
                    in (Fit, (if slt64 borrow 0 then 0 else borrow), None))
              else
                let lackQuantity = ResourceQuantity rName lack;
                    msg = (if Cohort cq = None
                           then (if mode = NoFit
                                 then ''insufficient quota for '' @ rName @ '' in flavor '' @ fName
                                        @ '' in ClusterQueue''
                                 else ''insufficient unused quota for '' @ rName @ '' in flavor ''
                                        @ fName @ '', '' @ QuantityString k lackQuantity
                                        @ '' more needed'')
                           else ''insufficient unused quota in cohort for '' @ rName
                                  @ '' in flavor '' @ fName @ '', ''
                                  @ QuantityString k lackQuantity @ '' more needed'')
                in (mode, 0, Some (Status_of msg)))"

subsection \<open>\<^verbatim>\<open>Status\<close>\<close>

definition Status_IsError :: "Status option \<Rightarrow> bool" where
  "Status_IsError s = (case s of None \<Rightarrow> False | Some st \<Rightarrow> err st \<noteq> None)"

definition Status_append :: "Status \<Rightarrow> string list \<Rightarrow> Status" where
  "Status_append s r = s\<lparr>reasons := reasons s @ r\<rparr>"

subsection \<open>\<^verbatim>\<open>flavorSelector\<close>\<close>

text \<open>
  The loop over the node selector terms. The third argument is \<^verbatim>\<open>termsCopy\<close>; a term
  left without expressions resets it to nil and leaves the loop.
\<close>

fun flavorSelector_terms ::
  "string set \<Rightarrow> NodeSelectorTerm list \<Rightarrow> NodeSelectorTerm list \<Rightarrow> NodeSelectorTerm list" where
  "flavorSelector_terms allowedKeys [] termsCopy = termsCopy"
| "flavorSelector_terms allowedKeys (t # ts) termsCopy =
     (let expCopy = filter (\<lambda>e. Requirement_Key e \<in> allowedKeys) (MatchExpressions t)
      in if length expCopy = 0 then []
         else flavorSelector_terms allowedKeys ts
                (termsCopy @ [\<lparr>MatchExpressions = expCopy, MatchFields = []\<rparr>]))"

text \<open>
  \<^verbatim>\<open>flavorSelector\<close> returns \<^verbatim>\<open>nodeaffinity.GetRequiredNodeAffinity\<close> of a pod whose
  spec is \<^verbatim>\<open>specCopy\<close>; the model returns \<^verbatim>\<open>specCopy\<close>, and \<open>SelectorMatch\<close> stands for
  the library's construction and matching of the selector. A nil map and an empty map are
  both \<open>Map.empty\<close>.
\<close>

definition flavorSelector :: "PodSpec \<Rightarrow> string set \<Rightarrow> PodSpec" where
  "flavorSelector spec allowedKeys =
     (let specCopy = \<lparr>NodeSelector = Map.empty, RequiredTerms = None, Tolerations = []\<rparr>;
          specCopy = (if NodeSelector spec \<noteq> Map.empty
                      then specCopy\<lparr>NodeSelector :=
                             (\<lambda>k. if k \<in> allowedKeys then NodeSelector spec k else None)\<rparr>
                      else specCopy)
      in case RequiredTerms spec of
           None \<Rightarrow> specCopy
         | Some terms \<Rightarrow>
             (let termsCopy = flavorSelector_terms allowedKeys terms []
              in if length termsCopy \<noteq> 0 then specCopy\<lparr>RequiredTerms := Some termsCopy\<rparr>
                 else specCopy))"

subsection \<open>\<^verbatim>\<open>findFlavorForResourceGroup\<close>\<close>

definition filterRequestedResources ::
  "(ResourceName \<times> int64) list \<Rightarrow> ResourceName set \<Rightarrow> (ResourceName \<times> int64) list" where
  "filterRequestedResources req allowList = filter (\<lambda>(n, v). n \<in> allowList) req"

text \<open>
  \<^verbatim>\<open>corev1helpers.FindMatchingUntoleratedTaint\<close> of the Kubernetes component helpers: the
  first taint that passes the inclusion filter and that no toleration tolerates.
\<close>

definition FindMatchingUntoleratedTaint ::
  "K8s \<Rightarrow> Taint list \<Rightarrow> Toleration list \<Rightarrow> (Taint \<Rightarrow> bool) \<Rightarrow> Taint option" where
  "FindMatchingUntoleratedTaint k taints tolerations inclusionFilter =
     find (\<lambda>t. inclusionFilter t \<and> \<not> list_ex (\<lambda>tol. ToleratesTaint k tol t) tolerations) taints"

definition taintFilter :: "Taint \<Rightarrow> bool" where
  "taintFilter t = (Taint_Effect t = ''NoSchedule'' \<or> Taint_Effect t = ''NoExecute'')"

definition flavorNotFoundMsg :: "ResourceFlavorReference \<Rightarrow> string" where
  "flavorNotFoundMsg fName = ''flavor '' @ fName @ '' not found''"

definition untoleratedTaintMsg :: "K8s \<Rightarrow> Taint \<Rightarrow> ResourceFlavorReference \<Rightarrow> string" where
  "untoleratedTaintMsg k taint fName =
     ''untolerated taint '' @ TaintToString k taint @ '' in flavor '' @ fName"

definition noAffinityMatchMsg :: "ResourceFlavorReference \<Rightarrow> string" where
  "noAffinityMatchMsg fName = ''flavor '' @ fName @ '' doesn'' @ [CHR 0x27] @ ''t match node affinity''"

text \<open>
  The loop over the requests of one flavor. The state is \<^verbatim>\<open>assignments\<close>,
  \<^verbatim>\<open>representativeMode\<close> and \<^verbatim>\<open>status\<close>. A resource without a quota in the flavor is a
  nil \<^verbatim>\<open>*ResourceQuota\<close>, which \<^verbatim>\<open>fitsResourceQuota\<close> dereferences.
\<close>

fun requestsLoop ::
  "K8s \<Rightarrow> FlavorResourceQuantities \<Rightarrow> ClusterQueue \<Rightarrow> FlavorQuotas \<Rightarrow> (ResourceName \<times> int64) list
     \<Rightarrow> ResourceAssignment \<times> FlavorAssignmentMode \<times> Status
     \<Rightarrow> panic + (ResourceAssignment \<times> FlavorAssignmentMode \<times> Status)" where
  "requestsLoop k a_usage cq flvQuotas [] st = Inr st"
| "requestsLoop k a_usage cq flvQuotas ((rName, val) # rest) (assignments, representativeMode, status) =
     (case Resources flvQuotas rName of
        None \<Rightarrow> Inl NilPointerDereference
      | Some resQuota \<Rightarrow>
          (case fitsResourceQuota k (FlavorQuotas_Name flvQuotas) rName
                  (val + qty a_usage (FlavorQuotas_Name flvQuotas) rName) cq resQuota of
             (mode, borrow_v, s) \<Rightarrow>
               (let status = (case s of None \<Rightarrow> status
                              | Some st \<Rightarrow> status\<lparr>reasons := reasons status @ reasons st\<rparr>);
                    representativeMode = (if mode < representativeMode then mode
                                          else representativeMode)
                in if representativeMode = NoFit
                   then Inr (assignments, representativeMode, status)
                   else requestsLoop k a_usage cq flvQuotas rest
                          (AList.update rName
                             \<lparr>Name = FlavorQuotas_Name flvQuotas, Mode = mode, borrow = borrow_v\<rparr>
                             assignments,
                           representativeMode, status))))"

text \<open>
  The loop over the flavors of the group. The state is \<^verbatim>\<open>status\<close>,
  \<^verbatim>\<open>bestAssignment\<close> and \<^verbatim>\<open>bestAssignmentMode\<close>; the result is the function's pair
  of a resource assignment (nil is \<open>[]\<close>) and a \<^verbatim>\<open>*Status\<close>.
\<close>

fun flavorsLoop ::
  "K8s \<Rightarrow> FlavorResourceQuantities \<Rightarrow> (ResourceFlavorReference \<rightharpoonup> ResourceFlavor) \<Rightarrow> ClusterQueue
     \<Rightarrow> PodSpec \<Rightarrow> PodSpec \<Rightarrow> (ResourceName \<times> int64) list \<Rightarrow> FlavorQuotas list
     \<Rightarrow> Status \<times> ResourceAssignment \<times> FlavorAssignmentMode
     \<Rightarrow> panic + (ResourceAssignment \<times> Status option)" where
  "flavorsLoop k a_usage resourceFlavors cq spec selector requests []
     (status, bestAssignment, bestAssignmentMode) = Inr (bestAssignment, Some status)"
| "flavorsLoop k a_usage resourceFlavors cq spec selector requests (flvQuotas # rest)
     (status, bestAssignment, bestAssignmentMode) =
     (case resourceFlavors (FlavorQuotas_Name flvQuotas) of
        None \<Rightarrow>
          flavorsLoop k a_usage resourceFlavors cq spec selector requests rest
            (Status_append status [flavorNotFoundMsg (FlavorQuotas_Name flvQuotas)],
             bestAssignment, bestAssignmentMode)
      | Some flavor \<Rightarrow>
          (case FindMatchingUntoleratedTaint k (NodeTaints flavor) (Tolerations spec) taintFilter of
             Some taint \<Rightarrow>
               flavorsLoop k a_usage resourceFlavors cq spec selector requests rest
                 (Status_append status [untoleratedTaintMsg k taint (FlavorQuotas_Name flvQuotas)],
                  bestAssignment, bestAssignmentMode)
           | None \<Rightarrow>
               (case SelectorMatch k selector (NodeLabels flavor) of
                  (match, e) \<Rightarrow>
                    if \<not> match \<or> e \<noteq> None
                    then (if e \<noteq> None then Inr ([], Some (status\<lparr>err := e\<rparr>))
                          else flavorsLoop k a_usage resourceFlavors cq spec selector requests rest
                                 (Status_append status
                                    [noAffinityMatchMsg (FlavorQuotas_Name flvQuotas)],
                                  bestAssignment, bestAssignmentMode))
                    else
                      (case requestsLoop k a_usage cq flvQuotas requests ([], Fit, status) of
                         Inl p \<Rightarrow> Inl p
                       | Inr (assignments, representativeMode, status) \<Rightarrow>
                           if bestAssignmentMode < representativeMode
                           then (if representativeMode = Fit then Inr (assignments, None)
                                 else flavorsLoop k a_usage resourceFlavors cq spec selector
                                        requests rest (status, assignments, representativeMode))
                           else flavorsLoop k a_usage resourceFlavors cq spec selector requests
                                  rest (status, bestAssignment, bestAssignmentMode)))))"

definition findFlavorForResourceGroup ::
  "K8s \<Rightarrow> FlavorResourceQuantities \<Rightarrow> ResourceGroup \<Rightarrow> (ResourceName \<times> int64) list
     \<Rightarrow> (ResourceFlavorReference \<rightharpoonup> ResourceFlavor) \<Rightarrow> ClusterQueue \<Rightarrow> PodSpec
     \<Rightarrow> panic + (ResourceAssignment \<times> Status option)" where
  "findFlavorForResourceGroup k a_usage rg requests resourceFlavors cq spec =
     (let status = \<lparr>reasons = [], err = None\<rparr>;
          requests = filterRequestedResources requests (CoveredResources rg);
          selector = flavorSelector spec (LabelKeys rg)
      in flavorsLoop k a_usage resourceFlavors cq spec selector requests
           (ResourceGroup_Flavors rg) (status, [], NoFit))"

subsection \<open>The search of a resource group, as the specification words it\<close>

text \<open>
  What the assigner finds out about one flavor of the group, on its own: the flavor is
  considered, with the resource assignment, the mode (the worst mode among the requests)
  and the reasons it yields; or matching the selector fails with an error; or a request
  has no quota in the flavor. A flavor that is skipped (not in the catalogue, an
  untolerated taint, no match of the selector) counts as considered with mode NoFit, no
  assignment and the reason of the skip.
\<close>

datatype FlavorOutcome =
    Considered ResourceAssignment FlavorAssignmentMode "string list"
  | SelectorError string
  | Panicked panic

definition flavorOutcome ::
  "K8s \<Rightarrow> FlavorResourceQuantities \<Rightarrow> (ResourceFlavorReference \<rightharpoonup> ResourceFlavor) \<Rightarrow> ClusterQueue
     \<Rightarrow> PodSpec \<Rightarrow> PodSpec \<Rightarrow> (ResourceName \<times> int64) list \<Rightarrow> FlavorQuotas \<Rightarrow> FlavorOutcome" where
  "flavorOutcome k a_usage resourceFlavors cq spec selector requests flvQuotas =
     (case resourceFlavors (FlavorQuotas_Name flvQuotas) of
        None \<Rightarrow> Considered [] NoFit [flavorNotFoundMsg (FlavorQuotas_Name flvQuotas)]
      | Some flavor \<Rightarrow>
          (case FindMatchingUntoleratedTaint k (NodeTaints flavor) (Tolerations spec) taintFilter of
             Some taint \<Rightarrow>
               Considered [] NoFit [untoleratedTaintMsg k taint (FlavorQuotas_Name flvQuotas)]
           | None \<Rightarrow>
               (case SelectorMatch k selector (NodeLabels flavor) of
                  (match, Some e) \<Rightarrow> SelectorError e
                | (False, None) \<Rightarrow>
                    Considered [] NoFit [noAffinityMatchMsg (FlavorQuotas_Name flvQuotas)]
                | (True, None) \<Rightarrow>
                    (case requestsLoop k a_usage cq flvQuotas requests
                            ([], Fit, \<lparr>reasons = [], err = None\<rparr>) of
                       Inl p \<Rightarrow> Panicked p
                     | Inr (assignments, mode, status) \<Rightarrow>
                         Considered assignments mode (reasons status)))))"

fun outcome_mode :: "FlavorOutcome \<Rightarrow> FlavorAssignmentMode option" where
  "outcome_mode (Considered a m r) = Some m"
| "outcome_mode (SelectorError e) = None"
| "outcome_mode (Panicked p) = None"

fun outcome_assignment :: "FlavorOutcome \<Rightarrow> ResourceAssignment" where
  "outcome_assignment (Considered a m r) = a"
| "outcome_assignment (SelectorError e) = []"
| "outcome_assignment (Panicked p) = []"

fun outcome_reasons :: "FlavorOutcome \<Rightarrow> string list" where
  "outcome_reasons (Considered a m r) = r"
| "outcome_reasons (SelectorError e) = []"
| "outcome_reasons (Panicked p) = []"

text \<open>The search goes on past a flavor that is considered and is not Fit.\<close>

fun undecided :: "FlavorOutcome \<Rightarrow> bool" where
  "undecided (Considered a m r) = (m \<noteq> Fit)"
| "undecided (SelectorError e) = False"
| "undecided (Panicked p) = False"

text \<open>
  The flavors are tried in declared order up to the first one that is Fit (or fails).
  That flavor's assignment is returned with a nil status. If there is none, the result
  is the assignment of the first flavor that is Preempt, or no assignment when every
  flavor is NoFit, with the reasons of all flavors in order.
\<close>

definition firstBest ::
  "(FlavorQuotas \<Rightarrow> FlavorOutcome) \<Rightarrow> FlavorQuotas list
     \<Rightarrow> panic + (ResourceAssignment \<times> Status option)" where
  "firstBest out flavors =
     (let tried = takeWhile (\<lambda>f. undecided (out f)) flavors;
          status = \<lparr>reasons = concat (map (\<lambda>f. outcome_reasons (out f)) tried), err = None\<rparr>
      in case dropWhile (\<lambda>f. undecided (out f)) flavors of
           [] \<Rightarrow>
             Inr (case find (\<lambda>f. outcome_mode (out f) = Some Preempt) tried of
                    None \<Rightarrow> []
                  | Some f \<Rightarrow> outcome_assignment (out f),
                  Some status)
         | f # rest \<Rightarrow>
             (case out f of
                Considered a m r \<Rightarrow> Inr (a, None)
              | SelectorError e \<Rightarrow> Inr ([], Some (status\<lparr>err := Some e\<rparr>))
              | Panicked p \<Rightarrow> Inl p))"

subsection \<open>Assignments\<close>

record PodSetAssignment =
  PodSetAssignment_Name :: string
  Flavors :: ResourceAssignment
  Status :: "Status option"
  Requests :: "(ResourceName \<times> Quantity) list"

text \<open>
  \<^verbatim>\<open>TotalBorrow\<close> is nil or a map; both read the same, and nil is \<open>Map.empty\<close>.
  \<^verbatim>\<open>representativeMode\<close> is the cached mode, a pointer.
\<close>

record Assignment =
  PodSets :: "PodSetAssignment list"
  TotalBorrow :: FlavorResourceQuantities
  usage :: FlavorResourceQuantities
  representativeMode :: "FlavorAssignmentMode option"

definition PodSetAssignment_RepresentativeMode :: "PodSetAssignment \<Rightarrow> FlavorAssignmentMode" where
  "PodSetAssignment_RepresentativeMode psa =
     (case Status psa of
        None \<Rightarrow> Fit
      | Some s \<Rightarrow>
          if length (Flavors psa) = 0 then NoFit
          else fold (\<lambda>(res, flvAssignment) mode.
                       if Mode flvAssignment < mode then Mode flvAssignment else mode)
                 (Flavors psa) Fit)"

text \<open>The method caches its result in the assignment, so it returns the assignment too.\<close>

definition Assignment_RepresentativeMode :: "Assignment \<Rightarrow> FlavorAssignmentMode \<times> Assignment" where
  "Assignment_RepresentativeMode a =
     (if length (PodSets a) = 0 then (NoFit, a)
      else case representativeMode a of
             Some m \<Rightarrow> (m, a)
           | None \<Rightarrow>
               (let mode = fold (\<lambda>ps mode.
                                   let psMode = PodSetAssignment_RepresentativeMode ps
                                   in if psMode < mode then psMode else mode)
                             (PodSets a) Fit
                in (mode, a\<lparr>representativeMode := Some mode\<rparr>)))"

definition PodSetAssignment_append ::
  "PodSetAssignment \<Rightarrow> ResourceAssignment \<Rightarrow> Status option \<Rightarrow> PodSetAssignment" where
  "PodSetAssignment_append psa flavors status =
     (let psa = psa\<lparr>Flavors := fold (\<lambda>(resource, assignment) fl. AList.update resource assignment fl)
                                  flavors (Flavors psa)\<rparr>
      in case Status psa of
           None \<Rightarrow> psa\<lparr>Status := status\<rparr>
         | Some s \<Rightarrow>
             (case status of
                None \<Rightarrow> psa
              | Some st \<Rightarrow> psa\<lparr>Status := Some (s\<lparr>reasons := reasons s @ reasons st\<rparr>)\<rparr>))"

definition requests_get :: "(ResourceName \<times> int64) list \<Rightarrow> ResourceName \<Rightarrow> int64" where
  "requests_get requests r = (case map_of requests r of None \<Rightarrow> 0 | Some v \<Rightarrow> v)"

definition frq_set ::
  "FlavorResourceQuantities \<Rightarrow> ResourceFlavorReference \<Rightarrow> ResourceName \<Rightarrow> int64
     \<Rightarrow> FlavorResourceQuantities" where
  "frq_set m f r v = m(f \<mapsto> (case m f of None \<Rightarrow> Map.empty | Some rm \<Rightarrow> rm)(r \<mapsto> v))"

definition Assignment_append ::
  "Assignment \<Rightarrow> (ResourceName \<times> int64) list \<Rightarrow> PodSetAssignment \<Rightarrow> Assignment" where
  "Assignment_append a requests psAssignment =
     fold (\<lambda>(resource, flvAssignment) a.
             let a = (if slt64 0 (borrow flvAssignment)
                      then a\<lparr>TotalBorrow := frq_set (TotalBorrow a) (Name flvAssignment) resource
                                                (borrow flvAssignment)\<rparr>
                      else a)
             in a\<lparr>usage := frq_set (usage a) (Name flvAssignment) resource
                              (qty (usage a) (Name flvAssignment) resource
                                 + requests_get requests resource)\<rparr>)
       (Flavors psAssignment) (a\<lparr>PodSets := PodSets a @ [psAssignment]\<rparr>)"

subsection \<open>\<^verbatim>\<open>AssignFlavors\<close>\<close>

record PodSet =
  PodSet_Name :: string
  Count :: int32
  Template_Spec :: PodSpec

record PodSetResources =
  PodSetResources_Name :: string
  PodSetResources_Requests :: "(ResourceName \<times> int64) list"

text \<open>\<^verbatim>\<open>workload.Info\<close>: \<open>Obj_Spec_PodSets\<close> is \<^verbatim>\<open>Obj.Spec.PodSets\<close>.\<close>

record Info =
  Obj_Spec_PodSets :: "PodSet list"
  TotalRequests :: "PodSetResources list"

definition index :: "'a list \<Rightarrow> nat \<Rightarrow> panic + 'a" where
  "index xs i = (if i < length xs then Inr (xs ! i) else Inl IndexOutOfRange)"

definition ToResourceList :: "(ResourceName \<times> int64) list \<Rightarrow> (ResourceName \<times> Quantity) list" where
  "ToResourceList r = map (\<lambda>(k, v). (k, ResourceQuantity k v)) r"

definition resourceUnavailableMsg :: "ResourceName \<Rightarrow> string" where
  "resourceUnavailableMsg resName = ''resource '' @ resName @ '' unavailable in ClusterQueue''"

text \<open>
  The loop over the requests of one pod set. The sixth argument is the whole
  \<^verbatim>\<open>podSet.Requests\<close>, the seventh the entries still to visit; a \<^verbatim>\<open>break\<close> returns
  the pod set assignment at once.
\<close>

fun resourcesLoop ::
  "K8s \<Rightarrow> Assignment \<Rightarrow> (ResourceFlavorReference \<rightharpoonup> ResourceFlavor) \<Rightarrow> ClusterQueue \<Rightarrow> Info \<Rightarrow> nat
     \<Rightarrow> (ResourceName \<times> int64) list \<Rightarrow> (ResourceName \<times> int64) list \<Rightarrow> PodSetAssignment
     \<Rightarrow> panic + PodSetAssignment" where
  "resourcesLoop k assignment resourceFlavors cq wl i requests [] psAssignment = Inr psAssignment"
| "resourcesLoop k assignment resourceFlavors cq wl i requests ((resName, v) # rest) psAssignment =
     (if map_of (Flavors psAssignment) resName \<noteq> None
      then resourcesLoop k assignment resourceFlavors cq wl i requests rest psAssignment
      else case RGByResource cq resName of
             None \<Rightarrow>
               Inr (psAssignment\<lparr>Flavors := [],
                                 Status := Some \<lparr>reasons = [resourceUnavailableMsg resName],
                                                 err = None\<rparr>\<rparr>)
           | Some rg \<Rightarrow>
               (case index (Obj_Spec_PodSets wl) i of
                  Inl p \<Rightarrow> Inl p
                | Inr ps \<Rightarrow>
                    (case findFlavorForResourceGroup k (usage assignment) rg requests
                            resourceFlavors cq (Template_Spec ps) of
                       Inl p \<Rightarrow> Inl p
                     | Inr (flavors, status) \<Rightarrow>
                         if Status_IsError status \<or> length flavors = 0
                         then Inr (psAssignment\<lparr>Flavors := [], Status := status\<rparr>)
                         else resourcesLoop k assignment resourceFlavors cq wl i requests rest
                                (PodSetAssignment_append psAssignment flavors status))))"

text \<open>
  The first statement of the loop over the pod sets: with a \<^verbatim>\<open>pods\<close> resource in the
  cluster queue, the count of pod set \<open>i\<close> of the workload becomes the \<^verbatim>\<open>pods\<close> request.
  The result is \<^verbatim>\<open>podSet.Requests\<close> after it.
\<close>

definition podsRequest ::
  "ClusterQueue \<Rightarrow> Info \<Rightarrow> nat \<Rightarrow> PodSetResources \<Rightarrow> panic + (ResourceName \<times> int64) list" where
  "podsRequest cq wl i podSet =
     (if RGByResource cq ''pods'' \<noteq> None
      then (case index (Obj_Spec_PodSets wl) i of
              Inl p \<Rightarrow> Inl p
            | Inr ps \<Rightarrow> Inr (AList.update ''pods'' (scast (Count ps))
                               (PodSetResources_Requests podSet)))
      else Inr (PodSetResources_Requests podSet))"

text \<open>The loop over the pod sets; the fifth argument is the index \<^verbatim>\<open>i\<close>.\<close>

fun podSetsLoop ::
  "K8s \<Rightarrow> (ResourceFlavorReference \<rightharpoonup> ResourceFlavor) \<Rightarrow> ClusterQueue \<Rightarrow> Info \<Rightarrow> nat
     \<Rightarrow> PodSetResources list \<Rightarrow> Assignment \<Rightarrow> panic + Assignment" where
  "podSetsLoop k resourceFlavors cq wl i [] assignment = Inr assignment"
| "podSetsLoop k resourceFlavors cq wl i (podSet # rest) assignment =
     (case podsRequest cq wl i podSet of
        Inl p \<Rightarrow> Inl p
      | Inr requests \<Rightarrow>
          (case resourcesLoop k assignment resourceFlavors cq wl i requests requests
                  \<lparr>PodSetAssignment_Name = PodSetResources_Name podSet, Flavors = [],
                   Status = None, Requests = ToResourceList requests\<rparr> of
             Inl p \<Rightarrow> Inl p
           | Inr psAssignment \<Rightarrow>
               (let assignment = Assignment_append assignment requests psAssignment
                in if Status_IsError (Status psAssignment)
                      \<or> (length requests > 0 \<and> length (Flavors psAssignment) = 0)
                   then Inr (assignment\<lparr>TotalBorrow := Map.empty\<rparr>)
                   else podSetsLoop k resourceFlavors cq wl (Suc i) rest assignment)))"

definition AssignFlavors ::
  "K8s \<Rightarrow> Info \<Rightarrow> (ResourceFlavorReference \<rightharpoonup> ResourceFlavor) \<Rightarrow> ClusterQueue \<Rightarrow> panic + Assignment" where
  "AssignFlavors k wl resourceFlavors cq =
     podSetsLoop k resourceFlavors cq wl 0 (TotalRequests wl)
       \<lparr>PodSets = [], TotalBorrow = Map.empty, usage = Map.empty, representativeMode = None\<rparr>"

subsection \<open>Workload conditions and admission\<close>

text \<open>
  \<^verbatim>\<open>metav1.Time\<close> is an integer count from the zero instant, so the zero time is 0.
  \<^verbatim>\<open>metav1.ConditionStatus\<close> is a string.
\<close>

type_synonym Time = int

record Condition =
  Condition_Type :: string
  Condition_Status :: string
  ObservedGeneration :: int64
  LastTransitionTime :: Time
  Reason :: string
  Message :: string

record Admission =
  Admission_ClusterQueue :: string
  PodSetAssignments :: "(string \<times> (ResourceName \<times> ResourceFlavorReference) list) list"

record Workload =
  CreationTimestamp :: Time
  Status_Conditions :: "Condition list"
  Status_Admission :: "Admission option"

text \<open>
  The condition types and the eviction reasons are constants of the API package
  (\<^verbatim>\<open>apis/kueue/v1beta1\<close>); their values are those the external contract fixes.
\<close>

definition WorkloadAdmitted :: string where
  "WorkloadAdmitted = ''Admitted''"

definition WorkloadEvicted :: string where
  "WorkloadEvicted = ''Evicted''"

definition WorkloadEvictedByPodsReadyTimeout :: string where
  "WorkloadEvictedByPodsReadyTimeout = ''PodsReadyTimeout''"

definition WorkloadEvictedByPreemption :: string where
  "WorkloadEvictedByPreemption = ''Preempted''"

definition ConditionTrue :: string where
  "ConditionTrue = ''True''"

definition ConditionFalse :: string where
  "ConditionFalse = ''False''"

text \<open>
  The condition helpers of \<^verbatim>\<open>k8s.io/apimachinery/pkg/api/meta\<close>.
  \<^verbatim>\<open>FindStatusCondition\<close> returns a pointer to the first condition of the type: here its
  index in the list. \<^verbatim>\<open>SetStatusCondition\<close> appends a condition of a new type, and
  otherwise updates the first condition of the type in place; the transition time
  changes only with the status. Its first argument is the clock it reads when the new
  condition carries the zero time.
\<close>

fun FindStatusCondition :: "Condition list \<Rightarrow> string \<Rightarrow> nat option" where
  "FindStatusCondition [] conditionType = None"
| "FindStatusCondition (c # cs) conditionType =
     (if Condition_Type c = conditionType then Some 0
      else map_option Suc (FindStatusCondition cs conditionType))"

definition IsStatusConditionTrue :: "Condition list \<Rightarrow> string \<Rightarrow> bool" where
  "IsStatusConditionTrue conditions conditionType =
     (case FindStatusCondition conditions conditionType of
        None \<Rightarrow> False
      | Some i \<Rightarrow> Condition_Status (conditions ! i) = ConditionTrue)"

definition SetStatusCondition :: "Time \<Rightarrow> Condition list \<Rightarrow> Condition \<Rightarrow> Condition list" where
  "SetStatusCondition clock conditions newCondition =
     (case FindStatusCondition conditions (Condition_Type newCondition) of
        None \<Rightarrow>
          conditions @ [if LastTransitionTime newCondition = 0
                        then newCondition\<lparr>LastTransitionTime := clock\<rparr> else newCondition]
      | Some i \<Rightarrow>
          (let existingCondition = conditions ! i;
               existingCondition =
                 (if Condition_Status existingCondition \<noteq> Condition_Status newCondition
                  then existingCondition
                         \<lparr>Condition_Status := Condition_Status newCondition,
                          LastTransitionTime :=
                            (if LastTransitionTime newCondition \<noteq> 0
                             then LastTransitionTime newCondition else clock)\<rparr>
                  else existingCondition)
           in conditions[i := existingCondition
                \<lparr>Reason := Reason newCondition, Message := Message newCondition,
                 ObservedGeneration := ObservedGeneration newCondition\<rparr>]))"

text \<open>
  \<^verbatim>\<open>UnsetAdmissionWithCondition\<close>. The first argument is \<^verbatim>\<open>metav1.Now()\<close>, the second
  \<^verbatim>\<open>api.TruncateConditionMessage\<close>, a function of the repository outside these sources
  that only shapes the message.
\<close>

definition UnsetAdmissionWithCondition ::
  "Time \<Rightarrow> (string \<Rightarrow> string) \<Rightarrow> Workload \<Rightarrow> string \<Rightarrow> string \<Rightarrow> Workload" where
  "UnsetAdmissionWithCondition now TruncateConditionMessage wl reason message =
     (let condition = \<lparr>Condition_Type = WorkloadAdmitted, Condition_Status = ConditionFalse,
                        ObservedGeneration = 0, LastTransitionTime = now, Reason = reason,
                        Message = TruncateConditionMessage message\<rparr>;
          wl = wl\<lparr>Status_Conditions := SetStatusCondition now (Status_Conditions wl) condition\<rparr>
      in wl\<lparr>Status_Admission := None\<rparr>)"

text \<open>
  \<^verbatim>\<open>SetAdmission\<close>. The two times are the two readings of \<^verbatim>\<open>metav1.Now()\<close>. The message
  reads \<^verbatim>\<open>w.Status.Admission.ClusterQueue\<close>, a nil pointer dereference when the admission
  is nil.
\<close>

definition SetAdmission :: "Time \<Rightarrow> Time \<Rightarrow> Workload \<Rightarrow> Admission option \<Rightarrow> panic + Workload" where
  "SetAdmission now now2 w admission =
     (let w = w\<lparr>Status_Admission := admission\<rparr>
      in case Status_Admission w of
           None \<Rightarrow> Inl NilPointerDereference
         | Some adm \<Rightarrow>
             (let admittedCond =
                    \<lparr>Condition_Type = WorkloadAdmitted, Condition_Status = ConditionTrue,
                     ObservedGeneration = 0, LastTransitionTime = now, Reason = ''Admitted'',
                     Message = ''Admitted by ClusterQueue '' @ Admission_ClusterQueue adm\<rparr>;
                  w = w\<lparr>Status_Conditions :=
                          SetStatusCondition now (Status_Conditions w) admittedCond\<rparr>
              in case FindStatusCondition (Status_Conditions w) WorkloadEvicted of
                   None \<Rightarrow> Inr w
                 | Some i \<Rightarrow>
                     Inr (w\<lparr>Status_Conditions := (Status_Conditions w)
                              [i := (Status_Conditions w ! i)
                                 \<lparr>Condition_Status := ConditionFalse,
                                  LastTransitionTime := now2\<rparr>]\<rparr>)))"

definition IsAdmitted :: "Workload \<Rightarrow> bool" where
  "IsAdmitted w = IsStatusConditionTrue (Status_Conditions w) WorkloadAdmitted"

text \<open>
  \<^verbatim>\<open>GetQueueOrderTimestamp\<close> returns a pointer, either to the transition time of a
  condition of the workload or to its creation timestamp.
\<close>

datatype TimeRef = LastTransitionTimeOf nat | CreationTimestampOf

definition GetQueueOrderTimestamp :: "Workload \<Rightarrow> TimeRef" where
  "GetQueueOrderTimestamp w =
     (case FindStatusCondition (Status_Conditions w) WorkloadEvicted of
        None \<Rightarrow> CreationTimestampOf
      | Some i \<Rightarrow>
          (let c = Status_Conditions w ! i
           in if Condition_Status c = ConditionTrue
                 \<and> Reason c = WorkloadEvictedByPodsReadyTimeout
              then LastTransitionTimeOf i else CreationTimestampOf))"

fun deref :: "Workload \<Rightarrow> TimeRef \<Rightarrow> Time" where
  "deref w (LastTransitionTimeOf i) = LastTransitionTime (Status_Conditions w ! i)"
| "deref w CreationTimestampOf = CreationTimestamp w"

subsection \<open>Notions of the properties\<close>

text \<open>
  The minimum of a list of modes under the order NoFit < Preempt < Fit, computed as the
  code does from the greatest mode Fit, which is thus the minimum of the empty list.
\<close>

definition minimum_mode :: "FlavorAssignmentMode list \<Rightarrow> FlavorAssignmentMode" where
  "minimum_mode ms = fold min ms Fit"

text \<open>
  A flavor assignment of resource \<open>r\<close> is fitted against a flavor's quotas when it is
  the result of the fit check of a request for \<open>r\<close>, on top of the usage accumulated by
  the earlier pod sets of the workload; it is assigned when some flavor of a resource
  group that covers \<open>r\<close> fitted it.
\<close>

definition fitted ::
  "K8s \<Rightarrow> FlavorResourceQuantities \<Rightarrow> ClusterQueue \<Rightarrow> FlavorQuotas \<Rightarrow> (ResourceName \<times> int64) list
     \<Rightarrow> ResourceName \<Rightarrow> FlavorAssignment \<Rightarrow> bool" where
  "fitted k a_usage cq flvQuotas requests r fa =
     (\<exists>v q s. (r, v) \<in> set requests \<and> Resources flvQuotas r = Some q
        \<and> Name fa = FlavorQuotas_Name flvQuotas
        \<and> fitsResourceQuota k (Name fa) r (v + qty a_usage (Name fa) r) cq q
            = (Mode fa, borrow fa, s))"

definition assigned ::
  "K8s \<Rightarrow> FlavorResourceQuantities \<Rightarrow> ClusterQueue \<Rightarrow> (ResourceName \<times> int64) list
     \<Rightarrow> ResourceName \<Rightarrow> FlavorAssignment \<Rightarrow> bool" where
  "assigned k a_usage cq requests r fa =
     (\<exists>rg\<in>ran (RGByResource cq). r \<in> CoveredResources rg
        \<and> (\<exists>fq\<in>set (ResourceGroup_Flavors rg). fitted k a_usage cq fq requests r fa))"

text \<open>
  The state of a pod set assignment while its requests are visited: one flavor
  assignment per resource, each of them assigned, and all of them Fit as long as there is
  no status.
\<close>

definition psa_ok ::
  "K8s \<Rightarrow> FlavorResourceQuantities \<Rightarrow> ClusterQueue \<Rightarrow> (ResourceName \<times> int64) list
     \<Rightarrow> PodSetAssignment \<Rightarrow> bool" where
  "psa_ok k a_usage cq requests psa =
     (distinct (map fst (Flavors psa))
      \<and> (\<forall>r fa. map_of (Flavors psa) r = Some fa \<longrightarrow>
             assigned k a_usage cq requests r fa \<and> (Status psa = None \<longrightarrow> Mode fa = Fit)))"

text \<open>
  \<^verbatim>\<open>RGByResource\<close> is built by the cache from the resource groups (by
  \<^verbatim>\<open>UpdateRGByResource\<close>, outside these sources): a resource is mapped to a group that
  covers it.
\<close>

definition consistent :: "ClusterQueue \<Rightarrow> bool" where
  "consistent cq = (\<forall>r rg. RGByResource cq r = Some rg \<longrightarrow> r \<in> CoveredResources rg)"

text \<open>Every resource that a pod set requests has a flavor with mode Fit.\<close>

definition all_Fit :: "PodSetResources \<Rightarrow> PodSetAssignment \<Rightarrow> bool" where
  "all_Fit podSet psa =
     (\<forall>r\<in>fst ` set (PodSetResources_Requests podSet).
        \<exists>fa. map_of (Flavors psa) r = Some fa \<and> Mode fa = Fit)"

text \<open>
  Quantities that are not negative and are below \<open>2 ^ 61\<close>: the sums that the assigner
  computes from such quantities do not leave the range of the 64-bit integers. The
  quantities of a cluster queue are its usage, the usage and the requestable resources
  of its cohort, and the nominal quotas and borrowing limits of its resource groups;
  those of a workload are its requests, whose keys are distinct as in a Go map, and
  the counts of its pod sets.
\<close>

definition small_quantity :: "int64 \<Rightarrow> bool" where
  "small_quantity x = (0 \<le> sint x \<and> sint x < 2 ^ 61)"

definition quotas_small :: "ClusterQueue \<Rightarrow> bool" where
  "quotas_small cq =
     ((\<forall>f r. small_quantity (qty (Usage cq) f r))
      \<and> (\<forall>c f r. Cohort cq = Some c \<longrightarrow>
            small_quantity (qty (Cohort_Usage c) f r)
            \<and> small_quantity (qty (RequestableResources c) f r))
      \<and> (\<forall>rg\<in>ran (RGByResource cq). \<forall>fq\<in>set (ResourceGroup_Flavors rg). \<forall>r q.
            Resources fq r = Some q \<longrightarrow>
              small_quantity (Nominal q)
              \<and> (\<forall>bl. BorrowingLimit q = Some bl \<longrightarrow> small_quantity bl)))"

definition requests_small :: "Info \<Rightarrow> bool" where
  "requests_small wl =
     ((\<forall>ps\<in>set (TotalRequests wl).
          distinct (map fst (PodSetResources_Requests ps))
          \<and> (\<forall>rv\<in>set (PodSetResources_Requests ps). small_quantity (snd rv)))
      \<and> (\<forall>p\<in>set (Obj_Spec_PodSets wl). 0 \<le> sint (Count p)))"

text \<open>
  The assignment uses flavor \<open>f\<close> for resource \<open>r\<close> when one of its pod sets has \<open>r\<close>
  assigned to \<open>f\<close>. A quota of flavor \<open>f\<close> for \<open>r\<close> is one that a resource group of the
  cluster queue covering \<open>r\<close> gives flavor \<open>f\<close> for \<open>r\<close>.
\<close>

definition flavor_used :: "Assignment \<Rightarrow> ResourceFlavorReference \<Rightarrow> ResourceName \<Rightarrow> bool" where
  "flavor_used a f r =
     (\<exists>ps\<in>set (PodSets a). \<exists>fa. map_of (Flavors ps) r = Some fa \<and> Name fa = f)"

definition flavor_quota ::
  "ClusterQueue \<Rightarrow> ResourceFlavorReference \<Rightarrow> ResourceName \<Rightarrow> ResourceQuota \<Rightarrow> bool" where
  "flavor_quota cq f r q =
     (\<exists>rg\<in>ran (RGByResource cq). r \<in> CoveredResources rg
        \<and> (\<exists>fq\<in>set (ResourceGroup_Flavors rg).
              FlavorQuotas_Name fq = f \<and> Resources fq r = Some q))"

text \<open>
  The quotas are distinct when no group names a flavor twice and no resource is covered
  by two groups.
\<close>

definition distinct_quotas :: "ClusterQueue \<Rightarrow> bool" where
  "distinct_quotas cq =
     (\<forall>rg\<in>ran (RGByResource cq).
        distinct (map FlavorQuotas_Name (ResourceGroup_Flavors rg))
        \<and> (\<forall>rg'\<in>ran (RGByResource cq). \<forall>r.
              r \<in> CoveredResources rg \<longrightarrow> r \<in> CoveredResources rg' \<longrightarrow> rg' = rg))"

text \<open>
  The usage \<open>wl_usage\<close> of a workload is within a quota when, added to the usage in
  the snapshot, it is not over the nominal quota plus the borrowing limit, if there is
  one, and the usage of the cohort with it is not over what the cohort can give;
  without a cohort, the usage of the cluster queue with it is not over the nominal
  quota.
\<close>

definition within_quota ::
  "ClusterQueue \<Rightarrow> ResourceFlavorReference \<Rightarrow> ResourceName \<Rightarrow> int \<Rightarrow> ResourceQuota \<Rightarrow> bool" where
  "within_quota cq f r wl_usage q =
     ((case BorrowingLimit q of
         None \<Rightarrow> True
       | Some bl \<Rightarrow> sint (qty (Usage cq) f r) + wl_usage \<le> sint (Nominal q) + sint bl)
      \<and> (case Cohort cq of
            None \<Rightarrow> sint (qty (Usage cq) f r) + wl_usage \<le> sint (Nominal q)
          | Some c \<Rightarrow> sint (qty (Cohort_Usage c) f r) + wl_usage
                        \<le> sint (qty (RequestableResources c) f r)))"

text \<open>
  The usage of a workload with a computed assignment, by flavor and resource: the sum,
  over the pod sets that have the resource assigned to the flavor, of what the pod set
  requests of the resource. The requests of pod set \<open>j\<close> are \<^verbatim>\<open>podSet.Requests\<close> as the
  assigner reads them, with the \<^verbatim>\<open>pods\<close> entry it sets.
\<close>

definition podSet_usage ::
  "panic + (ResourceName \<times> int64) list \<Rightarrow> PodSetAssignment \<Rightarrow> ResourceFlavorReference
     \<Rightarrow> ResourceName \<Rightarrow> int" where
  "podSet_usage requests psa f r =
     (case requests of
        Inl p \<Rightarrow> 0
      | Inr requests \<Rightarrow>
          (case map_of (Flavors psa) r of
             None \<Rightarrow> 0
           | Some fa \<Rightarrow> if Name fa = f then sint (requests_get requests r) else 0))"

definition flavor_usage ::
  "ClusterQueue \<Rightarrow> Info \<Rightarrow> Assignment \<Rightarrow> ResourceFlavorReference \<Rightarrow> ResourceName \<Rightarrow> int" where
  "flavor_usage cq wl a f r =
     (\<Sum>j<length (PodSets a).
        podSet_usage (podsRequest cq wl j (TotalRequests wl ! j)) (PodSets a ! j) f r)"

text \<open>
  What holds of the usage that the assigner accumulates, as long as every pod set so
  far has mode Fit.
\<close>

definition usage_inv :: "ClusterQueue \<Rightarrow> Info \<Rightarrow> Assignment \<Rightarrow> bool" where
  "usage_inv cq wl a =
     (\<forall>f r. sint (qty (usage a) f r) = flavor_usage cq wl a f r
          \<and> (if flavor_used a f r
               then 0 \<le> flavor_usage cq wl a f r
                    \<and> (\<exists>q. flavor_quota cq f r q
                            \<and> within_quota cq f r (flavor_usage cq wl a f r) q)
               else flavor_usage cq wl a f r = 0))"

subsection \<open>Concrete inputs\<close>

text \<open>
  A stand-in for the Kubernetes library, and the cluster queues, flavors and workloads
  of the repository's tests, on which the theorems below are exercised.
\<close>

definition k0 :: K8s where
  "k0 = \<lparr>QuantityString = (\<lambda>q. ''q''),
         TaintToString = (\<lambda>t. Taint_Key t @ ''='' @ Taint_Value t @ '':'' @ Taint_Effect t),
         ToleratesTaint = (\<lambda>tol t. Toleration_Key tol = Taint_Key t),
         SelectorMatch = (\<lambda>s l. (NodeSelector s ''type'' = None
                                     \<or> NodeSelector s ''type'' = l ''type'', None))\<rparr>"

definition spec0 :: PodSpec where
  "spec0 = \<lparr>NodeSelector = Map.empty, RequiredTerms = None, Tolerations = []\<rparr>"

definition rf0 :: "ResourceFlavorReference \<rightharpoonup> ResourceFlavor" where
  "rf0 = [''one'' \<mapsto> \<lparr>NodeLabels = [''type'' \<mapsto> ''one''], NodeTaints = []\<rparr>,
          ''two'' \<mapsto> \<lparr>NodeLabels = [''type'' \<mapsto> ''two''], NodeTaints = []\<rparr>,
          ''default'' \<mapsto> \<lparr>NodeLabels = Map.empty, NodeTaints = []\<rparr>,
          ''tainted'' \<mapsto> \<lparr>NodeLabels = Map.empty,
                           NodeTaints = [\<lparr>Taint_Key = ''instance'', Taint_Value = ''spot'',
                                          Taint_Effect = ''NoSchedule''\<rparr>]\<rparr>]"

text \<open>\<^verbatim>\<open>TestAssignFlavors\<close>, "past max, but can preempt in ClusterQueue".\<close>

definition rq_past_max :: ResourceQuota where
  "rq_past_max = \<lparr>Nominal = 2000, BorrowingLimit = Some 8000\<rparr>"

definition rg_past_max :: ResourceGroup where
  "rg_past_max =
     \<lparr>CoveredResources = {''cpu''},
      ResourceGroup_Flavors =
        [\<lparr>FlavorQuotas_Name = ''one'', Resources = [''cpu'' \<mapsto> rq_past_max]\<rparr>],
      LabelKeys = {''type''}\<rparr>"

definition cq_past_max :: ClusterQueue where
  "cq_past_max =
     \<lparr>RGByResource = [''cpu'' \<mapsto> rg_past_max],
      Usage = [''one'' \<mapsto> [''cpu'' \<mapsto> 9000]],
      Cohort = Some \<lparr>RequestableResources = [''one'' \<mapsto> [''cpu'' \<mapsto> 100000]],
                     Cohort_Usage = [''one'' \<mapsto> [''cpu'' \<mapsto> 9000]]\<rparr>\<rparr>"

text \<open>\<^verbatim>\<open>TestGetQueueOrderTimestamp\<close>, "evicted by PodsReady timeout".\<close>

definition w_evicted :: Workload where
  "w_evicted =
     \<lparr>CreationTimestamp = 100,
      Status_Conditions =
        [\<lparr>Condition_Type = ''Evicted'', Condition_Status = ''True'', ObservedGeneration = 0,
          LastTransitionTime = 3700, Reason = ''PodsReadyTimeout'', Message = []\<rparr>],
      Status_Admission = None\<rparr>"

text \<open>
  \<^verbatim>\<open>TestAssignFlavors\<close>, "multiple flavors, node affinity fits any flavor": the pod
  spec, whose two terms are on the keys \<^verbatim>\<open>ignored2\<close> and \<^verbatim>\<open>cpuType\<close>, while the flavors
  of the group carry the label key \<^verbatim>\<open>type\<close>.
\<close>

definition spec_affinity :: PodSpec where
  "spec_affinity =
     \<lparr>NodeSelector = Map.empty,
      RequiredTerms = Some
        [\<lparr>MatchExpressions = [\<lparr>Requirement_Key = ''ignored2'', Requirement_Operator = ''In'',
                                Requirement_Values = [''bar'']\<rparr>], MatchFields = []\<rparr>,
         \<lparr>MatchExpressions = [\<lparr>Requirement_Key = ''cpuType'', Requirement_Operator = ''In'',
                                Requirement_Values = [''two'']\<rparr>], MatchFields = []\<rparr>],
      Tolerations = []\<rparr>"

text \<open>A workload without pod sets.\<close>

definition wl_empty :: Info where
  "wl_empty = \<lparr>Obj_Spec_PodSets = [], TotalRequests = []\<rparr>"

text \<open>
  A group of two flavors with the label key \<^verbatim>\<open>type\<close>, and a cluster queue without
  cohort over it: flavor \<^verbatim>\<open>one\<close> with 1000 of CPU, flavor \<^verbatim>\<open>two\<close> with 4000.
\<close>

definition rg_one_two :: ResourceGroup where
  "rg_one_two =
     \<lparr>CoveredResources = {''cpu''},
      ResourceGroup_Flavors =
        [\<lparr>FlavorQuotas_Name = ''one'',
          Resources = [''cpu'' \<mapsto> \<lparr>Nominal = 1000, BorrowingLimit = None\<rparr>]\<rparr>,
         \<lparr>FlavorQuotas_Name = ''two'',
          Resources = [''cpu'' \<mapsto> \<lparr>Nominal = 4000, BorrowingLimit = None\<rparr>]\<rparr>],
      LabelKeys = {''type''}\<rparr>"

definition cq_one_two :: ClusterQueue where
  "cq_one_two = \<lparr>RGByResource = [''cpu'' \<mapsto> rg_one_two], Usage = Map.empty, Cohort = None\<rparr>"



text \<open>
  A workload of one pod set that requests CPU and a resource that no resource group of
  \<open>cq_one_two\<close> covers, the CPU request being visited first.
\<close>

definition wl_cpu_gpu :: "int64 \<Rightarrow> Info" where
  "wl_cpu_gpu cpu =
     \<lparr>Obj_Spec_PodSets = [\<lparr>PodSet_Name = ''main'', Count = 1, Template_Spec = spec0\<rparr>],
      TotalRequests = [\<lparr>PodSetResources_Name = ''main'',
                        PodSetResources_Requests = [(''cpu'', cpu), (''example.com/gpu'', 2)]\<rparr>]\<rparr>"

text \<open>
  A workload of one pod set that requests CPU only, and the assignments that the
  assigner computes for some of these workloads.
\<close>

definition wl_cpu :: "int64 \<Rightarrow> Info" where
  "wl_cpu cpu =
     \<lparr>Obj_Spec_PodSets = [\<lparr>PodSet_Name = ''main'', Count = 1, Template_Spec = spec0\<rparr>],
      TotalRequests = [\<lparr>PodSetResources_Name = ''main'',
                        PodSetResources_Requests = [(''cpu'', cpu)]\<rparr>]\<rparr>"

definition a_empty :: Assignment where
  "a_empty = \<lparr>PodSets = [], TotalBorrow = Map.empty, usage = Map.empty,
              representativeMode = None\<rparr>"

definition psa_unavailable :: PodSetAssignment where
  "psa_unavailable =
     \<lparr>PodSetAssignment_Name = ''main'', Flavors = [],
      Status = Some \<lparr>reasons = [''resource example.com/gpu unavailable in ClusterQueue''],
                     err = None\<rparr>,
      Requests = [(''cpu'', NewMilliQuantity 1000 DecimalSI),
                  (''example.com/gpu'', NewQuantity 2 DecimalSI)]\<rparr>"

definition a_fit :: Assignment where
  "a_fit = \<lparr>PodSets = [\<lparr>PodSetAssignment_Name = ''main'',
                          Flavors = [(''cpu'', \<lparr>Name = ''two'', Mode = Fit, borrow = 0\<rparr>)],
                          Status = None,
                          Requests = [(''cpu'', NewMilliQuantity 2000 DecimalSI)]\<rparr>],
            TotalBorrow = Map.empty, usage = [''two'' \<mapsto> [''cpu'' \<mapsto> 2000]],
            representativeMode = None\<rparr>"

text \<open>
  A cluster queue without cohort whose usage of CPU in flavor \<^verbatim>\<open>one\<close> is the greatest
  64-bit integer, and a quota of nothing with a borrowing limit of nothing.
\<close>

definition rq_nothing :: ResourceQuota where
  "rq_nothing = \<lparr>Nominal = 0, BorrowingLimit = Some 0\<rparr>"

definition cq_max_usage :: ClusterQueue where
  "cq_max_usage =
     \<lparr>RGByResource = Map.empty,
      Usage = [''one'' \<mapsto> [''cpu'' \<mapsto> 9223372036854775807]],
      Cohort = None\<rparr>"

text \<open>
  A cluster queue in a cohort, with usage 1000 of CPU in flavor \<^verbatim>\<open>one\<close>, whose quota is
  2000 with a borrowing limit of 8000; a workload of two pod sets that request 3000 of
  CPU each; and the assignment that the assigner computes for it.
\<close>

definition cq_cohort :: ClusterQueue where
  "cq_cohort =
     \<lparr>RGByResource = [''cpu'' \<mapsto> rg_past_max],
      Usage = [''one'' \<mapsto> [''cpu'' \<mapsto> 1000]],
      Cohort = Some \<lparr>RequestableResources = [''one'' \<mapsto> [''cpu'' \<mapsto> 100000]],
                     Cohort_Usage = [''one'' \<mapsto> [''cpu'' \<mapsto> 9000]]\<rparr>\<rparr>"

definition wl_two_podsets :: Info where
  "wl_two_podsets =
     \<lparr>Obj_Spec_PodSets = [\<lparr>PodSet_Name = ''driver'', Count = 1, Template_Spec = spec0\<rparr>,
                          \<lparr>PodSet_Name = ''workers'', Count = 3, Template_Spec = spec0\<rparr>],
      TotalRequests = [\<lparr>PodSetResources_Name = ''driver'',
                        PodSetResources_Requests = [(''cpu'', 3000)]\<rparr>,
                       \<lparr>PodSetResources_Name = ''workers'',
                        PodSetResources_Requests = [(''cpu'', 3000)]\<rparr>]\<rparr>"

definition a_two_podsets :: Assignment where
  "a_two_podsets =
     \<lparr>PodSets =
        [\<lparr>PodSetAssignment_Name = ''driver'',
          Flavors = [(''cpu'', \<lparr>Name = ''one'', Mode = Fit, borrow = 2000\<rparr>)],
          Status = None,
          Requests = [(''cpu'', NewMilliQuantity 3000 DecimalSI)]\<rparr>,
         \<lparr>PodSetAssignment_Name = ''workers'',
          Flavors = [(''cpu'', \<lparr>Name = ''one'', Mode = Fit, borrow = 5000\<rparr>)],
          Status = None,
          Requests = [(''cpu'', NewMilliQuantity 3000 DecimalSI)]\<rparr>],
      TotalBorrow = [''one'' \<mapsto> [''cpu'' \<mapsto> 5000]],
      usage = [''one'' \<mapsto> [''cpu'' \<mapsto> 6000]], representativeMode = None\<rparr>"

text \<open>
  A cluster queue without cohort whose usage of CPU in flavor \<^verbatim>\<open>one\<close> is the greatest
  64-bit integer, all of it borrowed within a borrowing limit of that size; and the
  assignment that the assigner computes on it for a request of 1.
\<close>

definition rq_all_borrowed :: ResourceQuota where
  "rq_all_borrowed = \<lparr>Nominal = 0, BorrowingLimit = Some 9223372036854775807\<rparr>"

definition rg_all_borrowed :: ResourceGroup where
  "rg_all_borrowed =
     \<lparr>CoveredResources = {''cpu''},
      ResourceGroup_Flavors =
        [\<lparr>FlavorQuotas_Name = ''one'', Resources = [''cpu'' \<mapsto> rq_all_borrowed]\<rparr>],
      LabelKeys = {''type''}\<rparr>"

definition cq_all_borrowed :: ClusterQueue where
  "cq_all_borrowed =
     \<lparr>RGByResource = [''cpu'' \<mapsto> rg_all_borrowed],
      Usage = [''one'' \<mapsto> [''cpu'' \<mapsto> 9223372036854775807]],
      Cohort = None\<rparr>"

definition a_all_borrowed :: Assignment where
  "a_all_borrowed =
     \<lparr>PodSets =
        [\<lparr>PodSetAssignment_Name = ''main'',
          Flavors = [(''cpu'', \<lparr>Name = ''one'', Mode = Fit, borrow = 0\<rparr>)],
          Status = None,
          Requests = [(''cpu'', NewMilliQuantity 1 DecimalSI)]\<rparr>],
      TotalBorrow = Map.empty, usage = [''one'' \<mapsto> [''cpu'' \<mapsto> 1]],
      representativeMode = None\<rparr>"

section \<open>Properties\<close>

subsection \<open>Arithmetic of \<^verbatim>\<open>int64\<close> without overflow\<close>

lemma sint_add64:
  "in64 (sint a + sint b) \<Longrightarrow> sint (a + b :: int64) = sint a + sint b"
  by (simp add: in64_def sint_word_add signed_take_bit_int_eq_self)

lemma sint_add_sub64:
  assumes "in64 (sint a + sint b - sint c)"
  shows "sint (a + b - c :: int64) = sint a + sint b - sint c"
proof -
  have "a + b - c = word_of_int (sint a + sint b - sint c)"
    by simp
  then have "sint (a + b - c) = signed_take_bit 63 (sint a + sint b - sint c)"
    by (simp only: sint_sbintrunc') simp
  also have "\<dots> = sint a + sint b - sint c"
    using assms by (simp add: in64_def signed_take_bit_int_eq_self)
  finally show ?thesis .
qed

subsection \<open>The fit check\<close>

text \<open>
  Claim C2, amended. The fit check of a requested value \<open>v\<close> on a flavor, with usage \<open>u\<close> of the
  cluster queue, quota \<open>nominal\<close> and an optional borrowing limit, and usage \<open>cU\<close> and
  requestable quota \<open>cA\<close> of the cohort (\<open>cU = u\<close> and \<open>cA = nominal\<close> without a cohort).
  The candidate mode is Preempt when \<open>v \<le> nominal\<close> and NoFit otherwise, never Fit.
  If the borrowing limit is set and \<open>u + v > nominal + limit\<close>, the result is the
  candidate mode, borrow 0 and the reason "borrowing limit ... exceeded". Otherwise, if
  \<open>cU + v \<le> cA\<close>, the result is Fit with borrow \<open>max 0 (u + v - nominal)\<close> and no status.
  Otherwise it is the candidate mode, borrow 0 and one reason that starts with
  "insufficient". The sums are those of the integers; the claim holds when \<open>u + v\<close>,
  \<open>nominal + limit\<close>, \<open>cU + v - cA\<close> and \<open>u + v - nominal\<close> are in the range of the 64-bit
  integers, where the arithmetic of the code computes them.
\<close>

theorem fitsResourceQuota_table:
  fixes k fName rName val cq rQuota
  defines "u \<equiv> sint (qty (Usage cq) fName rName)"
    and "v \<equiv> sint val"
    and "nominal \<equiv> sint (Nominal rQuota)"
  defines "cU \<equiv> (case Cohort cq of None \<Rightarrow> u
                 | Some c \<Rightarrow> sint (qty (Cohort_Usage c) fName rName))"
    and "cA \<equiv> (case Cohort cq of None \<Rightarrow> nominal
                 | Some c \<Rightarrow> sint (qty (RequestableResources c) fName rName))"
    and "candidate \<equiv> (if v \<le> nominal then Preempt else NoFit)"
    and "exceeded \<equiv> (case BorrowingLimit rQuota of None \<Rightarrow> False
                       | Some bl \<Rightarrow> nominal + sint bl < u + v)"
    and "res \<equiv> fitsResourceQuota k fName rName val cq rQuota"
  assumes uv: "in64 (u + v)"
    and bl: "\<forall>bl. BorrowingLimit rQuota = Some bl \<longrightarrow> in64 (nominal + sint bl)"
    and lack: "in64 (cU + v - cA)"
    and bo: "in64 (u + v - nominal)"
  shows "candidate \<noteq> Fit \<and>
    (if exceeded
     then res = (candidate, 0, Some (Status_of (borrowingLimitMsg rName fName)))
     else if cU + v \<le> cA
     then fst res = Fit \<and> sint (fst (snd res)) = max 0 (u + v - nominal) \<and> snd (snd res) = None
     else \<exists>msg. res = (candidate, 0, Some (Status_of msg)) \<and> prefix ''insufficient '' msg)"
proof -
  have c: "candidate \<noteq> Fit"
    by (simp add: candidate_def)
  have uv': "sint (qty (Usage cq) fName rName + val) = u + v"
    using uv unfolding u_def v_def by (rule sint_add64)
  have bo': "sint (qty (Usage cq) fName rName + val - Nominal rQuota) = u + v - nominal"
    using bo unfolding u_def v_def nominal_def by (rule sint_add_sub64)
  have ex: "(case BorrowingLimit rQuota of None \<Rightarrow> False
             | Some bl \<Rightarrow> slt64 (Nominal rQuota + bl) (qty (Usage cq) fName rName + val))
            = exceeded"
  proof (cases "BorrowingLimit rQuota")
    case None
    then show ?thesis by (simp add: exceeded_def)
  next
    case (Some b)
    with bl have "in64 (nominal + sint b)" by simp
    then have "sint (Nominal rQuota + b) = nominal + sint b"
      unfolding nominal_def by (rule sint_add64)
    with Some uv' show ?thesis by (simp add: exceeded_def slt64_def)
  qed
  have lk: "sint ((case Cohort cq of None \<Rightarrow> qty (Usage cq) fName rName
                   | Some c \<Rightarrow> qty (Cohort_Usage c) fName rName) + val -
                  (case Cohort cq of None \<Rightarrow> Nominal rQuota
                   | Some c \<Rightarrow> qty (RequestableResources c) fName rName)) = cU + v - cA"
  proof (cases "Cohort cq")
    case None
    then show ?thesis using bo' by (simp add: cU_def cA_def)
  next
    case (Some c)
    with lack have "in64 (sint (qty (Cohort_Usage c) fName rName) + sint val
                     - sint (qty (RequestableResources c) fName rName))"
      by (simp add: cU_def cA_def v_def)
    then show ?thesis using Some by (simp add: cU_def cA_def v_def sint_add_sub64)
  qed
  have cand: "(if sle64 val (Nominal rQuota) then Preempt else NoFit) = candidate"
    by (simp add: candidate_def sle64_def v_def nominal_def)
  show ?thesis
    using c unfolding res_def fitsResourceQuota_def Let_def ex cand
    by (auto simp: sle64_def slt64_def lk bo')
qed

text \<open>
  The scenario S6 of the specification, which is the test "past max, but can preempt in
  ClusterQueue": usage 9000, nominal 2000, borrowing limit 8000, request 2000.
\<close>

theorem fitsResourceQuota_table_witness:
  "in64 (9000 + 2000) \<and> in64 (2000 + 8000) \<and> in64 (9000 + 2000 - 100000)
   \<and> in64 (9000 + 2000 - 2000)
   \<and> fitsResourceQuota k0 ''one'' ''cpu'' 2000 cq_past_max rq_past_max
       = (Preempt, 0, Some (Status_of ''borrowing limit for cpu in flavor one exceeded''))"
  using fitsResourceQuota_table [where k = k0 and fName = "''one''" and rName = "''cpu''"
      and val = 2000 and cq = cq_past_max and rQuota = rq_past_max]
  by (simp add: in64_def cq_past_max_def rq_past_max_def qty_def borrowingLimitMsg_def)

text \<open>
  Outside this range the sums of the code wrap around. With the usage at the greatest
  64-bit integer, a request of 1 against a quota of 0 with borrowing limit 0 is past the
  borrowing limit, and yet the result is Fit: the sum of usage and request is negative
  in the code.
\<close>

theorem fitsResourceQuota_table_counterexample:
  "BorrowingLimit rq_nothing = Some 0
   \<and> sint (Nominal rq_nothing) + sint (0 :: int64)
       < sint (qty (Usage cq_max_usage) ''one'' ''cpu'') + sint (1 :: int64)
   \<and> fitsResourceQuota k0 ''one'' ''cpu'' 1 cq_max_usage rq_nothing = (Fit, 0, None)"
  by (simp add: fitsResourceQuota_def cq_max_usage_def rq_nothing_def qty_def sle64_def slt64_def)

subsection \<open>Conditions\<close>

lemma FindStatusCondition_Some_iff:
  "FindStatusCondition cs t = Some i \<longleftrightarrow>
     i < length cs \<and> Condition_Type (cs ! i) = t \<and> (\<forall>j<i. Condition_Type (cs ! j) \<noteq> t)"
proof (induction cs arbitrary: i)
  case Nil
  then show ?case by simp
next
  case (Cons c cs)
  show ?case
  proof (cases "Condition_Type c = t")
    case True
    then show ?thesis by (cases i) auto
  next
    case False
    show ?thesis
    proof (cases i)
      case 0
      with False show ?thesis by auto
    next
      case (Suc n)
      have "(\<forall>j<Suc n. Condition_Type ((c # cs) ! j) \<noteq> t) = (\<forall>j<n. Condition_Type (cs ! j) \<noteq> t)"
        using False by (auto simp: less_Suc_eq_0_disj)
      with False Suc Cons.IH [of n] show ?thesis by auto
    qed
  qed
qed

lemma FindStatusCondition_None_iff:
  "FindStatusCondition cs t = None \<longleftrightarrow> (\<forall>c\<in>set cs. Condition_Type c \<noteq> t)"
  by (induction cs) auto

lemma FindStatusCondition_update:
  "i < length cs \<Longrightarrow> Condition_Type c = Condition_Type (cs ! i)
     \<Longrightarrow> FindStatusCondition (cs[i := c]) t = FindStatusCondition cs t"
proof (induction cs arbitrary: i)
  case Nil
  then show ?case by simp
next
  case (Cons a cs)
  then show ?case by (cases i) auto
qed

lemma FindStatusCondition_append:
  "FindStatusCondition (cs @ [c]) t =
     (case FindStatusCondition cs t of
        Some i \<Rightarrow> Some i
      | None \<Rightarrow> if Condition_Type c = t then Some (length cs) else None)"
  by (induction cs) (auto split: option.splits)

lemma IsStatusConditionTrue_SetStatusCondition:
  "IsStatusConditionTrue (SetStatusCondition clock cs c) (Condition_Type c)
     = (Condition_Status c = ConditionTrue)"
proof (cases "FindStatusCondition cs (Condition_Type c)")
  case None
  then show ?thesis
    by (simp add: IsStatusConditionTrue_def SetStatusCondition_def FindStatusCondition_append
        nth_append)
next
  case (Some i)
  then have i: "i < length cs" "Condition_Type (cs ! i) = Condition_Type c"
    by (simp_all add: FindStatusCondition_Some_iff)
  with Some show ?thesis
    by (simp add: IsStatusConditionTrue_def SetStatusCondition_def Let_def
        FindStatusCondition_update)
qed

lemma IsStatusConditionTrue_update_other:
  assumes "i < length cs" "Condition_Type c = Condition_Type (cs ! i)" "Condition_Type c \<noteq> t"
  shows "IsStatusConditionTrue (cs[i := c]) t = IsStatusConditionTrue cs t"
proof (cases "FindStatusCondition cs t")
  case None
  with assms show ?thesis
    by (simp add: IsStatusConditionTrue_def FindStatusCondition_update)
next
  case (Some j)
  then have "Condition_Type (cs ! j) = t"
    by (simp add: FindStatusCondition_Some_iff)
  with assms have "j \<noteq> i" by auto
  with assms Some show ?thesis
    by (simp add: IsStatusConditionTrue_def FindStatusCondition_update)
qed

subsection \<open>Admission and the Admitted condition\<close>

lemma SetAdmission_nil: "SetAdmission now now2 w None = Inl NilPointerDereference"
  by (simp add: SetAdmission_def)

lemma SetStatusCondition_found:
  "\<exists>i. FindStatusCondition (SetStatusCondition clock cs c) (Condition_Type c) = Some i
     \<and> Condition_Status (SetStatusCondition clock cs c ! i) = Condition_Status c
     \<and> Reason (SetStatusCondition clock cs c ! i) = Reason c
     \<and> Message (SetStatusCondition clock cs c ! i) = Message c"
proof (cases "FindStatusCondition cs (Condition_Type c)")
  case None
  then show ?thesis
    by (simp add: SetStatusCondition_def FindStatusCondition_append nth_append)
next
  case (Some i)
  then have i: "i < length cs" "Condition_Type (cs ! i) = Condition_Type c"
    by (simp_all add: FindStatusCondition_Some_iff)
  with Some show ?thesis
    by (simp add: SetStatusCondition_def Let_def FindStatusCondition_update)
qed

text \<open>
  Claim C9. \<^verbatim>\<open>SetAdmission\<close> with an admission returns a workload that carries this
  admission and that has an Admitted condition with status True;
  \<^verbatim>\<open>UnsetAdmissionWithCondition\<close> returns a workload without admission that has an
  Admitted condition with status False, with the reason and the message given. So
  \<^verbatim>\<open>IsAdmitted\<close> holds after the first and not after the second, and after either
  operation the workload has an admission exactly when \<^verbatim>\<open>IsAdmitted\<close> holds, whatever
  the conditions of the workload were before.
\<close>

theorem admission_iff_Admitted:
  "(\<exists>w' i. SetAdmission now now2 w (Some adm) = Inr w' \<and> Status_Admission w' = Some adm
          \<and> FindStatusCondition (Status_Conditions w') WorkloadAdmitted = Some i
          \<and> Condition_Status (Status_Conditions w' ! i) = ConditionTrue
          \<and> IsAdmitted w' \<and> ((Status_Admission w' \<noteq> None) = IsAdmitted w'))
   \<and> (\<exists>i. FindStatusCondition
             (Status_Conditions (UnsetAdmissionWithCondition now trunc w reason message))
             WorkloadAdmitted = Some i
          \<and> Condition_Status
               (Status_Conditions (UnsetAdmissionWithCondition now trunc w reason message) ! i)
              = ConditionFalse
          \<and> Reason (Status_Conditions (UnsetAdmissionWithCondition now trunc w reason message) ! i)
              = reason
          \<and> Message (Status_Conditions (UnsetAdmissionWithCondition now trunc w reason message) ! i)
              = trunc message)
   \<and> Status_Admission (UnsetAdmissionWithCondition now trunc w reason message) = None
   \<and> \<not> IsAdmitted (UnsetAdmissionWithCondition now trunc w reason message)
   \<and> ((Status_Admission (UnsetAdmissionWithCondition now trunc w reason message) \<noteq> None)
        = IsAdmitted (UnsetAdmissionWithCondition now trunc w reason message))"
proof -
  define c where "c = \<lparr>Condition_Type = WorkloadAdmitted, Condition_Status = ConditionTrue,
             ObservedGeneration = 0, LastTransitionTime = now, Reason = ''Admitted'',
             Message = ''Admitted by ClusterQueue '' @ Admission_ClusterQueue adm\<rparr>"
  define cs where "cs = SetStatusCondition now (Status_Conditions w) c"
  have c: "Condition_Type c = WorkloadAdmitted" "Condition_Status c = ConditionTrue"
    by (simp_all add: c_def)
  from SetStatusCondition_found [of now "Status_Conditions w" c]
  obtain n where n: "FindStatusCondition cs WorkloadAdmitted = Some n"
    "Condition_Status (cs ! n) = ConditionTrue"
    unfolding cs_def [symmetric] c by blast
  have unfold: "SetAdmission now now2 w (Some adm) =
      (case FindStatusCondition cs WorkloadEvicted of
         None \<Rightarrow> Inr (w\<lparr>Status_Admission := Some adm, Status_Conditions := cs\<rparr>)
       | Some i \<Rightarrow>
           Inr (w\<lparr>Status_Admission := Some adm,
                  Status_Conditions := cs[i := (cs ! i)\<lparr>Condition_Status := ConditionFalse,
                                                       LastTransitionTime := now2\<rparr>]\<rparr>))"
    unfolding SetAdmission_def Let_def cs_def c_def by (simp split: option.splits)
  have set: "\<exists>w' i. SetAdmission now now2 w (Some adm) = Inr w' \<and> Status_Admission w' = Some adm
          \<and> FindStatusCondition (Status_Conditions w') WorkloadAdmitted = Some i
          \<and> Condition_Status (Status_Conditions w' ! i) = ConditionTrue
          \<and> IsAdmitted w' \<and> ((Status_Admission w' \<noteq> None) = IsAdmitted w')"
  proof (cases "FindStatusCondition cs WorkloadEvicted")
    case None
    then show ?thesis using n by (simp add: unfold IsAdmitted_def IsStatusConditionTrue_def)
  next
    case (Some i)
    then have i: "i < length cs" "Condition_Type (cs ! i) = WorkloadEvicted"
      by (simp_all add: FindStatusCondition_Some_iff)
    from n have "Condition_Type (cs ! n) = WorkloadAdmitted"
      by (simp add: FindStatusCondition_Some_iff)
    with i have ni: "n \<noteq> i"
      by (auto simp: WorkloadEvicted_def WorkloadAdmitted_def)
    define cs' where "cs' = cs[i := (cs ! i)\<lparr>Condition_Status := ConditionFalse,
                                   LastTransitionTime := now2\<rparr>]"
    have "FindStatusCondition cs' WorkloadAdmitted = Some n"
      using i n by (simp add: cs'_def FindStatusCondition_update)
    moreover have "Condition_Status (cs' ! n) = ConditionTrue"
      using ni n by (simp add: cs'_def)
    ultimately show ?thesis
      using Some by (simp add: unfold IsAdmitted_def IsStatusConditionTrue_def cs'_def)
  qed
  define d where "d = \<lparr>Condition_Type = WorkloadAdmitted, Condition_Status = ConditionFalse,
             ObservedGeneration = 0, LastTransitionTime = now, Reason = reason,
             Message = trunc message\<rparr>"
  define w' where "w' = UnsetAdmissionWithCondition now trunc w reason message"
  have w': "Status_Conditions w' = SetStatusCondition now (Status_Conditions w) d"
    "Status_Admission w' = None"
    by (simp_all add: w'_def UnsetAdmissionWithCondition_def d_def)
  from SetStatusCondition_found [of now "Status_Conditions w" d]
  obtain m where m: "FindStatusCondition (Status_Conditions w') WorkloadAdmitted = Some m"
    "Condition_Status (Status_Conditions w' ! m) = ConditionFalse"
    "Reason (Status_Conditions w' ! m) = reason"
    "Message (Status_Conditions w' ! m) = trunc message"
    unfolding w'(1) [symmetric] by (auto simp: d_def)
  have na: "\<not> IsAdmitted w'"
    using m by (simp add: IsAdmitted_def IsStatusConditionTrue_def ConditionTrue_def
        ConditionFalse_def)
  have "(\<exists>i. FindStatusCondition (Status_Conditions w') WorkloadAdmitted = Some i
          \<and> Condition_Status (Status_Conditions w' ! i) = ConditionFalse
          \<and> Reason (Status_Conditions w' ! i) = reason
          \<and> Message (Status_Conditions w' ! i) = trunc message)
   \<and> Status_Admission w' = None \<and> \<not> IsAdmitted w'
   \<and> ((Status_Admission w' \<noteq> None) = IsAdmitted w')"
    using m na w'(2) by simp
  with set show ?thesis unfolding w'_def by blast
qed

subsection \<open>The queue-ordering timestamp\<close>

text \<open>
  Claim C7. The Evicted condition of a workload is the first condition of type Evicted,
  the one \<^verbatim>\<open>FindStatusCondition\<close> returns. \<^verbatim>\<open>GetQueueOrderTimestamp\<close> points to the
  transition time of condition \<open>i\<close> if and only if condition \<open>i\<close> is the Evicted
  condition, with status True and reason PodsReadyTimeout; in every other case it
  points to the creation timestamp. The time read through the pointer is accordingly
  the transition time of that condition or the creation time.
\<close>

theorem GetQueueOrderTimestamp_evicted:
  fixes w i
  defines "cs \<equiv> Status_Conditions w"
  defines "timedOut \<equiv> (\<lambda>n. n < length cs \<and> Condition_Type (cs ! n) = WorkloadEvicted
      \<and> (\<forall>j<n. Condition_Type (cs ! j) \<noteq> WorkloadEvicted)
      \<and> Condition_Status (cs ! n) = ConditionTrue
      \<and> Reason (cs ! n) = WorkloadEvictedByPodsReadyTimeout)"
  shows "((GetQueueOrderTimestamp w = LastTransitionTimeOf i) = timedOut i)
    \<and> ((GetQueueOrderTimestamp w = CreationTimestampOf) = (\<forall>n. \<not> timedOut n))
    \<and> (timedOut i \<longrightarrow> deref w (GetQueueOrderTimestamp w) = LastTransitionTime (cs ! i))
    \<and> ((\<forall>n. \<not> timedOut n) \<longrightarrow> deref w (GetQueueOrderTimestamp w) = CreationTimestamp w)"
proof -
  have found: "timedOut n = (FindStatusCondition cs WorkloadEvicted = Some n
           \<and> Condition_Status (cs ! n) = ConditionTrue
           \<and> Reason (cs ! n) = WorkloadEvictedByPodsReadyTimeout)" for n
    unfolding timedOut_def by (auto simp: FindStatusCondition_Some_iff)
  have a: "(GetQueueOrderTimestamp w = LastTransitionTimeOf n) = timedOut n" for n
    unfolding found by (auto simp: GetQueueOrderTimestamp_def cs_def Let_def split: option.splits)
  have b: "(GetQueueOrderTimestamp w = CreationTimestampOf) = (\<forall>n. \<not> timedOut n)"
  proof (cases "GetQueueOrderTimestamp w")
    case (LastTransitionTimeOf n)
    then show ?thesis using a [of n] by auto
  next
    case CreationTimestampOf
    then show ?thesis using a by auto
  qed
  have c: "timedOut i \<longrightarrow> deref w (GetQueueOrderTimestamp w) = LastTransitionTime (cs ! i)"
    using a [of i] by (auto simp: cs_def)
  have d: "(\<forall>n. \<not> timedOut n) \<longrightarrow> deref w (GetQueueOrderTimestamp w) = CreationTimestamp w"
    using b by auto
  from a [of i] b c d show ?thesis by blast
qed

theorem GetQueueOrderTimestamp_evicted_witness:
  "GetQueueOrderTimestamp w_evicted = LastTransitionTimeOf 0
   \<and> deref w_evicted (GetQueueOrderTimestamp w_evicted) = 3700"
  using GetQueueOrderTimestamp_evicted [of w_evicted 0]
  by (simp add: w_evicted_def WorkloadEvicted_def ConditionTrue_def
      WorkloadEvictedByPodsReadyTimeout_def)

text \<open>
  With at most one condition of each type, as the API keeps the list, the Evicted
  condition is the only one of that type.
\<close>

lemma GetQueueOrderTimestamp_distinct:
  assumes "distinct (map Condition_Type (Status_Conditions w))"
  shows "(\<exists>i. GetQueueOrderTimestamp w = LastTransitionTimeOf i) =
     (\<exists>c\<in>set (Status_Conditions w). Condition_Type c = WorkloadEvicted
         \<and> Condition_Status c = ConditionTrue \<and> Reason c = WorkloadEvictedByPodsReadyTimeout)"
proof
  assume "\<exists>i. GetQueueOrderTimestamp w = LastTransitionTimeOf i"
  then obtain i where "GetQueueOrderTimestamp w = LastTransitionTimeOf i" ..
  then have "FindStatusCondition (Status_Conditions w) WorkloadEvicted = Some i
      \<and> Condition_Status (Status_Conditions w ! i) = ConditionTrue
      \<and> Reason (Status_Conditions w ! i) = WorkloadEvictedByPodsReadyTimeout"
    by (auto simp: GetQueueOrderTimestamp_def Let_def split: option.splits if_splits)
  then show "\<exists>c\<in>set (Status_Conditions w). Condition_Type c = WorkloadEvicted
         \<and> Condition_Status c = ConditionTrue \<and> Reason c = WorkloadEvictedByPodsReadyTimeout"
    by (auto simp: FindStatusCondition_Some_iff intro!: bexI [of _ "Status_Conditions w ! i"])
next
  assume "\<exists>c\<in>set (Status_Conditions w). Condition_Type c = WorkloadEvicted
         \<and> Condition_Status c = ConditionTrue \<and> Reason c = WorkloadEvictedByPodsReadyTimeout"
  then obtain n where n: "n < length (Status_Conditions w)"
      "Condition_Type (Status_Conditions w ! n) = WorkloadEvicted"
      "Condition_Status (Status_Conditions w ! n) = ConditionTrue"
      "Reason (Status_Conditions w ! n) = WorkloadEvictedByPodsReadyTimeout"
    by (auto simp: in_set_conv_nth)
  have "\<forall>j<n. Condition_Type (Status_Conditions w ! j) \<noteq> WorkloadEvicted"
  proof (intro allI impI notI)
    fix j
    assume j: "j < n" "Condition_Type (Status_Conditions w ! j) = WorkloadEvicted"
    with n have "map Condition_Type (Status_Conditions w) ! j
                  = map Condition_Type (Status_Conditions w) ! n"
      by simp
    moreover have "j < length (Status_Conditions w)" "j \<noteq> n"
      using j n by simp_all
    ultimately show False
      using assms n(1) by (simp add: distinct_conv_nth)
  qed
  with n have "FindStatusCondition (Status_Conditions w) WorkloadEvicted = Some n"
    by (simp add: FindStatusCondition_Some_iff)
  with n show "\<exists>i. GetQueueOrderTimestamp w = LastTransitionTimeOf i"
    by (simp add: GetQueueOrderTimestamp_def)
qed

subsection \<open>The selector of a resource group\<close>

lemma flavorSelector_terms_eq:
  "flavorSelector_terms keys ts acc =
     (if \<exists>t\<in>set ts. filter (\<lambda>e. Requirement_Key e \<in> keys) (MatchExpressions t) = [] then []
      else acc @ map (\<lambda>t. \<lparr>MatchExpressions =
                              filter (\<lambda>e. Requirement_Key e \<in> keys) (MatchExpressions t),
                            MatchFields = []\<rparr>) ts)"
  by (induction ts arbitrary: acc) (auto simp: Let_def)

text \<open>
  Claim C6. The node selector of the copy is the pod's node selector restricted to the
  allowed keys, the label keys of the group. The required node affinity of the copy is
  absent when the pod has none, when it has no term, or when some term has no match
  expression on an allowed key; otherwise it consists of every term of the pod, in
  order, with its match expressions on allowed keys and nothing else. So once a term
  becomes empty, only the filtered node selector constrains the flavor.
\<close>

theorem flavorSelector_filtered:
  "NodeSelector (flavorSelector spec keys) = NodeSelector spec |` keys
   \<and> RequiredTerms (flavorSelector spec keys) =
       (case RequiredTerms spec of
          None \<Rightarrow> None
        | Some terms \<Rightarrow>
            if terms = [] \<or> (\<exists>t\<in>set terms. \<forall>e\<in>set (MatchExpressions t). Requirement_Key e \<notin> keys)
            then None
            else Some (map (\<lambda>t. \<lparr>MatchExpressions =
                                     filter (\<lambda>e. Requirement_Key e \<in> keys) (MatchExpressions t),
                                   MatchFields = []\<rparr>) terms))"
proof -
  have ns: "NodeSelector spec = Map.empty \<Longrightarrow> NodeSelector spec |` keys = Map.empty"
    by simp
  have r: "(\<lambda>k. if k \<in> keys then NodeSelector spec k else None) = NodeSelector spec |` keys"
    by (auto simp: restrict_map_def)
  show ?thesis
    by (auto simp: flavorSelector_def Let_def flavorSelector_terms_eq filter_empty_conv r ns
        split: option.splits)
qed

theorem flavorSelector_filtered_witness:
  "NodeSelector (flavorSelector spec_affinity {''type''}) = Map.empty
   \<and> RequiredTerms (flavorSelector spec_affinity {''type''}) = None"
  using flavorSelector_filtered [of spec_affinity "{''type''}"]
  by (simp add: spec_affinity_def)

subsection \<open>Workloads without pod sets\<close>

lemma RepresentativeMode_no_PodSets:
  "PodSets a = [] \<Longrightarrow> fst (Assignment_RepresentativeMode a) = NoFit"
  by (simp add: Assignment_RepresentativeMode_def)

text \<open>
  Claim C10. For a workload without pod sets \<^verbatim>\<open>AssignFlavors\<close> returns an assignment
  without pod sets, and its representative mode is NoFit.
\<close>

theorem empty_workload_NoFit:
  "TotalRequests wl = [] \<Longrightarrow>
     \<exists>a. AssignFlavors k wl resourceFlavors cq = Inr a \<and> PodSets a = []
         \<and> fst (Assignment_RepresentativeMode a) = NoFit"
  by (simp add: Assignment_RepresentativeMode_def AssignFlavors_def)

theorem empty_workload_NoFit_witness:
  "TotalRequests wl_empty = []
   \<and> (\<exists>a. AssignFlavors k0 wl_empty rf0 cq_past_max = Inr a \<and> PodSets a = []
          \<and> fst (Assignment_RepresentativeMode a) = NoFit)"
  using empty_workload_NoFit [of wl_empty k0 rf0 cq_past_max]
  by (simp add: wl_empty_def)

subsection \<open>The search of a resource group\<close>

lemma requestsLoop_status:
  "requestsLoop k u cq fq reqs (as, m, st) =
     (case requestsLoop k u cq fq reqs (as, m, \<lparr>reasons = [], err = None\<rparr>) of
        Inl p \<Rightarrow> Inl p
      | Inr (as', m', st') \<Rightarrow> Inr (as', m', st\<lparr>reasons := reasons st @ reasons st'\<rparr>))"
proof (induction reqs arbitrary: as m st)
  case Nil
  then show ?case by simp
next
  case (Cons rv reqs)
  obtain r v where rv: "rv = (r, v)" by (cases rv)
  show ?case
  proof (cases "Resources fq r")
    case None
    then show ?thesis by (simp add: rv)
  next
    case (Some q)
    obtain mode b s where f: "fitsResourceQuota k (FlavorQuotas_Name fq) r
        (v + qty u (FlavorQuotas_Name fq) r) cq q = (mode, b, s)"
      by (cases "fitsResourceQuota k (FlavorQuotas_Name fq) r
        (v + qty u (FlavorQuotas_Name fq) r) cq q") auto
    let ?st1 = "case s of None \<Rightarrow> st | Some x \<Rightarrow> st\<lparr>reasons := reasons st @ reasons x\<rparr>"
    let ?e = "\<lparr>reasons = [], err = None\<rparr>"
    let ?st2 = "case s of None \<Rightarrow> ?e | Some x \<Rightarrow> ?e\<lparr>reasons := reasons ?e @ reasons x\<rparr>"
    let ?m = "if mode < m then mode else m"
    let ?as = "AList.update r \<lparr>Name = FlavorQuotas_Name fq, Mode = mode, borrow = b\<rparr> as"
    have st12: "?st1 = st\<lparr>reasons := reasons st @ reasons ?st2\<rparr>"
      by (cases s) simp_all
    show ?thesis
    proof (cases "?m = NoFit")
      case True
      then show ?thesis using Some f st12 by (simp add: rv Let_def)
    next
      case False
      have l: "requestsLoop k u cq fq (rv # reqs) (as, m, st)
                = requestsLoop k u cq fq reqs (?as, ?m, ?st1)"
        using Some f False by (simp add: rv Let_def)
      have r: "requestsLoop k u cq fq (rv # reqs) (as, m, ?e)
                = requestsLoop k u cq fq reqs (?as, ?m, ?st2)"
        using Some f False by (simp add: rv Let_def)
      show ?thesis
        unfolding l r
        apply (subst Cons.IH [of ?as ?m ?st1])
        apply (subst Cons.IH [of ?as ?m ?st2])
        apply (simp add: st12 split: sum.splits)
        done
    qed
  qed
qed

lemma flavorsLoop_step:
  "flavorsLoop k u rf cq spec sel reqs (fq # rest) (st, best, bm) =
     (case flavorOutcome k u rf cq spec sel reqs fq of
        Panicked p \<Rightarrow> Inl p
      | SelectorError e \<Rightarrow> Inr ([], Some (st\<lparr>err := Some e\<rparr>))
      | Considered a m r \<Rightarrow>
          if bm < m
          then (if m = Fit then Inr (a, None)
                else flavorsLoop k u rf cq spec sel reqs rest (Status_append st r, a, m))
          else flavorsLoop k u rf cq spec sel reqs rest (Status_append st r, best, bm))"
proof (cases "rf (FlavorQuotas_Name fq)")
  case None
  then show ?thesis
    by (simp add: flavorOutcome_def less_FlavorAssignmentMode_def)
next
  case (Some flavor)
  show ?thesis
  proof (cases "FindMatchingUntoleratedTaint k (NodeTaints flavor) (Tolerations spec) taintFilter")
    case (Some taint)
    with \<open>rf (FlavorQuotas_Name fq) = Some flavor\<close> show ?thesis
      by (simp add: flavorOutcome_def less_FlavorAssignmentMode_def)
  next
    case None
    obtain match e where me: "SelectorMatch k sel (NodeLabels flavor) = (match, e)"
      by (cases "SelectorMatch k sel (NodeLabels flavor)")
    show ?thesis
    proof (cases "match \<and> e = None")
      case False
      with None me \<open>rf (FlavorQuotas_Name fq) = Some flavor\<close> show ?thesis
        by (cases e; cases match) (simp_all add: flavorOutcome_def less_FlavorAssignmentMode_def)
    next
      case True
      show ?thesis
        using None me True \<open>rf (FlavorQuotas_Name fq) = Some flavor\<close>
        apply (simp add: flavorOutcome_def)
        apply (subst requestsLoop_status)
        apply (simp add: Status_append_def split: sum.splits prod.splits)
        done
    qed
  qed
qed

lemma mode_not_Fit_less: "(bm < Fit) = (bm \<noteq> Fit)"
  by (cases bm) (simp_all add: less_FlavorAssignmentMode_def)

lemma mode_less_Preempt: "(bm < Preempt) = (bm = NoFit)"
  by (cases bm) (simp_all add: less_FlavorAssignmentMode_def)

lemma mode_less_NoFit: "\<not> bm < NoFit"
  by (simp add: less_FlavorAssignmentMode_def)

lemma flavorsLoop_firstBest:
  fixes k u rf cq spec sel reqs
  defines "out \<equiv> flavorOutcome k u rf cq spec sel reqs"
  assumes "bm \<noteq> Fit"
  shows "flavorsLoop k u rf cq spec sel reqs fs (st, best, bm) =
     (let tried = takeWhile (\<lambda>f. undecided (out f)) fs;
          status = Status_append st (concat (map (\<lambda>f. outcome_reasons (out f)) tried))
      in case dropWhile (\<lambda>f. undecided (out f)) fs of
           [] \<Rightarrow>
             Inr (if bm = Preempt then best
                  else (case find (\<lambda>f. outcome_mode (out f) = Some Preempt) tried of
                          None \<Rightarrow> best
                        | Some f \<Rightarrow> outcome_assignment (out f)),
                  Some status)
         | f # rest \<Rightarrow>
             (case out f of
                Considered a m r \<Rightarrow> Inr (a, None)
              | SelectorError e \<Rightarrow> Inr ([], Some (status\<lparr>err := Some e\<rparr>))
              | Panicked p \<Rightarrow> Inl p))"
proof -
  define fb where "fb = (\<lambda>st best bm fs.
     (let tried = takeWhile (\<lambda>f. undecided (out f)) fs;
          status = Status_append st (concat (map (\<lambda>f. outcome_reasons (out f)) tried))
      in case dropWhile (\<lambda>f. undecided (out f)) fs of
           [] \<Rightarrow>
             Inr (if bm = Preempt then best
                  else (case find (\<lambda>f. outcome_mode (out f) = Some Preempt) tried of
                          None \<Rightarrow> best
                        | Some f \<Rightarrow> outcome_assignment (out f)),
                  Some status)
         | f # rest \<Rightarrow>
             (case out f of
                Considered a m r \<Rightarrow> Inr (a, None)
              | SelectorError e \<Rightarrow> Inr ([], Some (status\<lparr>err := Some e\<rparr>))
              | Panicked p \<Rightarrow> Inl p)))"
  have fb_Nil: "fb st best bm [] = Inr (best, Some st)" for st best bm
    by (simp add: fb_def Status_append_def)
  have fb_stop: "\<not> undecided (out f) \<Longrightarrow> fb st best bm (f # fs) =
      (case out f of Considered a m r \<Rightarrow> Inr (a, None)
       | SelectorError e \<Rightarrow> Inr ([], Some (st\<lparr>err := Some e\<rparr>))
       | Panicked p \<Rightarrow> Inl p)" for st best bm f fs
    by (simp add: fb_def Status_append_def split: FlavorOutcome.splits)
  have fb_go: "fb st best bm (f # fs) =
      fb (Status_append st (outcome_reasons (out f)))
         (if bm \<noteq> Preempt \<and> outcome_mode (out f) = Some Preempt
          then outcome_assignment (out f) else best)
         (if bm \<noteq> Preempt \<and> outcome_mode (out f) = Some Preempt then Preempt else bm) fs"
    if "undecided (out f)" for st best bm f fs
  proof (cases "dropWhile (\<lambda>f. undecided (out f)) fs")
    case Nil
    show ?thesis
      using that by (simp add: fb_def Status_append_def Let_def Nil)
  next
    case (Cons x xs)
    show ?thesis
      using that by (cases "out x") (simp_all add: fb_def Status_append_def Let_def Cons)
  qed
  have fb_NoFit: "out f = Considered a NoFit r \<Longrightarrow>
      fb st best bm (f # fs) = fb (Status_append st r) best bm fs" for st best bm f fs a r
    by (simp add: fb_go)
  have fb_Preempt_first: "out f = Considered a Preempt r \<Longrightarrow>
      fb st best NoFit (f # fs) = fb (Status_append st r) a Preempt fs" for st best f fs a r
    by (simp add: fb_go)
  have fb_Preempt_later: "out f = Considered a Preempt r \<Longrightarrow>
      fb st best Preempt (f # fs) = fb (Status_append st r) best Preempt fs" for st best f fs a r
    by (simp add: fb_go)
  have "flavorsLoop k u rf cq spec sel reqs fs (st, best, bm) = fb st best bm fs"
    using assms(2)
  proof (induction fs arbitrary: st best bm)
    case Nil
    then show ?case by (simp add: fb_Nil)
  next
    case (Cons f fs)
    note step = flavorsLoop_step [of k u rf cq spec sel reqs f fs st best bm, folded out_def]
    show ?case
    proof (cases "out f")
      case (Panicked p)
      then show ?thesis unfolding step by (simp add: fb_stop)
    next
      case (SelectorError e)
      then show ?thesis unfolding step by (simp add: fb_stop)
    next
      case (Considered a m r)
      show ?thesis
      proof (cases m)
        case Fit
        with Considered Cons.prems show ?thesis
          unfolding step by (simp add: fb_stop mode_not_Fit_less)
      next
        case NoFit
        with Considered Cons.prems Cons.IH [of bm "Status_append st r" best] show ?thesis
          unfolding step by (simp add: mode_less_NoFit fb_NoFit)
      next
        case Preempt
        show ?thesis
        proof (cases "bm = NoFit")
          case True
          with Cons.IH [of Preempt "Status_append st r" a] Considered Preempt show ?thesis
            unfolding step by (simp add: mode_less_Preempt fb_Preempt_first)
        next
          case False
          with Cons.prems have bm: "bm = Preempt" by (cases bm) simp_all
          with Cons.IH [of bm "Status_append st r" best] Considered Preempt show ?thesis
            unfolding step by (simp add: mode_less_Preempt fb_Preempt_later)
        qed
      qed
    qed
  qed
  then show ?thesis by (simp add: fb_def)
qed

lemma findFlavorForResourceGroup_search:
  "findFlavorForResourceGroup k a_usage rg requests resourceFlavors cq spec =
     firstBest (flavorOutcome k a_usage resourceFlavors cq spec (flavorSelector spec (LabelKeys rg))
                  (filterRequestedResources requests (CoveredResources rg)))
       (ResourceGroup_Flavors rg)"
  unfolding findFlavorForResourceGroup_def firstBest_def Let_def
  by (subst flavorsLoop_firstBest) (simp_all add: Status_append_def Let_def)

text \<open>
  Claim C4. \<^verbatim>\<open>findFlavorForResourceGroup\<close> is the search \<open>firstBest\<close> over the flavors
  of the group in declared order: it returns at once, with a nil status, the assignment
  of the first flavor whose mode is Fit, without looking at the flavors after it;
  without a Fit flavor it keeps the first flavor whose mode is Preempt (a later flavor
  of the same mode does not replace it) and returns it with the reasons of all flavors;
  and when every flavor is NoFit it returns no assignment with the reasons of all
  flavors. The three cases are spelled out in the lemmas after the theorem.
\<close>

theorem findFlavorForResourceGroup_firstBest:
  "findFlavorForResourceGroup k a_usage rg requests resourceFlavors cq spec =
     firstBest (flavorOutcome k a_usage resourceFlavors cq spec (flavorSelector spec (LabelKeys rg))
                  (filterRequestedResources requests (CoveredResources rg)))
       (ResourceGroup_Flavors rg)"
  by (rule findFlavorForResourceGroup_search)




lemma takeWhile_dropWhile_first:
  "\<forall>x\<in>set pre. P x \<Longrightarrow> \<not> P f \<Longrightarrow>
     takeWhile P (pre @ f # post) = pre \<and> dropWhile P (pre @ f # post) = f # post"
  by (induction pre) auto

lemma firstBest_Fit:
  assumes "\<forall>f\<in>set pre. undecided (out f)" "out f = Considered a Fit r"
  shows "firstBest out (pre @ f # post) = Inr (a, None)"
  using takeWhile_dropWhile_first [of pre "\<lambda>f. undecided (out f)" f post] assms
  by (simp add: firstBest_def)

lemma firstBest_all_NoFit:
  assumes "\<forall>f\<in>set flavors. \<exists>a r. out f = Considered a NoFit r"
  shows "firstBest out flavors =
           Inr ([], Some \<lparr>reasons = concat (map (\<lambda>f. outcome_reasons (out f)) flavors), err = None\<rparr>)"
proof -
  have u: "\<forall>f\<in>set flavors. undecided (out f)"
    using assms by fastforce
  then have tw: "takeWhile (\<lambda>f. undecided (out f)) flavors = flavors"
      "dropWhile (\<lambda>f. undecided (out f)) flavors = []"
    by simp_all
  have "find (\<lambda>f. outcome_mode (out f) = Some Preempt) flavors = None"
    using assms by (fastforce simp: find_None_iff)
  then show ?thesis
    by (simp add: firstBest_def tw)
qed

lemma firstBest_Preempt:
  assumes "\<forall>f\<in>set pre. \<exists>a r. out f = Considered a NoFit r" "out f = Considered a Preempt r"
    "\<forall>f\<in>set post. undecided (out f)"
  shows "firstBest out (pre @ f # post) =
           Inr (a, Some \<lparr>reasons = concat (map (\<lambda>f. outcome_reasons (out f)) (pre @ f # post)),
                          err = None\<rparr>)"
proof -
  have u: "\<forall>x\<in>set (pre @ f # post). undecided (out x)"
    using assms by fastforce
  then have tw: "takeWhile (\<lambda>f. undecided (out f)) (pre @ f # post) = pre @ f # post"
      "dropWhile (\<lambda>f. undecided (out f)) (pre @ f # post) = []"
    by simp_all
  have "find (\<lambda>f. outcome_mode (out f) = Some Preempt) (pre @ f # post) = Some f"
    using assms(1,2) by (induction pre) auto
  with assms(2) show ?thesis
    unfolding firstBest_def Let_def tw by simp
qed


theorem findFlavorForResourceGroup_firstBest_witness:
  "findFlavorForResourceGroup k0 Map.empty rg_one_two [(''cpu'', 2000)] rf0 cq_one_two spec0
     = Inr ([(''cpu'', \<lparr>Name = ''two'', Mode = Fit, borrow = 0\<rparr>)], None)"
  unfolding findFlavorForResourceGroup_firstBest
  by (simp add: firstBest_def flavorOutcome_def rg_one_two_def cq_one_two_def rf0_def spec0_def
      k0_def flavorSelector_def filterRequestedResources_def FindMatchingUntoleratedTaint_def
      fitsResourceQuota_def qty_def sle64_def slt64_def Status_of_def
      less_FlavorAssignmentMode_def)

subsection \<open>Requests outside the cluster queue\<close>

text \<open>The definitions that running the assigner on a concrete input unfolds.\<close>

lemmas eval_defs = AssignFlavors_def podsRequest_def index_def
   findFlavorForResourceGroup_def filterRequestedResources_def flavorSelector_def
   FindMatchingUntoleratedTaint_def fitsResourceQuota_def qty_def sle64_def slt64_def Status_of_def
   borrowingLimitMsg_def Status_IsError_def Status_append_def PodSetAssignment_append_def
   Assignment_append_def frq_set_def requests_get_def ToResourceList_def ResourceQuantity_def
   resourceUnavailableMsg_def flavorNotFoundMsg_def untoleratedTaintMsg_def noAffinityMatchMsg_def
   taintFilter_def less_FlavorAssignmentMode_def less_eq_FlavorAssignmentMode_def
   Assignment_RepresentativeMode_def PodSetAssignment_RepresentativeMode_def

text \<open>
  A pod set can request a resource that no resource group covers and still not get the
  reason "resource ... unavailable in ClusterQueue": when the loop visits first a resource
  that fits no flavor, it stops there, with the reasons of that resource.
\<close>

theorem resource_unavailable_counterexample:
  "RGByResource cq_one_two ''example.com/gpu'' = None
   \<and> map_sum id PodSets (AssignFlavors k0 (wl_cpu_gpu 5000) rf0 cq_one_two) =
       Inr [\<lparr>PodSetAssignment_Name = ''main'', Flavors = [],
             Status = Some \<lparr>reasons = [''insufficient quota for cpu in flavor one in ClusterQueue'',
                                       ''insufficient quota for cpu in flavor two in ClusterQueue''],
                            err = None\<rparr>,
             Requests = [(''cpu'', NewMilliQuantity 5000 DecimalSI),
                         (''example.com/gpu'', NewQuantity 2 DecimalSI)]\<rparr>]"
  by (simp add: eval_defs wl_cpu_gpu_def cq_one_two_def rg_one_two_def rf0_def spec0_def k0_def)

text \<open>
  A loop that has given a flavor to each of the resources it visited has not been left
  by \<^verbatim>\<open>break\<close>, and goes on with the resources after them.
\<close>

lemma resourcesLoop_prefix:
  assumes "resourcesLoop k a rf cq wl i requests pre psa0 = Inr psa1"
    and "\<forall>r\<in>fst ` set pre. map_of (Flavors psa1) r \<noteq> None"
  shows "resourcesLoop k a rf cq wl i requests (pre @ todo) psa0
           = resourcesLoop k a rf cq wl i requests todo psa1"
  using assms
proof (induction pre arbitrary: psa0)
  case Nil
  then show ?case by simp
next
  case (Cons rv pre)
  obtain r v where rv: "rv = (r, v)" by (cases rv)
  show ?case
  proof (cases "map_of (Flavors psa0) r \<noteq> None")
    case True
    with Cons rv show ?thesis by simp
  next
    case False
    note nf = this
    show ?thesis
    proof (cases "RGByResource cq r")
      case None
      with nf Cons.prems rv show ?thesis by auto
    next
      case (Some rg)
      show ?thesis
      proof (cases "index (Obj_Spec_PodSets wl) i")
        case (Inl p)
        with nf Some Cons.prems rv show ?thesis by simp
      next
        case (Inr ps)
        show ?thesis
        proof (cases "findFlavorForResourceGroup k (usage a) rg requests rf cq (Template_Spec ps)")
          case (Inl p)
          with nf Some Inr Cons.prems rv show ?thesis by simp
        next
          case (Inr fs)
          obtain flavors status where fs: "fs = (flavors, status)" by (cases fs)
          show ?thesis
          proof (cases "Status_IsError status \<or> length flavors = 0")
            case True
            with nf Some \<open>index (Obj_Spec_PodSets wl) i = Inr ps\<close> Inr fs Cons.prems rv
            show ?thesis by auto
          next
            case False
            with nf Some \<open>index (Obj_Spec_PodSets wl) i = Inr ps\<close> Inr fs Cons.prems rv
              Cons.IH [of "PodSetAssignment_append psa0 flavors status"]
            show ?thesis by simp
          qed
        qed
      qed
    qed
  qed
qed

subsection \<open>Flavor assignments of a pod set\<close>

lemma mode_le_NoFit [simp]: "NoFit \<le> (m :: FlavorAssignmentMode)"
  by (simp add: less_eq_FlavorAssignmentMode_def)

lemma mode_le_Fit [simp]: "(m :: FlavorAssignmentMode) \<le> Fit"
  by (cases m) (simp_all add: less_eq_FlavorAssignmentMode_def)

lemma mode_Fit_le [simp]: "(Fit \<le> m) = (m = Fit)"
  by (cases m) (simp_all add: less_eq_FlavorAssignmentMode_def)

lemma requestsLoop_entries:
  assumes "requestsLoop k u cq fq reqs (as, m, st) = Inr (as', m', st')"
    and "distinct (map fst as)"
    and "\<forall>r fa. map_of as r = Some fa \<longrightarrow> m \<le> Mode fa \<and> fitted k u cq fq all r fa"
    and "set reqs \<subseteq> set all"
  shows "distinct (map fst as')
    \<and> (\<forall>r fa. map_of as' r = Some fa \<longrightarrow> m' \<le> Mode fa \<and> fitted k u cq fq all r fa)
    \<and> (m' \<noteq> NoFit \<longrightarrow> dom (map_of as') = dom (map_of as) \<union> fst ` set reqs)"
  using assms
proof (induction reqs arbitrary: as m st)
  case Nil
  then show ?case by simp
next
  case (Cons rv reqs)
  obtain r v where rv: "rv = (r, v)" by (cases rv)
  from Cons.prems(1) rv obtain q where q: "Resources fq r = Some q"
    by (cases "Resources fq r") auto
  obtain mode b s where f: "fitsResourceQuota k (FlavorQuotas_Name fq) r
        (v + qty u (FlavorQuotas_Name fq) r) cq q = (mode, b, s)"
    by (cases "fitsResourceQuota k (FlavorQuotas_Name fq) r
        (v + qty u (FlavorQuotas_Name fq) r) cq q") auto
  let ?m = "if mode < m then mode else m"
  let ?fa = "\<lparr>Name = FlavorQuotas_Name fq, Mode = mode, borrow = b\<rparr>"
  let ?as = "AList.update r ?fa as"
  let ?st = "case s of None \<Rightarrow> st | Some x \<Rightarrow> st\<lparr>reasons := reasons st @ reasons x\<rparr>"
  have mle: "?m \<le> m" "?m \<le> mode" by auto
  show ?case
  proof (cases "?m = NoFit")
    case True
    with Cons.prems(1) rv q f have "as' = as" "m' = NoFit"
      by (auto simp: Let_def)
    with Cons.prems show ?thesis by auto
  next
    case False
    with Cons.prems(1) rv q f
    have loop: "requestsLoop k u cq fq reqs (?as, ?m, ?st) = Inr (as', m', st')"
      by (simp add: Let_def)
    have d: "distinct (map fst ?as)"
      using Cons.prems(2) by (simp add: distinct_update)
    have fit: "fitted k u cq fq all r ?fa"
      using q f Cons.prems(4) rv by (auto simp: fitted_def)
    have e: "\<forall>r' fa. map_of ?as r' = Some fa \<longrightarrow> ?m \<le> Mode fa \<and> fitted k u cq fq all r' fa"
    proof (intro allI impI)
      fix r' fa
      assume a: "map_of ?as r' = Some fa"
      show "?m \<le> Mode fa \<and> fitted k u cq fq all r' fa"
      proof (cases "r' = r")
        case True
        with a have "fa = ?fa" by (simp add: update_conv')
        with True fit mle show ?thesis by simp
      next
        case False
        with a have "map_of as r' = Some fa" by (simp add: update_conv')
        with Cons.prems(3) have "m \<le> Mode fa" "fitted k u cq fq all r' fa" by auto
        with mle show ?thesis by (meson order_trans)
      qed
    qed
    have s: "set reqs \<subseteq> set all" using Cons.prems(4) by simp
    from Cons.IH [OF loop d e s]
    have "distinct (map fst as')"
      "\<forall>r fa. map_of as' r = Some fa \<longrightarrow> m' \<le> Mode fa \<and> fitted k u cq fq all r fa"
      "m' \<noteq> NoFit \<longrightarrow> dom (map_of as') = dom (map_of ?as) \<union> fst ` set reqs"
      by auto
    moreover have "dom (map_of ?as) = insert r (dom (map_of as))"
      by (auto simp: update_conv')
    ultimately show ?thesis using rv by auto
  qed
qed

lemma flavorOutcome_Considered:
  assumes "flavorOutcome k u rf cq spec sel reqs fq = Considered a m r"
  shows "distinct (map fst a)
    \<and> (\<forall>x fa. map_of a x = Some fa \<longrightarrow> m \<le> Mode fa \<and> fitted k u cq fq reqs x fa)
    \<and> (m \<noteq> NoFit \<longrightarrow> dom (map_of a) = fst ` set reqs)"
proof (cases "m = NoFit \<and> a = []")
  case True
  then show ?thesis by simp
next
  case False
  with assms obtain st where
    "requestsLoop k u cq fq reqs ([], Fit, \<lparr>reasons = [], err = None\<rparr>) = Inr (a, m, st)"
    by (auto simp: flavorOutcome_def split: option.splits prod.splits bool.splits sum.splits)
  from requestsLoop_entries [OF this, of reqs] show ?thesis by simp
qed

lemma findFlavorForResourceGroup_result:
  fixes k u rg requests rf cq spec
  defines "out \<equiv> flavorOutcome k u rf cq spec (flavorSelector spec (LabelKeys rg))
                    (filterRequestedResources requests (CoveredResources rg))"
  assumes "findFlavorForResourceGroup k u rg requests rf cq spec = Inr (flavors, status)"
  shows "(status = None \<and> (\<exists>fq\<in>set (ResourceGroup_Flavors rg). \<exists>r. out fq = Considered flavors Fit r))
    \<or> (\<exists>st. status = Some st \<and>
          (flavors = [] \<or> (err st = None \<and>
             (\<exists>fq\<in>set (ResourceGroup_Flavors rg). \<exists>r. out fq = Considered flavors Preempt r))))"
proof -
  let ?P = "\<lambda>f. undecided (out f)"
  let ?fs = "ResourceGroup_Flavors rg"
  have fb: "firstBest out ?fs = Inr (flavors, status)"
    using assms(2) unfolding findFlavorForResourceGroup_search out_def .
  show ?thesis
  proof (cases "dropWhile ?P ?fs")
    case Nil
    show ?thesis
    proof (cases "find (\<lambda>f. outcome_mode (out f) = Some Preempt) (takeWhile ?P ?fs)")
      case None
      with fb Nil show ?thesis by (auto simp: firstBest_def Let_def)
    next
      case (Some f)
      then have "f \<in> set (takeWhile ?P ?fs)" "outcome_mode (out f) = Some Preempt"
        by (auto simp: find_Some_iff)
      then have "f \<in> set ?fs" "\<exists>a r. out f = Considered a Preempt r"
        by (auto dest: set_takeWhileD intro: outcome_mode.elims)
      with fb Nil Some show ?thesis by (auto simp: firstBest_def Let_def)
    qed
  next
    case (Cons f rest)
    then have "f \<in> set ?fs" "\<not> ?P f"
      by (metis list.set_intros(1) set_dropWhileD, metis hd_dropWhile list.sel(1) list.distinct(1))
    with fb Cons show ?thesis
      by (cases "out f") (auto simp: firstBest_def Let_def)
  qed
qed

lemma fitted_filter:
  "fitted k u cq fq (filterRequestedResources requests C) r fa
     \<Longrightarrow> fitted k u cq fq requests r fa \<and> r \<in> C"
  by (auto simp: fitted_def filterRequestedResources_def)

lemma fold_update_map_of:
  "distinct (map fst fl) \<Longrightarrow>
     map_of (fold (\<lambda>(r, a) al. AList.update r a al) fl base) x =
       (case map_of fl x of Some a \<Rightarrow> Some a | None \<Rightarrow> map_of base x)"
proof (induction fl arbitrary: base)
  case Nil
  then show ?case by simp
next
  case (Cons p fl)
  obtain r a where p: "p = (r, a)" by (cases p)
  with Cons.prems have "map_of fl r = None"
    by (simp add: map_of_eq_None_iff)
  with Cons p show ?case
    by (auto simp: update_conv' split: option.splits)
qed

lemma fold_update_distinct:
  "distinct (map fst base) \<Longrightarrow> distinct (map fst (fold (\<lambda>(r, a) al. AList.update r a al) fl base))"
  by (induction fl arbitrary: base) (auto simp: distinct_update)

lemma Flavors_append:
  "Flavors (PodSetAssignment_append psa flavors status)
     = fold (\<lambda>(r, a) al. AList.update r a al) flavors (Flavors psa)"
  by (simp add: PodSetAssignment_append_def Let_def split: option.splits)

lemma Status_append_None:
  "(Status (PodSetAssignment_append psa flavors status) = None)
     = (Status psa = None \<and> status = None)"
  by (simp add: PodSetAssignment_append_def Let_def split: option.splits)

lemma Status_append_IsError:
  "\<not> Status_IsError status \<Longrightarrow>
     Status_IsError (Status (PodSetAssignment_append psa flavors status))
       = Status_IsError (Status psa)"
  by (simp add: PodSetAssignment_append_def Let_def Status_IsError_def split: option.splits)

lemma map_of_nonempty: "map_of al x = Some y \<Longrightarrow> al \<noteq> []"
  by auto

text \<open>What one successful search of a group contributes to the pod set assignment.\<close>

lemma findFlavor_entries:
  assumes ff: "findFlavorForResourceGroup k u rg requests rf cq spec = Inr (flavors, status)"
    and ne: "flavors \<noteq> []"
    and rg: "rg \<in> ran (RGByResource cq)"
  shows "distinct (map fst flavors)
    \<and> (\<forall>x fa. map_of flavors x = Some fa \<longrightarrow>
          assigned k u cq requests x fa \<and> (status = None \<longrightarrow> Mode fa = Fit))
    \<and> dom (map_of flavors)
        = fst ` set (filterRequestedResources requests (CoveredResources rg))"
proof -
  let ?reqs = "filterRequestedResources requests (CoveredResources rg)"
  let ?out = "flavorOutcome k u rf cq spec (flavorSelector spec (LabelKeys rg)) ?reqs"
  from findFlavorForResourceGroup_result [OF ff] ne
  obtain fq m r where fq: "fq \<in> set (ResourceGroup_Flavors rg)" "?out fq = Considered flavors m r"
    "m \<noteq> NoFit" "status = None \<longrightarrow> m = Fit"
    by auto
  from flavorOutcome_Considered [OF fq(2)] fq(3)
  have d: "distinct (map fst flavors)"
    and e: "\<forall>x fa. map_of flavors x = Some fa \<longrightarrow> m \<le> Mode fa \<and> fitted k u cq fq ?reqs x fa"
    and c: "dom (map_of flavors) = fst ` set ?reqs"
    by auto
  have "assigned k u cq requests x fa \<and> (status = None \<longrightarrow> Mode fa = Fit)"
    if "map_of flavors x = Some fa" for x fa
  proof -
    from e that have "m \<le> Mode fa" "fitted k u cq fq ?reqs x fa" by auto
    with fitted_filter [of k u cq fq requests "CoveredResources rg" x fa] fq(1,4) rg
    show ?thesis by (auto simp: assigned_def)
  qed
  with d c show ?thesis by blast
qed

lemma findFlavor_None_nonempty:
  assumes ff: "findFlavorForResourceGroup k u rg requests rf cq spec = Inr (flavors, None)"
    and r: "(r, v) \<in> set requests" "r \<in> CoveredResources rg"
  shows "flavors \<noteq> []"
proof
  assume "flavors = []"
  let ?reqs = "filterRequestedResources requests (CoveredResources rg)"
  let ?out = "flavorOutcome k u rf cq spec (flavorSelector spec (LabelKeys rg)) ?reqs"
  from findFlavorForResourceGroup_result [OF ff]
  obtain fq x where "?out fq = Considered flavors Fit x" by auto
  from flavorOutcome_Considered [OF this] have "dom (map_of flavors) = fst ` set ?reqs" by simp
  moreover have "r \<in> fst ` set ?reqs"
    using r by (force simp: filterRequestedResources_def)
  ultimately show False using \<open>flavors = []\<close> by simp
qed

lemma resourcesLoop_inv:
  assumes "resourcesLoop k a rf cq wl i requests todo psa = Inr psa'"
    and "set todo \<subseteq> set requests"
    and "psa_ok k (usage a) cq requests psa"
    and "\<not> Status_IsError (Status psa)"
  shows "psa_ok k (usage a) cq requests psa'
    \<and> (Status_IsError (Status psa') \<longrightarrow> Flavors psa' = [])
    \<and> (consistent cq \<longrightarrow>
         (Flavors psa' \<noteq> [] \<longrightarrow>
            fst ` set todo \<union> dom (map_of (Flavors psa)) \<subseteq> dom (map_of (Flavors psa')))
         \<and> (Status psa' = None \<longrightarrow> todo \<noteq> [] \<or> Flavors psa \<noteq> [] \<longrightarrow> Flavors psa' \<noteq> []))"
  using assms
proof (induction todo arbitrary: psa)
  case Nil
  then show ?case by simp
next
  case (Cons rv todo)
  obtain r v where rv: "rv = (r, v)" by (cases rv)
  have sub: "set todo \<subseteq> set requests" and rin: "(r, v) \<in> set requests"
    using Cons.prems(2) rv by auto
  have keys: "fst ` set (rv # todo) = insert r (fst ` set todo)"
    using rv by simp
  show ?case
  proof (cases "map_of (Flavors psa) r \<noteq> None")
    case True
    with Cons.prems(1) rv
    have "resourcesLoop k a rf cq wl i requests todo psa = Inr psa'" by simp
    from Cons.IH [OF this sub Cons.prems(3,4)]
    have ih1: "psa_ok k (usage a) cq requests psa'"
      and ih2: "Status_IsError (Status psa') \<longrightarrow> Flavors psa' = []"
      and ih3: "consistent cq \<longrightarrow> Flavors psa' \<noteq> [] \<longrightarrow>
                  fst ` set todo \<union> dom (map_of (Flavors psa)) \<subseteq> dom (map_of (Flavors psa'))"
      and ih4: "consistent cq \<longrightarrow> Status psa' = None \<longrightarrow> todo \<noteq> [] \<or> Flavors psa \<noteq> []
                  \<longrightarrow> Flavors psa' \<noteq> []"
      by blast+
    from True have rd: "r \<in> dom (map_of (Flavors psa))" and ne: "Flavors psa \<noteq> []"
      by auto
    have "consistent cq \<longrightarrow> Flavors psa' \<noteq> [] \<longrightarrow>
            fst ` set (rv # todo) \<union> dom (map_of (Flavors psa)) \<subseteq> dom (map_of (Flavors psa'))"
      unfolding keys using ih3 rd by blast
    moreover have "consistent cq \<longrightarrow> Status psa' = None \<longrightarrow> Flavors psa' \<noteq> []"
      using ih4 ne by blast
    ultimately show ?thesis using ih1 ih2 by blast
  next
    case False
    note nf = this
    show ?thesis
    proof (cases "RGByResource cq r")
      case None
      with nf Cons.prems(1) rv show ?thesis
        by (auto simp: psa_ok_def Status_IsError_def)
    next
      case (Some rg)
      then have rgran: "rg \<in> ran (RGByResource cq)"
        by (auto simp: ran_def)
      have cov: "consistent cq \<Longrightarrow> r \<in> CoveredResources rg"
        using Some by (auto simp: consistent_def)
      from nf Some Cons.prems(1) rv obtain ps where ps: "index (Obj_Spec_PodSets wl) i = Inr ps"
        by (cases "index (Obj_Spec_PodSets wl) i") auto
      from nf Some ps Cons.prems(1) rv obtain flavors status where
        ff: "findFlavorForResourceGroup k (usage a) rg requests rf cq (Template_Spec ps)
               = Inr (flavors, status)"
        by (cases "findFlavorForResourceGroup k (usage a) rg requests rf cq (Template_Spec ps)")
          auto
      show ?thesis
      proof (cases "Status_IsError status \<or> length flavors = 0")
        case True
        with nf Some ps ff Cons.prems(1) rv
        have psa': "psa' = psa\<lparr>Flavors := [], Status := status\<rparr>" by auto
        have "status \<noteq> None" if "consistent cq"
        proof
          assume "status = None"
          with findFlavor_None_nonempty [of k "usage a" rg requests rf cq "Template_Spec ps"
              flavors r v] ff rin cov [OF that] True
          show False by (simp add: Status_IsError_def)
        qed
        with psa' show ?thesis by (auto simp: psa_ok_def)
      next
        case False
        then have ne: "flavors \<noteq> []" and noerr: "\<not> Status_IsError status" by auto
        let ?psa1 = "PodSetAssignment_append psa flavors status"
        from nf Some ps ff False Cons.prems(1) rv
        have loop: "resourcesLoop k a rf cq wl i requests todo ?psa1 = Inr psa'" by simp
        from findFlavor_entries [OF ff ne rgran]
        have d: "distinct (map fst flavors)"
          and e: "\<forall>x fa. map_of flavors x = Some fa \<longrightarrow>
                     assigned k (usage a) cq requests x fa \<and> (status = None \<longrightarrow> Mode fa = Fit)"
          and c: "dom (map_of flavors)
                    = fst ` set (filterRequestedResources requests (CoveredResources rg))"
          by auto
        have rdom: "r \<in> dom (map_of flavors)" if "consistent cq"
          unfolding c using rin cov [OF that] by (force simp: filterRequestedResources_def)
        have m1: "map_of (Flavors ?psa1) x =
                    (case map_of flavors x of Some fa \<Rightarrow> Some fa | None \<Rightarrow> map_of (Flavors psa) x)"
          for x
          unfolding Flavors_append using d by (rule fold_update_map_of)
        have ok1: "psa_ok k (usage a) cq requests ?psa1"
          unfolding psa_ok_def
        proof (intro conjI allI impI)
          show "distinct (map fst (Flavors ?psa1))"
            unfolding Flavors_append using Cons.prems(3)
            by (simp add: psa_ok_def fold_update_distinct)
        next
          fix x fa
          assume "map_of (Flavors ?psa1) x = Some fa"
          with m1 [of x] e Cons.prems(3)
          show "assigned k (usage a) cq requests x fa"
            by (auto simp: psa_ok_def split: option.splits)
        next
          fix x fa
          assume "map_of (Flavors ?psa1) x = Some fa" "Status ?psa1 = None"
          with m1 [of x] e Cons.prems(3)
          show "Mode fa = Fit"
            by (auto simp: psa_ok_def Status_append_None split: option.splits)
        qed
        have ne1: "\<not> Status_IsError (Status ?psa1)"
          using Cons.prems(4) noerr by (simp add: Status_append_IsError)
        have dom0: "dom (map_of (Flavors psa)) \<subseteq> dom (map_of (Flavors ?psa1))"
          using m1 by (auto split: option.splits)
        have dom1: "consistent cq \<Longrightarrow> r \<in> dom (map_of (Flavors ?psa1))"
          using rdom m1 by (auto split: option.splits)
        from ne have "\<exists>x0 fa0. map_of flavors x0 = Some fa0"
          by (cases flavors) force+
        then obtain x0 fa0 where "map_of flavors x0 = Some fa0" by blast
        with m1 [of x0] have ne1': "Flavors ?psa1 \<noteq> []" by auto
        from Cons.IH [OF loop sub ok1 ne1]
        have ih1: "psa_ok k (usage a) cq requests psa'"
          and ih2: "Status_IsError (Status psa') \<longrightarrow> Flavors psa' = []"
          and ih3: "consistent cq \<longrightarrow> Flavors psa' \<noteq> [] \<longrightarrow>
                      fst ` set todo \<union> dom (map_of (Flavors ?psa1)) \<subseteq> dom (map_of (Flavors psa'))"
          and ih4: "consistent cq \<longrightarrow> Status psa' = None \<longrightarrow> Flavors psa' \<noteq> []"
          using ne1' by blast+
        have "consistent cq \<longrightarrow> Flavors psa' \<noteq> [] \<longrightarrow>
                fst ` set (rv # todo) \<union> dom (map_of (Flavors psa)) \<subseteq> dom (map_of (Flavors psa'))"
          unfolding keys using ih3 dom0 dom1 by blast
        with ih1 ih2 ih4 show ?thesis by blast
      qed
    qed
  qed
qed

subsection \<open>Representative modes as minima\<close>

lemma fold_min_Min: "fold min xs (m0 :: FlavorAssignmentMode) = Min (insert m0 (set xs))"
  using Min.set_eq_fold [of m0 xs] by simp

lemma Min_insert_Fit:
  assumes "finite S" "S \<noteq> {}"
  shows "Min (insert Fit S) = Min S"
  using assms by (simp add: min_def)

lemma fold_mode_min:
  "fold (\<lambda>x mode. if f x < mode then f x else mode) xs (m0 :: FlavorAssignmentMode)
     = fold min (map f xs) m0"
  by (induction xs arbitrary: m0) (auto simp: min_def)

lemma fold_flavors_min:
  "fold (\<lambda>(res, flvAssignment) mode.
           if Mode flvAssignment < mode then Mode flvAssignment else mode) fl m0
     = fold min (map (\<lambda>(r, fa). Mode fa) fl) m0"
  by (induction fl arbitrary: m0) (auto simp: min_def)

lemma PodSetAssignment_RepresentativeMode_Min:
  "PodSetAssignment_RepresentativeMode psa =
     (case Status psa of None \<Rightarrow> Fit
      | Some s \<Rightarrow> if Flavors psa = [] then NoFit
                  else Min ((\<lambda>(r, fa). Mode fa) ` set (Flavors psa)))"
proof -
  have "fold (\<lambda>(res, flvAssignment) mode.
                     if Mode flvAssignment < mode then Mode flvAssignment else mode)
               (Flavors psa) Fit
             = Min (insert Fit ((\<lambda>(r, fa). Mode fa) ` set (Flavors psa)))"
    by (simp only: fold_flavors_min fold_min_Min set_map)
  then show ?thesis
    by (auto simp: PodSetAssignment_RepresentativeMode_def Min_insert_Fit split: option.splits)
qed

lemma Assignment_RepresentativeMode_Min:
  assumes "representativeMode a = None"
  shows "fst (Assignment_RepresentativeMode a) =
     (if PodSets a = [] then NoFit
      else Min (PodSetAssignment_RepresentativeMode ` set (PodSets a)))"
proof -
  have "(\<lambda>ps mode. let psMode = PodSetAssignment_RepresentativeMode ps
                    in if psMode < mode then psMode else mode)
          = (\<lambda>x mode. if PodSetAssignment_RepresentativeMode x < mode
                       then PodSetAssignment_RepresentativeMode x else mode)"
    by (simp add: Let_def)
  then have "fold (\<lambda>ps mode. let psMode = PodSetAssignment_RepresentativeMode ps
                    in if psMode < mode then psMode else mode) (PodSets a) Fit
             = Min (insert Fit (PodSetAssignment_RepresentativeMode ` set (PodSets a)))"
    by (simp add: fold_mode_min fold_min_Min)
  with assms show ?thesis
    by (simp add: Assignment_RepresentativeMode_def Min_insert_Fit)
qed

lemma Min_Fit_all:
  assumes "finite S" "S \<noteq> {}" "Min S = Fit" "m \<in> S"
  shows "m = Fit"
proof -
  from assms have "Fit \<le> m" by (metis Min_le)
  then show ?thesis by simp
qed

lemma Min_NoFit:
  assumes "finite S" "NoFit \<in> S"
  shows "Min S = NoFit"
  using assms by (meson Min_eqI mode_le_NoFit)

subsection \<open>The pod sets of a computed assignment\<close>

lemma fold_preserves:
  "(\<And>x b. g (f x b) = g b) \<Longrightarrow> g (fold f xs b) = g b"
  by (induction xs arbitrary: b) simp_all

lemma Assignment_append_fields:
  "PodSets (Assignment_append a requests psa) = PodSets a @ [psa]
   \<and> representativeMode (Assignment_append a requests psa) = representativeMode a"
proof -
  have "PodSets (Assignment_append a requests psa) = PodSets (a\<lparr>PodSets := PodSets a @ [psa]\<rparr>)"
    unfolding Assignment_append_def
    by (rule fold_preserves) (simp add: Let_def split: prod.splits)
  moreover have "representativeMode (Assignment_append a requests psa)
                   = representativeMode (a\<lparr>PodSets := PodSets a @ [psa]\<rparr>)"
    unfolding Assignment_append_def
    by (rule fold_preserves) (simp add: Let_def split: prod.splits)
  ultimately show ?thesis by simp
qed

lemma psa_ok_Min:
  assumes "psa_ok k u cq requests psa" "Flavors psa \<noteq> []"
  shows "PodSetAssignment_RepresentativeMode psa = Min ((\<lambda>(r, fa). Mode fa) ` set (Flavors psa))"
proof (cases "Status psa")
  case (Some st)
  with assms(2) show ?thesis by (simp add: PodSetAssignment_RepresentativeMode_Min)
next
  case None
  define S where "S = (\<lambda>(r, fa). Mode fa) ` set (Flavors psa)"
  have fin: "finite S" and ne: "S \<noteq> {}"
    using assms(2) by (simp_all add: S_def)
  have "m = Fit" if "m \<in> S" for m
  proof -
    from that obtain r fa where "(r, fa) \<in> set (Flavors psa)" "m = Mode fa"
      by (auto simp: S_def)
    moreover from assms(1) have "distinct (map fst (Flavors psa))" by (simp add: psa_ok_def)
    ultimately have "map_of (Flavors psa) r = Some fa" by simp
    with assms(1) None \<open>m = Mode fa\<close> show ?thesis by (auto simp: psa_ok_def)
  qed
  moreover from fin ne have "Min S \<in> S" by (rule Min_in)
  ultimately have "Min S = Fit" by blast
  with None show ?thesis
    by (simp add: PodSetAssignment_RepresentativeMode_Min S_def)
qed

lemma podSet_post:
  assumes loop: "resourcesLoop k a rf cq wl i requests requests psa0 = Inr psa"
    and psa0: "Flavors psa0 = []" "Status psa0 = None"
  shows "psa_ok k (usage a) cq requests psa"
    and "consistent cq \<longrightarrow>
           Status_IsError (Status psa) \<or> (requests \<noteq> [] \<and> Flavors psa = [])
           \<longrightarrow> PodSetAssignment_RepresentativeMode psa = NoFit"
    and "consistent cq \<longrightarrow> PodSetAssignment_RepresentativeMode psa = Fit \<longrightarrow>
           (\<forall>r fa. map_of (Flavors psa) r = Some fa \<longrightarrow> Mode fa = Fit)
           \<and> fst ` set requests \<subseteq> dom (map_of (Flavors psa))"
proof -
  have ok0: "psa_ok k (usage a) cq requests psa0" "\<not> Status_IsError (Status psa0)"
    using psa0 by (simp_all add: psa_ok_def Status_IsError_def)
  from resourcesLoop_inv [OF loop subset_refl ok0] psa0
  have ok: "psa_ok k (usage a) cq requests psa"
    and er: "Status_IsError (Status psa) \<longrightarrow> Flavors psa = []"
    and ks: "consistent cq \<longrightarrow> Flavors psa \<noteq> [] \<longrightarrow>
               fst ` set requests \<subseteq> dom (map_of (Flavors psa))"
    and ne: "consistent cq \<longrightarrow> Status psa = None \<longrightarrow> requests \<noteq> [] \<longrightarrow> Flavors psa \<noteq> []"
    by auto
  show "psa_ok k (usage a) cq requests psa" by (rule ok)
  show nofit: "consistent cq \<longrightarrow>
           Status_IsError (Status psa) \<or> (requests \<noteq> [] \<and> Flavors psa = [])
           \<longrightarrow> PodSetAssignment_RepresentativeMode psa = NoFit"
    using er ne
    by (auto simp: PodSetAssignment_RepresentativeMode_Min Status_IsError_def split: option.splits)
  show "consistent cq \<longrightarrow> PodSetAssignment_RepresentativeMode psa = Fit \<longrightarrow>
           (\<forall>r fa. map_of (Flavors psa) r = Some fa \<longrightarrow> Mode fa = Fit)
           \<and> fst ` set requests \<subseteq> dom (map_of (Flavors psa))"
  proof (intro impI)
    assume cq: "consistent cq" and fit: "PodSetAssignment_RepresentativeMode psa = Fit"
    have allfit: "Mode fa = Fit" if "map_of (Flavors psa) r = Some fa" for r fa
    proof -
      define S where "S = (\<lambda>(r, fa). Mode fa) ` set (Flavors psa)"
      from that have "Flavors psa \<noteq> []" by auto
      with fit psa_ok_Min [OF ok] have minS: "Min S = Fit"
        by (simp add: S_def)
      from that have "(r, fa) \<in> set (Flavors psa)" by (rule map_of_SomeD)
      then have mem: "Mode fa \<in> S" unfolding S_def by force
      have fin: "finite S" unfolding S_def by simp
      from mem have ne: "S \<noteq> {}" by auto
      from Min_Fit_all [OF fin ne minS mem] show ?thesis .
    qed
    have "fst ` set requests \<subseteq> dom (map_of (Flavors psa))"
    proof (cases "Flavors psa = []")
      case False
      with ks cq show ?thesis by simp
    next
      case True
      show ?thesis
      proof (cases "requests = []")
        case True
        then show ?thesis by simp
      next
        case False
        with True fit nofit cq show ?thesis by simp
      qed
    qed
    with allfit show "(\<forall>r fa. map_of (Flavors psa) r = Some fa \<longrightarrow> Mode fa = Fit)
           \<and> fst ` set requests \<subseteq> dom (map_of (Flavors psa))"
      by blast
  qed
qed

lemma podsRequest_keys:
  "podsRequest cq wl i podSet = Inr requests \<Longrightarrow>
     fst ` set (PodSetResources_Requests podSet) \<subseteq> fst ` set requests"
proof -
  assume pr: "podsRequest cq wl i podSet = Inr requests"
  have up: "fst ` set al \<subseteq> fst ` set (AList.update k v al)"
    for k :: ResourceName and v :: int64 and al
    by (induction al) auto
  show "fst ` set (PodSetResources_Requests podSet) \<subseteq> fst ` set requests"
  proof (cases "RGByResource cq ''pods'' = None")
    case True
    with pr show ?thesis by (simp add: podsRequest_def)
  next
    case False
    with pr have "\<exists>ps :: PodSet. requests = AList.update ''pods'' (scast (Count ps))
                                (PodSetResources_Requests podSet)"
      by (cases "index (Obj_Spec_PodSets wl) i") (auto simp: podsRequest_def)
    then obtain ps :: PodSet where r: "requests = AList.update ''pods'' (scast (Count ps))
                                (PodSetResources_Requests podSet)"
      by blast
    show ?thesis unfolding r by (rule up)
  qed
qed

lemma podSetsLoop_Cons_Inr:
  assumes "podSetsLoop k rf cq wl i (podSet # rest) a = Inr a'"
  shows "\<exists>requests psa. podsRequest cq wl i podSet = Inr requests
     \<and> resourcesLoop k a rf cq wl i requests requests
           \<lparr>PodSetAssignment_Name = PodSetResources_Name podSet, Flavors = [],
            Status = None, Requests = ToResourceList requests\<rparr> = Inr psa
     \<and> (if Status_IsError (Status psa) \<or> (length requests > 0 \<and> length (Flavors psa) = 0)
         then a' = (Assignment_append a requests psa)\<lparr>TotalBorrow := Map.empty\<rparr>
         else podSetsLoop k rf cq wl (Suc i) rest (Assignment_append a requests psa) = Inr a')"
proof (cases "podsRequest cq wl i podSet")
  case (Inl p)
  with assms show ?thesis by simp
next
  case (Inr requests)
  note rq = this
  show ?thesis
  proof (cases "resourcesLoop k a rf cq wl i requests requests
           \<lparr>PodSetAssignment_Name = PodSetResources_Name podSet, Flavors = [],
            Status = None, Requests = ToResourceList requests\<rparr>")
    case (Inl p)
    with assms rq show ?thesis by simp
  next
    case (Inr psa)
    with assms rq show ?thesis
      by (auto simp: Let_def split: if_splits)
  qed
qed

lemma podSetsLoop_inv:
  assumes "podSetsLoop k rf cq wl i podsets a = Inr a'"
  shows "\<exists>new. PodSets a' = PodSets a @ new \<and> representativeMode a' = representativeMode a
     \<and> length new \<le> length podsets
     \<and> (\<forall>ps\<in>set new. Flavors ps \<noteq> [] \<longrightarrow>
           PodSetAssignment_RepresentativeMode ps
             = Min ((\<lambda>(r, fa). Mode fa) ` set (Flavors ps)))
     \<and> (consistent cq \<longrightarrow>
          (\<forall>j<length new. PodSetAssignment_RepresentativeMode (new ! j) = Fit
              \<longrightarrow> all_Fit (podsets ! j) (new ! j))
          \<and> (length new < length podsets \<longrightarrow>
               (\<exists>ps\<in>set new. PodSetAssignment_RepresentativeMode ps = NoFit)))"
  using assms
proof (induction podsets arbitrary: i a)
  case Nil
  then show ?case by simp
next
  case (Cons podSet rest)
  from podSetsLoop_Cons_Inr [OF Cons.prems(1)] obtain requests psa where
    rq: "podsRequest cq wl i podSet = Inr requests"
    and loop: "resourcesLoop k a rf cq wl i requests requests
           \<lparr>PodSetAssignment_Name = PodSetResources_Name podSet, Flavors = [],
            Status = None, Requests = ToResourceList requests\<rparr> = Inr psa"
    and step: "if Status_IsError (Status psa) \<or> (length requests > 0 \<and> length (Flavors psa) = 0)
         then a' = (Assignment_append a requests psa)\<lparr>TotalBorrow := Map.empty\<rparr>
         else podSetsLoop k rf cq wl (Suc i) rest (Assignment_append a requests psa) = Inr a'"
    by blast
  let ?a1 = "Assignment_append a requests psa"
  have p0: "Flavors \<lparr>PodSetAssignment_Name = PodSetResources_Name podSet, Flavors = [],
            Status = None, Requests = ToResourceList requests\<rparr> = []"
    "Status \<lparr>PodSetAssignment_Name = PodSetResources_Name podSet, Flavors = [],
            Status = None, Requests = ToResourceList requests\<rparr> = None"
    by simp_all
  note post = podSet_post [OF loop p0]
  have mn: "Flavors psa \<noteq> [] \<longrightarrow> PodSetAssignment_RepresentativeMode psa
             = Min ((\<lambda>(r, fa). Mode fa) ` set (Flavors psa))"
    using psa_ok_Min [OF post(1)] by blast
  have fit: "PodSetAssignment_RepresentativeMode psa = Fit \<longrightarrow> all_Fit podSet psa"
    if cq: "consistent cq"
  proof
    assume "PodSetAssignment_RepresentativeMode psa = Fit"
    with post(3) cq have f: "\<forall>r fa. map_of (Flavors psa) r = Some fa \<longrightarrow> Mode fa = Fit"
      and d: "fst ` set requests \<subseteq> dom (map_of (Flavors psa))" by blast+
    show "all_Fit podSet psa"
      unfolding all_Fit_def
    proof
      fix r
      assume "r \<in> fst ` set (PodSetResources_Requests podSet)"
      with podsRequest_keys [OF rq] d have "r \<in> dom (map_of (Flavors psa))" by blast
      then obtain fa where "map_of (Flavors psa) r = Some fa" by blast
      with f show "\<exists>fa. map_of (Flavors psa) r = Some fa \<and> Mode fa = Fit" by blast
    qed
  qed
  have fields: "PodSets ?a1 = PodSets a @ [psa]" "representativeMode ?a1 = representativeMode a"
    by (simp_all add: Assignment_append_fields)
  show ?case
  proof (cases "Status_IsError (Status psa) \<or> (length requests > 0 \<and> length (Flavors psa) = 0)")
    case True
    with step have a': "a' = ?a1\<lparr>TotalBorrow := Map.empty\<rparr>" by simp
    from True post(2) have nofit: "consistent cq \<longrightarrow> PodSetAssignment_RepresentativeMode psa = NoFit"
      by auto
    have "PodSets a' = PodSets a @ [psa]" "representativeMode a' = representativeMode a"
      using a' fields by simp_all
    with nofit mn show ?thesis
      by (intro exI [of _ "[psa]"]) simp
  next
    case False
    with step have "podSetsLoop k rf cq wl (Suc i) rest ?a1 = Inr a'" by simp
    from Cons.IH [OF this] obtain new where
      new: "PodSets a' = PodSets ?a1 @ new" "representativeMode a' = representativeMode ?a1"
        "length new \<le> length rest"
        "\<forall>ps\<in>set new. Flavors ps \<noteq> [] \<longrightarrow> PodSetAssignment_RepresentativeMode ps
             = Min ((\<lambda>(r, fa). Mode fa) ` set (Flavors ps))"
        "consistent cq \<longrightarrow> (\<forall>j<length new. PodSetAssignment_RepresentativeMode (new ! j) = Fit
            \<longrightarrow> all_Fit (rest ! j) (new ! j))"
        "consistent cq \<longrightarrow> length new < length rest \<longrightarrow>
           (\<exists>ps\<in>set new. PodSetAssignment_RepresentativeMode ps = NoFit)"
      by blast
    have a: "consistent cq \<longrightarrow>
        (\<forall>j<length (psa # new). PodSetAssignment_RepresentativeMode ((psa # new) ! j) = Fit
            \<longrightarrow> all_Fit ((podSet # rest) ! j) ((psa # new) ! j))"
    proof (intro allI impI)
      fix j
      assume "consistent cq" "j < length (psa # new)"
        "PodSetAssignment_RepresentativeMode ((psa # new) ! j) = Fit"
      with new(5) fit show "all_Fit ((podSet # rest) ! j) ((psa # new) ! j)"
        by (cases j) simp_all
    qed
    have b: "PodSets a' = PodSets a @ (psa # new)" "representativeMode a' = representativeMode a"
      using new(1,2) fields by simp_all
    have c: "length (psa # new) \<le> length (podSet # rest)"
      using new(3) by simp
    have d: "consistent cq \<longrightarrow> length (psa # new) < length (podSet # rest) \<longrightarrow>
           (\<exists>ps\<in>set (psa # new). PodSetAssignment_RepresentativeMode ps = NoFit)"
      using new(6) by auto
    have e: "\<forall>ps\<in>set (psa # new). Flavors ps \<noteq> [] \<longrightarrow> PodSetAssignment_RepresentativeMode ps
             = Min ((\<lambda>(r, fa). Mode fa) ` set (Flavors ps))"
      using new(4) mn by simp
    from a b c d e show ?thesis by blast
  qed
qed

lemma minimum_mode_Min: "ms \<noteq> [] \<Longrightarrow> minimum_mode ms = Min (set ms)"
  by (simp add: minimum_mode_def fold_min_Min Min_insert_Fit)

text \<open>
  Claim C1, amended. For every computed assignment: with at least one pod set, the
  representative mode is the minimum of the modes of its pod sets, and without pod sets
  it is NoFit; the mode of a pod set with at least one assigned flavor is the minimum of
  the modes of its assigned flavors, and a pod set with a status and no assigned flavor
  has mode NoFit. If the cluster queue is consistent (a resource that \<^verbatim>\<open>RGByResource\<close>
  maps to a group is among the covered resources of that group) and the representative
  mode is Fit, then every pod set of the workload has its assignment, and in it every
  requested resource has a flavor with mode Fit.
\<close>

theorem representativeMode_minimum:
  assumes "AssignFlavors k wl resourceFlavors cq = Inr a"
  shows "fst (Assignment_RepresentativeMode a) =
           (if PodSets a = [] then NoFit
            else Min (PodSetAssignment_RepresentativeMode ` set (PodSets a)))
    \<and> (\<forall>ps\<in>set (PodSets a).
          (Flavors ps \<noteq> [] \<longrightarrow> PodSetAssignment_RepresentativeMode ps
             = Min ((\<lambda>(r, fa). Mode fa) ` set (Flavors ps)))
          \<and> (Flavors ps = [] \<and> Status ps \<noteq> None \<longrightarrow>
               PodSetAssignment_RepresentativeMode ps = NoFit))
    \<and> (consistent cq \<and> fst (Assignment_RepresentativeMode a) = Fit \<longrightarrow>
          length (PodSets a) = length (TotalRequests wl)
          \<and> (\<forall>j<length (TotalRequests wl). all_Fit (TotalRequests wl ! j) (PodSets a ! j)))"
proof -
  from podSetsLoop_inv [OF assms [unfolded AssignFlavors_def]]
  have rm: "representativeMode a = None"
    and len: "length (PodSets a) \<le> length (TotalRequests wl)"
    and mn: "\<forall>ps\<in>set (PodSets a). Flavors ps \<noteq> [] \<longrightarrow> PodSetAssignment_RepresentativeMode ps
             = Min ((\<lambda>(r, fa). Mode fa) ` set (Flavors ps))"
    and fit: "consistent cq \<longrightarrow> (\<forall>j<length (PodSets a).
            PodSetAssignment_RepresentativeMode (PodSets a ! j) = Fit
              \<longrightarrow> all_Fit (TotalRequests wl ! j) (PodSets a ! j))"
    and nofit: "consistent cq \<longrightarrow> length (PodSets a) < length (TotalRequests wl) \<longrightarrow>
           (\<exists>ps\<in>set (PodSets a). PodSetAssignment_RepresentativeMode ps = NoFit)"
    by auto
  note rmin = Assignment_RepresentativeMode_Min [OF rm]
  have p2: "\<forall>ps\<in>set (PodSets a).
          (Flavors ps \<noteq> [] \<longrightarrow> PodSetAssignment_RepresentativeMode ps
             = Min ((\<lambda>(r, fa). Mode fa) ` set (Flavors ps)))
          \<and> (Flavors ps = [] \<and> Status ps \<noteq> None \<longrightarrow>
               PodSetAssignment_RepresentativeMode ps = NoFit)"
    using mn by (auto simp: PodSetAssignment_RepresentativeMode_def)
  have p3: "length (PodSets a) = length (TotalRequests wl)
          \<and> (\<forall>j<length (TotalRequests wl). all_Fit (TotalRequests wl ! j) (PodSets a ! j))"
    if cq: "consistent cq" and f: "fst (Assignment_RepresentativeMode a) = Fit"
  proof -
    define S where "S = PodSetAssignment_RepresentativeMode ` set (PodSets a)"
    from f rmin have ne: "PodSets a \<noteq> []" and minS: "Min S = Fit"
      by (auto simp: S_def split: if_splits)
    have fin: "finite S" and neS: "S \<noteq> {}"
      using ne by (simp_all add: S_def)
    have all: "PodSetAssignment_RepresentativeMode ps = Fit" if "ps \<in> set (PodSets a)" for ps
    proof -
      from that have "PodSetAssignment_RepresentativeMode ps \<in> S" by (simp add: S_def)
      from Min_Fit_all [OF fin neS minS this] show ?thesis .
    qed
    then have "\<not> (\<exists>ps\<in>set (PodSets a). PodSetAssignment_RepresentativeMode ps = NoFit)"
      by auto
    with nofit cq len have l: "length (PodSets a) = length (TotalRequests wl)" by auto
    moreover have "all_Fit (TotalRequests wl ! j) (PodSets a ! j)"
      if "j < length (TotalRequests wl)" for j
      using fit cq that l all [of "PodSets a ! j"] by simp
    ultimately show ?thesis by blast
  qed
  from rmin p2 p3 show ?thesis by blast
qed

text \<open>
  The representative mode of the assignment of a workload without pod sets is NoFit,
  while the minimum of no mode is Fit; and a pod set that has a status and no assigned
  flavor has mode NoFit, while the minimum over no flavor is Fit.
\<close>

theorem representativeMode_minimum_counterexample:
  "AssignFlavors k0 wl_empty rf0 cq_one_two = Inr a_empty
   \<and> fst (Assignment_RepresentativeMode a_empty) = NoFit
   \<and> minimum_mode (map PodSetAssignment_RepresentativeMode (PodSets a_empty)) = Fit
   \<and> map_sum id PodSets (AssignFlavors k0 (wl_cpu_gpu 1000) rf0 cq_one_two) = Inr [psa_unavailable]
   \<and> PodSetAssignment_RepresentativeMode psa_unavailable = NoFit
   \<and> minimum_mode (map (\<lambda>(r, fa). Mode fa) (Flavors psa_unavailable)) = Fit"
  by (simp add: eval_defs wl_cpu_gpu_def cq_one_two_def rg_one_two_def rf0_def spec0_def k0_def
      wl_empty_def a_empty_def psa_unavailable_def minimum_mode_def)

lemma consistent_cq_one_two: "consistent cq_one_two"
  by (auto simp: consistent_def cq_one_two_def rg_one_two_def split: if_splits)

theorem representativeMode_minimum_witness:
  "AssignFlavors k0 (wl_cpu 2000) rf0 cq_one_two = Inr a_fit
   \<and> consistent cq_one_two
   \<and> fst (Assignment_RepresentativeMode a_fit) = Fit
   \<and> length (PodSets a_fit) = length (TotalRequests (wl_cpu 2000))
   \<and> all_Fit (TotalRequests (wl_cpu 2000) ! 0) (PodSets a_fit ! 0)"
proof -
  have a: "AssignFlavors k0 (wl_cpu 2000) rf0 cq_one_two = Inr a_fit"
    by (simp add: eval_defs wl_cpu_def cq_one_two_def rg_one_two_def rf0_def spec0_def k0_def
        a_fit_def)
  have f: "fst (Assignment_RepresentativeMode a_fit) = Fit"
    by (simp add: eval_defs a_fit_def)
  from representativeMode_minimum [OF a] consistent_cq_one_two f
  have "length (PodSets a_fit) = length (TotalRequests (wl_cpu 2000))
          \<and> (\<forall>j<length (TotalRequests (wl_cpu 2000)).
                all_Fit (TotalRequests (wl_cpu 2000) ! j) (PodSets a_fit ! j))"
    by blast
  then have "length (PodSets a_fit) = length (TotalRequests (wl_cpu 2000))
          \<and> all_Fit (TotalRequests (wl_cpu 2000) ! 0) (PodSets a_fit ! 0)"
    by (simp add: wl_cpu_def)
  with a f consistent_cq_one_two show ?thesis by blast
qed

subsection \<open>A requested resource outside the resource groups\<close>

text \<open>
  A flavor is only ever assigned to a resource that a resource group covers.
\<close>

lemma uncovered_no_flavor:
  assumes "psa_ok k u cq requests psa"
    and "\<forall>rg\<in>ran (RGByResource cq). resName \<notin> CoveredResources rg"
  shows "map_of (Flavors psa) resName = None"
proof (cases "map_of (Flavors psa) resName")
  case None
  then show ?thesis .
next
  case (Some fa)
  with assms(1) have "assigned k u cq requests resName fa"
    by (simp add: psa_ok_def)
  with assms(2) show ?thesis
    by (auto simp: assigned_def)
qed

text \<open>
  Claim C8, amended. A pod set requests a resource that no resource group of the cluster
  queue covers, \<^verbatim>\<open>RGByResource\<close> mapping each resource to a group that covers it. Then
  the loop over its requests, in whatever order it visits them, leaves the pod set
  assignment without flavors and with a status, and its mode is NoFit. When every
  resource visited before the uncovered one got a flavor, the status has the single
  reason "resource ... unavailable in ClusterQueue", whatever the resources after it
  are: they are not visited. When a resource visited before it (every resource earlier
  still having got a flavor) gets no flavors from its resource group, or an error, the
  loop ends there, and the status is the one that the search of that group returned.
\<close>

theorem resource_unavailable:
  assumes unc: "\<forall>rg\<in>ran (RGByResource cq). resName \<notin> CoveredResources rg"
    and con: "consistent cq"
    and req: "(resName, v) \<in> set requests"
    and psa0: "Flavors psa0 = []" "Status psa0 = None"
    and loop: "resourcesLoop k a rf cq wl i requests requests psa0 = Inr psa"
  shows "Flavors psa = [] \<and> Status psa \<noteq> None
    \<and> PodSetAssignment_RepresentativeMode psa = NoFit
    \<and> (\<forall>pre rest psa1. requests = pre @ (resName, v) # rest
          \<longrightarrow> resourcesLoop k a rf cq wl i requests pre psa0 = Inr psa1
          \<longrightarrow> (\<forall>r\<in>fst ` set pre. map_of (Flavors psa1) r \<noteq> None)
          \<longrightarrow> psa = psa1\<lparr>Flavors := [],
                          Status := Some \<lparr>reasons = [resourceUnavailableMsg resName],
                                          err = None\<rparr>\<rparr>)
    \<and> (\<forall>pre r v' rest psa1 rg ps flavors status. requests = pre @ (r, v') # rest
          \<longrightarrow> resourcesLoop k a rf cq wl i requests pre psa0 = Inr psa1
          \<longrightarrow> (\<forall>x\<in>fst ` set pre. map_of (Flavors psa1) x \<noteq> None)
          \<longrightarrow> map_of (Flavors psa1) r = None
          \<longrightarrow> RGByResource cq r = Some rg
          \<longrightarrow> index (Obj_Spec_PodSets wl) i = Inr ps
          \<longrightarrow> findFlavorForResourceGroup k (usage a) rg requests rf cq (Template_Spec ps)
                = Inr (flavors, status)
          \<longrightarrow> Status_IsError status \<or> flavors = []
          \<longrightarrow> psa = psa1\<lparr>Flavors := [], Status := status\<rparr>)"
proof -
  have ok0: "psa_ok k (usage a) cq requests psa0" "\<not> Status_IsError (Status psa0)"
    using psa0 by (simp_all add: psa_ok_def Status_IsError_def)
  have ne: "requests \<noteq> []"
    using req by auto
  have none: "RGByResource cq resName = None"
  proof (cases "RGByResource cq resName")
    case None
    then show ?thesis .
  next
    case (Some rg)
    then have "rg \<in> ran (RGByResource cq)" "resName \<in> CoveredResources rg"
      using con by (auto simp: ran_def consistent_def)
    with unc show ?thesis by blast
  qed
  from resourcesLoop_inv [OF loop subset_refl ok0] con psa0
  have ok: "psa_ok k (usage a) cq requests psa"
    and ks: "Flavors psa \<noteq> [] \<longrightarrow> fst ` set requests \<subseteq> dom (map_of (Flavors psa))"
    and st: "Status psa = None \<longrightarrow> requests \<noteq> [] \<longrightarrow> Flavors psa \<noteq> []"
    by auto
  from uncovered_no_flavor [OF ok unc] have "resName \<notin> dom (map_of (Flavors psa))"
    by auto
  moreover have "resName \<in> fst ` set requests"
    using req by force
  ultimately have fl: "Flavors psa = []"
    using ks by blast
  with st ne have sn: "Status psa \<noteq> None"
    by blast
  from podSet_post(2) [OF loop psa0] con ne fl
  have nf: "PodSetAssignment_RepresentativeMode psa = NoFit"
    by simp
  have two: "psa = psa1\<lparr>Flavors := [],
                  Status := Some \<lparr>reasons = [resourceUnavailableMsg resName], err = None\<rparr>\<rparr>"
    if split: "requests = pre @ (resName, v) # rest"
      and pre: "resourcesLoop k a rf cq wl i requests pre psa0 = Inr psa1"
      and got: "\<forall>r\<in>fst ` set pre. map_of (Flavors psa1) r \<noteq> None"
    for pre rest psa1
  proof -
    have "set pre \<subseteq> set requests"
      using split by auto
    from resourcesLoop_inv [OF pre this ok0]
    have "psa_ok k (usage a) cq requests psa1" by blast
    from uncovered_no_flavor [OF this unc]
    have n1: "map_of (Flavors psa1) resName = None" .
    have "resourcesLoop k a rf cq wl i requests (pre @ (resName, v) # rest) psa0
            = resourcesLoop k a rf cq wl i requests ((resName, v) # rest) psa1"
      using pre got by (rule resourcesLoop_prefix)
    also have "\<dots> = Inr (psa1\<lparr>Flavors := [],
                  Status := Some \<lparr>reasons = [resourceUnavailableMsg resName], err = None\<rparr>\<rparr>)"
      using n1 none by simp
    finally show ?thesis
      using loop unfolding split [symmetric] by simp
  qed
  have three: "psa = psa1\<lparr>Flavors := [], Status := status\<rparr>"
    if split: "requests = pre @ (r, v') # rest"
      and pre: "resourcesLoop k a rf cq wl i requests pre psa0 = Inr psa1"
      and got: "\<forall>x\<in>fst ` set pre. map_of (Flavors psa1) x \<noteq> None"
      and n1: "map_of (Flavors psa1) r = None"
      and rg: "RGByResource cq r = Some rg"
      and ps: "index (Obj_Spec_PodSets wl) i = Inr ps"
      and ff: "findFlavorForResourceGroup k (usage a) rg requests rf cq (Template_Spec ps)
                = Inr (flavors, status)"
      and fail: "Status_IsError status \<or> flavors = []"
    for pre r v' rest psa1 rg ps flavors status
  proof -
    have "resourcesLoop k a rf cq wl i requests (pre @ (r, v') # rest) psa0
            = resourcesLoop k a rf cq wl i requests ((r, v') # rest) psa1"
      using pre got by (rule resourcesLoop_prefix)
    also have "\<dots> = Inr (psa1\<lparr>Flavors := [], Status := status\<rparr>)"
      using n1 rg ps ff fail by auto
    finally show ?thesis
      using loop unfolding split [symmetric] by simp
  qed
  from fl sn nf two three show ?thesis
    by blast
qed

theorem resource_unavailable_witness:
  "resourcesLoop k0 a_empty rf0 cq_one_two (wl_cpu_gpu 1000) 0
     [(''cpu'', 1000), (''example.com/gpu'', 2)] [(''cpu'', 1000), (''example.com/gpu'', 2)]
     \<lparr>PodSetAssignment_Name = ''main'', Flavors = [], Status = None,
      Requests = ToResourceList [(''cpu'', 1000), (''example.com/gpu'', 2)]\<rparr>
     = Inr psa_unavailable
   \<and> consistent cq_one_two
   \<and> Flavors psa_unavailable = [] \<and> Status psa_unavailable \<noteq> None
   \<and> PodSetAssignment_RepresentativeMode psa_unavailable = NoFit
   \<and> psa_unavailable =
       \<lparr>PodSetAssignment_Name = ''main'',
        Flavors = [(''cpu'', \<lparr>Name = ''one'', Mode = Fit, borrow = 0\<rparr>)], Status = None,
        Requests = ToResourceList [(''cpu'', 1000), (''example.com/gpu'', 2)]\<rparr>
       \<lparr>Flavors := [],
        Status := Some \<lparr>reasons = [resourceUnavailableMsg ''example.com/gpu''], err = None\<rparr>\<rparr>"
proof -
  define reqs :: "(ResourceName \<times> int64) list"
    where "reqs = [(''cpu'', 1000), (''example.com/gpu'', 2)]"
  define psa0 where "psa0 = \<lparr>PodSetAssignment_Name = ''main'', Flavors = [], Status = None,
                Requests = ToResourceList reqs\<rparr>"
  define psa1 where "psa1 = psa0\<lparr>Flavors := [(''cpu'', \<lparr>Name = ''one'', Mode = Fit, borrow = 0\<rparr>)]\<rparr>"
  have loop: "resourcesLoop k0 a_empty rf0 cq_one_two (wl_cpu_gpu 1000) 0 reqs reqs psa0
                = Inr psa_unavailable"
    by (simp add: eval_defs reqs_def psa0_def psa_unavailable_def a_empty_def wl_cpu_gpu_def
        cq_one_two_def rg_one_two_def rf0_def spec0_def k0_def)
  have pre: "resourcesLoop k0 a_empty rf0 cq_one_two (wl_cpu_gpu 1000) 0 reqs [(''cpu'', 1000)] psa0
               = Inr psa1"
    by (simp add: eval_defs reqs_def psa0_def psa1_def a_empty_def wl_cpu_gpu_def
        cq_one_two_def rg_one_two_def rf0_def spec0_def k0_def)
  have unc: "\<forall>rg\<in>ran (RGByResource cq_one_two). ''example.com/gpu'' \<notin> CoveredResources rg"
    by (simp add: cq_one_two_def rg_one_two_def)
  have req: "(''example.com/gpu'', 2) \<in> set reqs"
    by (simp add: reqs_def)
  have p0: "Flavors psa0 = []" "Status psa0 = None"
    by (simp_all add: psa0_def)
  have got: "\<forall>r\<in>fst ` set [(''cpu'', 1000 :: int64)]. map_of (Flavors psa1) r \<noteq> None"
    by (simp add: psa1_def)
  have split: "reqs = [(''cpu'', 1000)] @ (''example.com/gpu'', 2) # []"
    by (simp add: reqs_def)
  from resource_unavailable [OF unc consistent_cq_one_two req p0 loop] split pre got
  have "Flavors psa_unavailable = [] \<and> Status psa_unavailable \<noteq> None
    \<and> PodSetAssignment_RepresentativeMode psa_unavailable = NoFit
    \<and> psa_unavailable = psa1\<lparr>Flavors := [],
          Status := Some \<lparr>reasons = [resourceUnavailableMsg ''example.com/gpu''], err = None\<rparr>\<rparr>"
    by blast
  with loop consistent_cq_one_two show ?thesis
    unfolding reqs_def psa0_def psa1_def by simp
qed

subsection \<open>The usage of a workload that fits\<close>

text \<open>
  What \<^verbatim>\<open>Assignment.append\<close> adds to the usage of a flavor and a resource.
\<close>

lemma qty_frq_set:
  "qty (frq_set m f r v) f' r' = (if f' = f \<and> r' = r then v else qty m f' r')"
  by (auto simp: qty_def frq_set_def split: option.splits)

lemma fold_usage:
  fixes requests :: "(ResourceName \<times> int64) list"
  defines "g \<equiv> (\<lambda>(resource, flvAssignment) a.
             let a = (if slt64 0 (borrow flvAssignment)
                      then a\<lparr>TotalBorrow := frq_set (TotalBorrow a) (Name flvAssignment) resource
                                                (borrow flvAssignment)\<rparr>
                      else a)
             in a\<lparr>usage := frq_set (usage a) (Name flvAssignment) resource
                              (qty (usage a) (Name flvAssignment) resource
                                 + requests_get requests resource)\<rparr>)"
  assumes "distinct (map fst fl)"
  shows "qty (usage (fold g fl a)) f r =
     (case map_of fl r of
        None \<Rightarrow> qty (usage a) f r
      | Some fa \<Rightarrow> if Name fa = f then qty (usage a) f r + requests_get requests r
                   else qty (usage a) f r)"
  using assms(2)
proof (induction fl arbitrary: a)
  case Nil
  then show ?case by simp
next
  case (Cons x fl)
  obtain r1 fa1 where x: "x = (r1, fa1)" by (cases x)
  have u: "usage (g (r1, fa1) a) = frq_set (usage a) (Name fa1) r1
             (qty (usage a) (Name fa1) r1 + requests_get requests r1)"
    by (simp add: g_def Let_def)
  from Cons.prems x have d: "distinct (map fst fl)" and n: "r1 \<notin> fst ` set fl"
    by auto
  have m: "r = r1 \<Longrightarrow> map_of fl r = None"
    using n by (simp add: map_of_eq_None_iff)
  show ?case
    using Cons.IH [OF d, of "g (r1, fa1) a"] m
    by (auto simp: x u qty_frq_set split: option.splits)
qed

lemma Assignment_append_usage:
  assumes "distinct (map fst (Flavors psa))"
  shows "qty (usage (Assignment_append a requests psa)) f r =
     (case map_of (Flavors psa) r of
        None \<Rightarrow> qty (usage a) f r
      | Some fa \<Rightarrow> if Name fa = f then qty (usage a) f r + requests_get requests r
                   else qty (usage a) f r)"
  unfolding Assignment_append_def
  by (subst fold_usage [OF assms]) (simp split: option.splits)

lemma fitsResourceQuota_Fit:
  assumes fit: "fitsResourceQuota k f r val cq q = (Fit, b, s)"
    and uv: "in64 (sint (qty (Usage cq) f r) + sint val)"
    and bl: "\<forall>bl. BorrowingLimit q = Some bl \<longrightarrow> in64 (sint (Nominal q) + sint bl)"
    and lack: "in64 ((case Cohort cq of None \<Rightarrow> sint (qty (Usage cq) f r)
                       | Some c \<Rightarrow> sint (qty (Cohort_Usage c) f r)) + sint val
                     - (case Cohort cq of None \<Rightarrow> sint (Nominal q)
                        | Some c \<Rightarrow> sint (qty (RequestableResources c) f r)))"
  shows "within_quota cq f r (sint val) q"
proof -
  have uv': "sint (qty (Usage cq) f r + val) = sint (qty (Usage cq) f r) + sint val"
    using uv by (rule sint_add64)
  have c: "(if sle64 val (Nominal q) then Preempt else NoFit) \<noteq> Fit"
    by simp
  have one: "sint (qty (Usage cq) f r) + sint val \<le> sint (Nominal q) + sint x"
    if x: "BorrowingLimit q = Some x" for x
  proof -
    from bl x have "in64 (sint (Nominal q) + sint x)" by simp
    then have "sint (Nominal q + x) = sint (Nominal q) + sint x"
      by (rule sint_add64)
    moreover have "\<not> slt64 (Nominal q + x) (qty (Usage cq) f r + val)"
      using fit x c by (auto simp: fitsResourceQuota_def Let_def split: if_splits)
    ultimately show ?thesis
      using uv' by (simp add: slt64_def)
  qed
  have two: "(case Cohort cq of
            None \<Rightarrow> sint (qty (Usage cq) f r) + sint val \<le> sint (Nominal q)
          | Some c \<Rightarrow> sint (qty (Cohort_Usage c) f r) + sint val
                        \<le> sint (qty (RequestableResources c) f r))"
  proof (cases "Cohort cq")
    case None
    with lack have "sint (qty (Usage cq) f r + val - Nominal q)
                      = sint (qty (Usage cq) f r) + sint val - sint (Nominal q)"
      by (simp add: sint_add_sub64)
    moreover have "sle64 (qty (Usage cq) f r + val - Nominal q) 0"
      using fit None c by (auto simp: fitsResourceQuota_def Let_def split: if_splits option.splits)
    ultimately show ?thesis
      using None by (simp add: sle64_def)
  next
    case (Some co)
    with lack have "sint (qty (Cohort_Usage co) f r + val - qty (RequestableResources co) f r)
                      = sint (qty (Cohort_Usage co) f r) + sint val
                        - sint (qty (RequestableResources co) f r)"
      by (simp add: sint_add_sub64)
    moreover have "sle64 (qty (Cohort_Usage co) f r + val - qty (RequestableResources co) f r) 0"
      using fit Some c by (auto simp: fitsResourceQuota_def Let_def split: if_splits option.splits)
    ultimately show ?thesis
      using Some by (simp add: sle64_def)
  qed
  from one two show ?thesis
    by (simp add: within_quota_def split: option.splits)
qed

lemma within_quota_small:
  assumes qs: "quotas_small cq"
    and fq: "flavor_quota cq f r q"
    and wq: "within_quota cq f r us q"
  shows "us < 2 ^ 61"
proof -
  from qs fq have n: "small_quantity (Nominal q)"
    by (auto simp: quotas_small_def flavor_quota_def)
  from qs have u: "small_quantity (qty (Usage cq) f r)"
    by (simp add: quotas_small_def)
  show ?thesis
  proof (cases "Cohort cq")
    case None
    with wq have "sint (qty (Usage cq) f r) + us \<le> sint (Nominal q)"
      by (simp add: within_quota_def)
    with n u show ?thesis
      by (simp add: small_quantity_def)
  next
    case (Some c)
    with wq have "sint (qty (Cohort_Usage c) f r) + us
                    \<le> sint (qty (RequestableResources c) f r)"
      by (simp add: within_quota_def)
    moreover from qs Some have "small_quantity (qty (Cohort_Usage c) f r)"
      "small_quantity (qty (RequestableResources c) f r)"
      by (simp_all add: quotas_small_def)
    ultimately show ?thesis
      by (simp add: small_quantity_def)
  qed
qed

lemma usage_inv_small:
  assumes "usage_inv cq wl a" "quotas_small cq"
  shows "0 \<le> sint (qty (usage a) f r) \<and> sint (qty (usage a) f r) < 2 ^ 61"
proof -
  from assms(1) have eq: "sint (qty (usage a) f r) = flavor_usage cq wl a f r"
    unfolding usage_inv_def by blast
  show ?thesis
  proof (cases "flavor_used a f r")
    case True
    with assms(1) obtain q where "0 \<le> flavor_usage cq wl a f r" "flavor_quota cq f r q"
      "within_quota cq f r (flavor_usage cq wl a f r) q"
      unfolding usage_inv_def by metis
    with within_quota_small [OF assms(2)] show ?thesis
      unfolding eq by blast
  next
    case False
    with assms(1) have "flavor_usage cq wl a f r = 0"
      unfolding usage_inv_def by metis
    then show ?thesis unfolding eq by simp
  qed
qed

lemma psa_Fit_modes:
  assumes ok: "psa_ok k u cq requests psa"
    and fit: "PodSetAssignment_RepresentativeMode psa = Fit"
    and fa: "map_of (Flavors psa) r = Some fa"
  shows "Mode fa = Fit"
proof -
  define S where "S = (\<lambda>(r, fa). Mode fa) ` set (Flavors psa)"
  from fa have ne: "Flavors psa \<noteq> []" by auto
  from fa have "(r, fa) \<in> set (Flavors psa)" by (rule map_of_SomeD)
  then have mem: "Mode fa \<in> S" by (force simp: S_def)
  have fin: "finite S" and ne': "S \<noteq> {}"
    using ne by (simp_all add: S_def)
  from psa_ok_Min [OF ok ne] fit have "Min S = Fit"
    by (simp add: S_def)
  from Min_Fit_all [OF fin ne' this mem] show ?thesis .
qed

lemma fitted_within:
  assumes qs: "quotas_small cq"
    and rg: "rg \<in> ran (RGByResource cq)" "fq \<in> set (ResourceGroup_Flavors rg)"
    and cov: "r \<in> CoveredResources rg"
    and ft: "fitted k u cq fq requests r fa"
    and fit: "Mode fa = Fit"
    and dist: "distinct (map fst requests)"
    and sm: "\<forall>rv\<in>set requests. small_quantity (snd rv)"
    and us: "0 \<le> sint (qty u (Name fa) r)" "sint (qty u (Name fa) r) < 2 ^ 61"
  shows "sint (qty u (Name fa) r + requests_get requests r)
           = sint (qty u (Name fa) r) + sint (requests_get requests r)
    \<and> 0 \<le> sint (requests_get requests r)
    \<and> (\<exists>q. flavor_quota cq (Name fa) r q
           \<and> within_quota cq (Name fa) r
                (sint (qty u (Name fa) r) + sint (requests_get requests r)) q)"
proof -
  from ft fit obtain v q s where v: "(r, v) \<in> set requests"
    and q: "Resources fq r = Some q"
    and nm: "Name fa = FlavorQuotas_Name fq"
    and fr: "fitsResourceQuota k (Name fa) r (v + qty u (Name fa) r) cq q = (Fit, borrow fa, s)"
    by (auto simp: fitted_def)
  from v dist have "map_of requests r = Some v" by simp
  then have rg_v: "requests_get requests r = v"
    by (simp add: requests_get_def)
  from v sm have sv: "0 \<le> sint v" "sint v < 2 ^ 61"
    by (auto simp: small_quantity_def)
  have fquota: "flavor_quota cq (Name fa) r q"
    using rg cov q nm by (auto simp: flavor_quota_def)
  from qs rg q have nq: "small_quantity (Nominal q)"
    and bq: "\<forall>bl. BorrowingLimit q = Some bl \<longrightarrow> small_quantity bl"
    by (auto simp: quotas_small_def)
  from qs have uq: "small_quantity (qty (Usage cq) (Name fa) r)"
    by (simp add: quotas_small_def)
  have "in64 (sint v + sint (qty u (Name fa) r))"
    using sv us by (simp add: in64_def)
  then have val: "sint (v + qty u (Name fa) r) = sint v + sint (qty u (Name fa) r)"
    by (rule sint_add64)
  have r1: "in64 (sint (qty (Usage cq) (Name fa) r) + sint (v + qty u (Name fa) r))"
    using uq sv us unfolding val by (simp add: in64_def small_quantity_def)
  have r2: "\<forall>bl. BorrowingLimit q = Some bl \<longrightarrow> in64 (sint (Nominal q) + sint bl)"
    using nq bq by (auto simp: in64_def small_quantity_def)
  have r3: "in64 ((case Cohort cq of None \<Rightarrow> sint (qty (Usage cq) (Name fa) r)
                       | Some c \<Rightarrow> sint (qty (Cohort_Usage c) (Name fa) r))
                   + sint (v + qty u (Name fa) r)
                   - (case Cohort cq of None \<Rightarrow> sint (Nominal q)
                        | Some c \<Rightarrow> sint (qty (RequestableResources c) (Name fa) r)))"
  proof (cases "Cohort cq")
    case None
    then show ?thesis
      using uq nq sv us unfolding val by (simp add: in64_def small_quantity_def)
  next
    case (Some c)
    with qs have "small_quantity (qty (Cohort_Usage c) (Name fa) r)"
      "small_quantity (qty (RequestableResources c) (Name fa) r)"
      by (simp_all add: quotas_small_def)
    with Some show ?thesis
      using sv us unfolding val by (simp add: in64_def small_quantity_def)
  qed
  from fitsResourceQuota_Fit [OF fr r1 r2 r3]
  have "within_quota cq (Name fa) r (sint v + sint (qty u (Name fa) r)) q"
    unfolding val .
  then have "within_quota cq (Name fa) r (sint (qty u (Name fa) r) + sint v) q"
    by (simp add: add.commute)
  moreover have "sint (qty u (Name fa) r + v) = sint (qty u (Name fa) r) + sint v"
    using val by (simp add: add.commute)
  ultimately show ?thesis
    using fquota sv unfolding rg_v by blast
qed

lemma flavor_usage_append:
  assumes ps: "PodSets a' = PodSets a @ [psa]"
  shows "flavor_usage cq wl a' f r = flavor_usage cq wl a f r
           + podSet_usage (podsRequest cq wl (length (PodSets a))
                             (TotalRequests wl ! length (PodSets a))) psa f r"
proof -
  have "(\<Sum>j<length (PodSets a).
           podSet_usage (podsRequest cq wl j (TotalRequests wl ! j)) ((PodSets a @ [psa]) ! j) f r)
        = (\<Sum>j<length (PodSets a).
           podSet_usage (podsRequest cq wl j (TotalRequests wl ! j)) (PodSets a ! j) f r)"
    by (rule sum.cong) (simp_all add: nth_append)
  then show ?thesis
    by (simp add: flavor_usage_def ps)
qed

lemma usage_inv_append:
  assumes inv: "(\<forall>ps\<in>set (PodSets a). PodSetAssignment_RepresentativeMode ps = Fit)
                  \<longrightarrow> usage_inv cq wl a"
    and ok: "psa_ok k (usage a) cq requests psa"
    and pr: "podsRequest cq wl (length (PodSets a)) (TotalRequests wl ! length (PodSets a))
               = Inr requests"
    and dist: "distinct (map fst requests)"
    and sm: "\<forall>rv\<in>set requests. small_quantity (snd rv)"
    and qs: "quotas_small cq"
    and all: "\<forall>ps\<in>set (PodSets (Assignment_append a requests psa)).
                PodSetAssignment_RepresentativeMode ps = Fit"
  shows "usage_inv cq wl (Assignment_append a requests psa)"
proof -
  let ?a' = "Assignment_append a requests psa"
  have ps: "PodSets ?a' = PodSets a @ [psa]"
    by (simp add: Assignment_append_fields)
  from all have fit: "PodSetAssignment_RepresentativeMode psa = Fit"
    and "\<forall>ps\<in>set (PodSets a). PodSetAssignment_RepresentativeMode ps = Fit"
    unfolding ps by simp_all
  with inv have ia: "usage_inv cq wl a" by blast
  from ok have d: "distinct (map fst (Flavors psa))"
    by (simp add: psa_ok_def)
  have used: "flavor_used ?a' f r
     = (flavor_used a f r \<or> (\<exists>fa. map_of (Flavors psa) r = Some fa \<and> Name fa = f))" for f r
    by (auto simp: flavor_used_def ps)
  have fu: "flavor_usage cq wl ?a' f r
              = flavor_usage cq wl a f r + podSet_usage (Inr requests) psa f r" for f r
    using flavor_usage_append [OF ps] pr by simp
  have old: "sint (qty (usage a) f r) = flavor_usage cq wl a f r" for f r
    using ia unfolding usage_inv_def by blast
  have "sint (qty (usage ?a') f r) = flavor_usage cq wl ?a' f r
        \<and> (if flavor_used ?a' f r
        then 0 \<le> flavor_usage cq wl ?a' f r
             \<and> (\<exists>q. flavor_quota cq f r q
                    \<and> within_quota cq f r (flavor_usage cq wl ?a' f r) q)
        else flavor_usage cq wl ?a' f r = 0)" for f r
  proof (cases "\<exists>fa. map_of (Flavors psa) r = Some fa \<and> Name fa = f")
    case True
    then obtain fa where fa: "map_of (Flavors psa) r = Some fa" "Name fa = f"
      by blast
    from psa_Fit_modes [OF ok fit fa(1)] have m: "Mode fa = Fit" .
    from ok fa(1) have "assigned k (usage a) cq requests r fa"
      by (simp add: psa_ok_def)
    then obtain rg fq where rg: "rg \<in> ran (RGByResource cq)" "r \<in> CoveredResources rg"
      "fq \<in> set (ResourceGroup_Flavors rg)" "fitted k (usage a) cq fq requests r fa"
      by (auto simp: assigned_def)
    from usage_inv_small [OF ia qs, of "Name fa" r]
    have us: "0 \<le> sint (qty (usage a) (Name fa) r)" "sint (qty (usage a) (Name fa) r) < 2 ^ 61"
      by simp_all
    have eq: "qty (usage ?a') f r = qty (usage a) (Name fa) r + requests_get requests r"
      using fa by (simp add: Assignment_append_usage [OF d])
    have pu: "podSet_usage (Inr requests) psa f r = sint (requests_get requests r)"
      using fa by (simp add: podSet_usage_def)
    from fitted_within [OF qs rg(1,3,2,4) m dist sm us]
    have a1: "sint (qty (usage a) (Name fa) r + requests_get requests r)
           = sint (qty (usage a) (Name fa) r) + sint (requests_get requests r)"
      and a2: "0 \<le> sint (requests_get requests r)"
      and a3: "\<exists>q. flavor_quota cq (Name fa) r q
           \<and> within_quota cq (Name fa) r
                (sint (qty (usage a) (Name fa) r) + sint (requests_get requests r)) q"
      by blast+
    have tot: "flavor_usage cq wl ?a' f r
                 = sint (qty (usage a) (Name fa) r) + sint (requests_get requests r)"
      unfolding fu pu using old [of "Name fa" r] fa(2) by simp
    have "sint (qty (usage ?a') f r) = flavor_usage cq wl ?a' f r"
      unfolding eq a1 tot ..
    moreover have "0 \<le> flavor_usage cq wl ?a' f r"
      unfolding tot using us(1) a2 by simp
    moreover have "\<exists>q. flavor_quota cq f r q
                    \<and> within_quota cq f r (flavor_usage cq wl ?a' f r) q"
      unfolding tot using a3 fa(2) by simp
    moreover have "flavor_used ?a' f r"
      unfolding used using True by blast
    ultimately show ?thesis
      by simp
  next
    case False
    then have eq: "qty (usage ?a') f r = qty (usage a) f r"
      by (auto simp: Assignment_append_usage [OF d] split: option.splits)
    from False have pu: "podSet_usage (Inr requests) psa f r = 0"
      by (auto simp: podSet_usage_def split: option.splits)
    from False have "flavor_used ?a' f r = flavor_used a f r"
      unfolding used by blast
    with ia show ?thesis
      unfolding eq fu pu usage_inv_def by simp
  qed
  then show ?thesis
    unfolding usage_inv_def by blast
qed

lemma usage_inv_cong:
  "PodSets b = PodSets a \<Longrightarrow> usage b = usage a \<Longrightarrow> usage_inv cq wl b = usage_inv cq wl a"
  by (simp add: usage_inv_def flavor_used_def flavor_usage_def)

lemma update_small:
  fixes al :: "(ResourceName \<times> int64) list"
  assumes "\<forall>rv\<in>set al. small_quantity (snd rv)" "small_quantity v"
  shows "\<forall>rv\<in>set (AList.update k v al). small_quantity (snd rv)"
  using assms by (induction al) auto

lemma podsRequest_small:
  assumes pr: "podsRequest cq wl i podSet = Inr requests"
    and d: "distinct (map fst (PodSetResources_Requests podSet))"
    and s: "\<forall>rv\<in>set (PodSetResources_Requests podSet). small_quantity (snd rv)"
    and c: "\<forall>p\<in>set (Obj_Spec_PodSets wl). 0 \<le> sint (Count p)"
  shows "distinct (map fst requests) \<and> (\<forall>rv\<in>set requests. small_quantity (snd rv))"
proof (cases "RGByResource cq ''pods'' = None")
  case True
  with pr d s show ?thesis by (simp add: podsRequest_def)
next
  case False
  with pr obtain ps :: PodSet where ps: "index (Obj_Spec_PodSets wl) i = Inr ps"
    and rq: "requests = AList.update ''pods'' (scast (Count ps)) (PodSetResources_Requests podSet)"
    by (cases "index (Obj_Spec_PodSets wl) i") (auto simp: podsRequest_def)
  from ps have "ps \<in> set (Obj_Spec_PodSets wl)"
    by (auto simp: index_def split: if_splits)
  with c have nn: "0 \<le> sint (Count ps)" by blast
  have up: "sint (scast (Count ps) :: int64) = sint (Count ps)"
    by (rule sint_up_scast) (simp add: is_up)
  have "sint (Count ps) < 2 ^ 31"
    using sint_lt [of "Count ps"] by simp
  then have "sint (Count ps) < 2 ^ 61"
    by simp
  with nn up have "small_quantity (scast (Count ps) :: int64)"
    by (simp add: small_quantity_def)
  from update_small [OF s this] d show ?thesis
    unfolding rq by (simp add: distinct_update)
qed

lemma podSetsLoop_usage:
  assumes "podSetsLoop k rf cq wl i todo a = Inr a'"
    and "quotas_small cq" and "requests_small wl"
    and "todo = drop i (TotalRequests wl)" and "length (PodSets a) = i"
    and "(\<forall>ps\<in>set (PodSets a). PodSetAssignment_RepresentativeMode ps = Fit)
           \<longrightarrow> usage_inv cq wl a"
  shows "(\<forall>ps\<in>set (PodSets a'). PodSetAssignment_RepresentativeMode ps = Fit)
           \<longrightarrow> usage_inv cq wl a'"
  using assms
proof (induction todo arbitrary: i a)
  case Nil
  then show ?case by simp
next
  case (Cons podSet rest)
  note qs = Cons.prems(2) and rs = Cons.prems(3) and len = Cons.prems(5) and inv = Cons.prems(6)
  from Cons.prems(4) have i: "i < length (TotalRequests wl)"
    by (cases "i < length (TotalRequests wl)") simp_all
  with Cons.prems(4) have pod: "podSet = TotalRequests wl ! i"
    and rest: "rest = drop (Suc i) (TotalRequests wl)"
    by (simp_all add: Cons_nth_drop_Suc [symmetric])
  from i pod have "podSet \<in> set (TotalRequests wl)" by simp
  with rs have d: "distinct (map fst (PodSetResources_Requests podSet))"
    and s: "\<forall>rv\<in>set (PodSetResources_Requests podSet). small_quantity (snd rv)"
    and c: "\<forall>p\<in>set (Obj_Spec_PodSets wl). 0 \<le> sint (Count p)"
    by (simp_all add: requests_small_def)
  from podSetsLoop_Cons_Inr [OF Cons.prems(1)]
  obtain requests psa where pr: "podsRequest cq wl i podSet = Inr requests"
    and loop: "resourcesLoop k a rf cq wl i requests requests
           \<lparr>PodSetAssignment_Name = PodSetResources_Name podSet, Flavors = [],
            Status = None, Requests = ToResourceList requests\<rparr> = Inr psa"
    and fin: "if Status_IsError (Status psa) \<or> (length requests > 0 \<and> length (Flavors psa) = 0)
         then a' = (Assignment_append a requests psa)\<lparr>TotalBorrow := Map.empty\<rparr>
         else podSetsLoop k rf cq wl (Suc i) rest (Assignment_append a requests psa) = Inr a'"
    by blast
  define a1 where "a1 = Assignment_append a requests psa"
  from podSet_post(1) [OF loop] have ok: "psa_ok k (usage a) cq requests psa"
    by simp
  from podsRequest_small [OF pr d s c]
  have dr: "distinct (map fst requests)" and sr: "\<forall>rv\<in>set requests. small_quantity (snd rv)"
    by simp_all
  have pr': "podsRequest cq wl (length (PodSets a)) (TotalRequests wl ! length (PodSets a))
               = Inr requests"
    using pr pod len by simp
  have inv1: "(\<forall>ps\<in>set (PodSets a1). PodSetAssignment_RepresentativeMode ps = Fit)
           \<longrightarrow> usage_inv cq wl a1"
    unfolding a1_def using usage_inv_append [OF inv ok pr' dr sr qs] by blast
  have len1: "length (PodSets a1) = Suc i"
    using len by (simp add: a1_def Assignment_append_fields)
  show ?case
  proof (cases "Status_IsError (Status psa) \<or> (length requests > 0 \<and> length (Flavors psa) = 0)")
    case True
    with fin have a': "a' = a1\<lparr>TotalBorrow := Map.empty\<rparr>"
      by (simp add: a1_def)
    have "usage_inv cq wl a' = usage_inv cq wl a1"
      unfolding a' by (rule usage_inv_cong) simp_all
    moreover have "PodSets a' = PodSets a1"
      unfolding a' by simp
    ultimately show ?thesis
      using inv1 by simp
  next
    case False
    with fin have "podSetsLoop k rf cq wl (Suc i) rest a1 = Inr a'"
      by (simp add: a1_def)
    from Cons.IH [OF this qs rs rest len1 inv1] show ?thesis .
  qed
qed

text \<open>
  With distinct quotas, as the API validates a cluster queue, a flavor has at most one
  quota for a resource.
\<close>

lemma flavor_quota_unique:
  assumes "distinct_quotas cq" "flavor_quota cq f r q" "flavor_quota cq f r q'"
  shows "q' = q"
proof -
  from assms(2) obtain rg fq where rg: "rg \<in> ran (RGByResource cq)" "r \<in> CoveredResources rg"
    "fq \<in> set (ResourceGroup_Flavors rg)" "FlavorQuotas_Name fq = f" "Resources fq r = Some q"
    by (auto simp: flavor_quota_def)
  from assms(3) obtain rg' fq' where rg': "rg' \<in> ran (RGByResource cq)"
    "r \<in> CoveredResources rg'" "fq' \<in> set (ResourceGroup_Flavors rg')"
    "FlavorQuotas_Name fq' = f" "Resources fq' r = Some q'"
    by (auto simp: flavor_quota_def)
  from assms(1) rg(1,2) rg'(1,2) have same: "rg' = rg"
    unfolding distinct_quotas_def by blast
  from assms(1) rg(1) have "distinct (map FlavorQuotas_Name (ResourceGroup_Flavors rg))"
    unfolding distinct_quotas_def by blast
  then have "inj_on FlavorQuotas_Name (set (ResourceGroup_Flavors rg))"
    by (simp add: distinct_map)
  with rg(3,4) rg'(3,4) same have "fq' = fq"
    by (auto dest: inj_onD)
  with rg(5) rg'(5) show ?thesis by simp
qed

text \<open>
  Claim C3, amended. The quantities of the cluster queue and of the workload are not
  negative and are below \<open>2 ^ 61\<close>, and the assigner returns an assignment whose
  representative mode is Fit. Then, for every flavor and resource, the usage that the
  assigner has accumulated is the usage of the workload: the sum of the requests of the
  pod sets that have the resource assigned to the flavor. Where the assignment uses the
  flavor for the resource, this usage is within a quota of the flavor for the resource:
  added to the usage of the cluster queue in the snapshot it is not over the nominal
  quota plus the borrowing limit, when a borrowing limit is set, and added to the usage
  of the cohort it is not over the requestable resources of the cohort (without a
  cohort, the usage of the cluster queue with it is not over the nominal quota).
  Elsewhere the usage of the workload is zero. The workload has any number of pod sets;
  the fit check of a pod set is made on top of the usage of the pod sets before it.
\<close>

theorem Fit_within_quota:
  assumes run: "AssignFlavors k wl resourceFlavors cq = Inr a"
    and fit: "fst (Assignment_RepresentativeMode a) = Fit"
    and qs: "quotas_small cq"
    and rs: "requests_small wl"
  shows "\<forall>f r. sint (qty (usage a) f r) = flavor_usage cq wl a f r
          \<and> (if flavor_used a f r
               then \<exists>q. flavor_quota cq f r q
                      \<and> within_quota cq f r (flavor_usage cq wl a f r) q
               else flavor_usage cq wl a f r = 0)"
proof -
  let ?a0 = "\<lparr>PodSets = [], TotalBorrow = Map.empty, usage = Map.empty,
              representativeMode = None\<rparr>"
  from run have loop: "podSetsLoop k resourceFlavors cq wl 0 (TotalRequests wl) ?a0 = Inr a"
    by (simp add: AssignFlavors_def)
  from podSetsLoop_inv [OF loop] have rm: "representativeMode a = None"
    by auto
  define S where "S = PodSetAssignment_RepresentativeMode ` set (PodSets a)"
  from fit Assignment_RepresentativeMode_Min [OF rm]
  have ne: "PodSets a \<noteq> []" and mn: "Min S = Fit"
    by (auto simp: S_def split: if_splits)
  have fin: "finite S" and ne': "S \<noteq> {}"
    using ne by (simp_all add: S_def)
  have all: "\<forall>ps\<in>set (PodSets a). PodSetAssignment_RepresentativeMode ps = Fit"
  proof
    fix ps assume "ps \<in> set (PodSets a)"
    then have "PodSetAssignment_RepresentativeMode ps \<in> S"
      by (simp add: S_def)
    from Min_Fit_all [OF fin ne' mn this]
    show "PodSetAssignment_RepresentativeMode ps = Fit" .
  qed
  have inv0: "(\<forall>ps\<in>set (PodSets ?a0). PodSetAssignment_RepresentativeMode ps = Fit)
           \<longrightarrow> usage_inv cq wl ?a0"
    by (simp add: usage_inv_def flavor_used_def flavor_usage_def qty_def)
  from podSetsLoop_usage [OF loop qs rs _ _ inv0] all
  have "usage_inv cq wl a"
    by simp
  then show ?thesis
    unfolding usage_inv_def by metis
qed

text \<open>
  Without the bound on the quantities the sums of the code wrap around. With the usage
  of the cluster queue at the greatest 64-bit integer, within a borrowing limit of the
  same size, a request of 1 is Fit, and takes the usage past the nominal quota plus the
  borrowing limit.
\<close>

theorem Fit_within_quota_counterexample:
  "AssignFlavors k0 (wl_cpu 1) rf0 cq_all_borrowed = Inr a_all_borrowed
   \<and> fst (Assignment_RepresentativeMode a_all_borrowed) = Fit
   \<and> flavor_used a_all_borrowed ''one'' ''cpu''
   \<and> flavor_usage cq_all_borrowed (wl_cpu 1) a_all_borrowed ''one'' ''cpu'' = 1
   \<and> flavor_quota cq_all_borrowed ''one'' ''cpu'' rq_all_borrowed
   \<and> BorrowingLimit rq_all_borrowed = Some 9223372036854775807
   \<and> sint (qty (Usage cq_all_borrowed) ''one'' ''cpu'')
       \<le> sint (Nominal rq_all_borrowed) + sint (9223372036854775807 :: int64)
   \<and> sint (Nominal rq_all_borrowed) + sint (9223372036854775807 :: int64)
       < sint (qty (Usage cq_all_borrowed) ''one'' ''cpu'')
         + flavor_usage cq_all_borrowed (wl_cpu 1) a_all_borrowed ''one'' ''cpu''
   \<and> \<not> within_quota cq_all_borrowed ''one'' ''cpu'' 1 rq_all_borrowed"
proof -
  have run: "AssignFlavors k0 (wl_cpu 1) rf0 cq_all_borrowed = Inr a_all_borrowed"
    by (simp add: eval_defs wl_cpu_def cq_all_borrowed_def rg_all_borrowed_def
        rq_all_borrowed_def rf0_def spec0_def k0_def a_all_borrowed_def)
  have fit: "fst (Assignment_RepresentativeMode a_all_borrowed) = Fit"
    by (simp add: a_all_borrowed_def Assignment_RepresentativeMode_def
        PodSetAssignment_RepresentativeMode_def less_FlavorAssignmentMode_def)
  have used: "flavor_used a_all_borrowed ''one'' ''cpu''"
    by (simp add: flavor_used_def a_all_borrowed_def)
  have fu: "flavor_usage cq_all_borrowed (wl_cpu 1) a_all_borrowed ''one'' ''cpu'' = 1"
    by (simp add: flavor_usage_def podSet_usage_def podsRequest_def requests_get_def
        a_all_borrowed_def wl_cpu_def cq_all_borrowed_def)
  have fq: "flavor_quota cq_all_borrowed ''one'' ''cpu'' rq_all_borrowed"
    by (simp add: flavor_quota_def cq_all_borrowed_def rg_all_borrowed_def)
  have rest: "BorrowingLimit rq_all_borrowed = Some 9223372036854775807
   \<and> sint (qty (Usage cq_all_borrowed) ''one'' ''cpu'')
       \<le> sint (Nominal rq_all_borrowed) + sint (9223372036854775807 :: int64)
   \<and> sint (Nominal rq_all_borrowed) + sint (9223372036854775807 :: int64)
       < sint (qty (Usage cq_all_borrowed) ''one'' ''cpu'') + 1
   \<and> \<not> within_quota cq_all_borrowed ''one'' ''cpu'' 1 rq_all_borrowed"
    by (simp add: within_quota_def cq_all_borrowed_def rq_all_borrowed_def qty_def)
  from run fit used fu fq rest show ?thesis
    by simp
qed

text \<open>
  Two pod sets of 3000 each on the same flavor: the second is checked with the 3000
  of the first, and the usage of the workload is 6000.
\<close>

theorem Fit_within_quota_witness:
  "AssignFlavors k0 wl_two_podsets rf0 cq_cohort = Inr a_two_podsets
   \<and> fst (Assignment_RepresentativeMode a_two_podsets) = Fit
   \<and> quotas_small cq_cohort \<and> requests_small wl_two_podsets
   \<and> flavor_used a_two_podsets ''one'' ''cpu''
   \<and> flavor_usage cq_cohort wl_two_podsets a_two_podsets ''one'' ''cpu'' = 6000
   \<and> (\<exists>q. flavor_quota cq_cohort ''one'' ''cpu'' q
          \<and> within_quota cq_cohort ''one'' ''cpu'' 6000 q)
   \<and> flavor_usage cq_cohort wl_two_podsets a_two_podsets ''two'' ''cpu'' = 0"
proof -
  have run: "AssignFlavors k0 wl_two_podsets rf0 cq_cohort = Inr a_two_podsets"
    by (simp add: eval_defs wl_two_podsets_def cq_cohort_def rg_past_max_def rq_past_max_def
        rf0_def spec0_def k0_def a_two_podsets_def)
  have fit: "fst (Assignment_RepresentativeMode a_two_podsets) = Fit"
    by (simp add: a_two_podsets_def Assignment_RepresentativeMode_def
        PodSetAssignment_RepresentativeMode_def less_FlavorAssignmentMode_def)
  have qs: "quotas_small cq_cohort"
    by (simp add: quotas_small_def small_quantity_def qty_def cq_cohort_def rg_past_max_def
        rq_past_max_def)
  have rs: "requests_small wl_two_podsets"
    by (simp add: requests_small_def small_quantity_def wl_two_podsets_def)
  have used: "flavor_used a_two_podsets ''one'' ''cpu''"
    by (simp add: flavor_used_def a_two_podsets_def)
  have unused: "\<not> flavor_used a_two_podsets ''two'' ''cpu''"
    by (simp add: flavor_used_def a_two_podsets_def)
  have us: "sint (qty (usage a_two_podsets) ''one'' ''cpu'') = 6000"
    by (simp add: a_two_podsets_def qty_def)
  from Fit_within_quota [OF run fit qs rs] used unused us
  have "flavor_usage cq_cohort wl_two_podsets a_two_podsets ''one'' ''cpu'' = 6000
   \<and> (\<exists>q. flavor_quota cq_cohort ''one'' ''cpu'' q
          \<and> within_quota cq_cohort ''one'' ''cpu'' 6000 q)
   \<and> flavor_usage cq_cohort wl_two_podsets a_two_podsets ''two'' ''cpu'' = 0"
    by metis
  with run fit qs rs used show ?thesis
    by simp
qed

end
